theory Spec2Isabelle
  imports Complex_Main "HOL-Library.Multiset"
begin

section \<open>Errors\<close>

text \<open>
  The notebooks define no exception class and contain no \<^verbatim>\<open>try\<close>: every failure is
  one of Python's built-in exceptions, raised by the interpreter or by the library, and
  it leaves the running cell. An operation that can raise returns \<open>error + 'a\<close>.
\<close>

datatype error = ValueError | RuntimeError | IndexError | ZeroDivisionError | OSError

definition thn :: "error + 'a \<Rightarrow> ('a \<Rightarrow> error + 'b) \<Rightarrow> error + 'b" where
  "thn r f = (case r of Inl e \<Rightarrow> Inl e | Inr v \<Rightarrow> f v)"

section \<open>Step 1: loading and splitting the data\<close>

subsection \<open>\<^verbatim>\<open>int(len(all_train)*.8)\<close>\<close>

text \<open>
  \<^verbatim>\<open>len(all_train)*.8\<close> is a product of IEEE 754 doubles: the length is converted to
  a double, multiplied by the double nearest to 0.8, and the exact product is rounded to
  53 significant bits, ties to even; \<^verbatim>\<open>int\<close> then drops the fraction. The literal
  \<^verbatim>\<open>.8\<close> is the double \<open>dbl_08 / 2 ^ 53\<close>. Rounding to 53 significant bits
  commutes with scaling by a power of two, so the product is computed on naturals, scaled
  by \<open>2 ^ 53\<close>. (A length is below \<open>2 ^ 63\<close> in CPython, far from the overflow of a
  double.)
\<close>

function bit_length :: "nat \<Rightarrow> nat" where
  "bit_length n = (if n = 0 then 0 else Suc (bit_length (n div 2)))"
  by pat_completeness auto
termination
  by (relation "measure id") auto

declare bit_length.simps [simp del]

definition round53 :: "nat \<Rightarrow> nat" where
  "round53 N =
     (let b = bit_length N in
      if b \<le> 53 then N
      else let s = b - 53; q = N div 2 ^ s; r = N mod 2 ^ s; h = 2 ^ (s - 1)
           in (if h < r \<or> (r = h \<and> odd q) then q + 1 else q) * 2 ^ s)"

definition dbl_08 :: nat where
  "dbl_08 = 7205759403792794"

definition num_train :: "nat \<Rightarrow> nat" where
  "num_train n = round53 (round53 n * dbl_08) div 2 ^ 53"

subsection \<open>The cell\<close>

text \<open>
  \<^verbatim>\<open>
  all_train = datasets.MNIST('data', train=True, download=True, transform=normalize_image)
  num_train = int(len(all_train)*.8)
  train = [all_train[i] for i in range(num_train)]
  dev = [all_train[i] for i in range(num_train,len(all_train))]
  test = datasets.MNIST('data', train=False, download=True, transform=normalize_image)
  \<close>
  (the CIFAR notebook has the same cell with \<^verbatim>\<open>datasets.CIFAR10\<close>). A dataset is the
  list of its samples; the two calls that load one are library calls, which can fail, and
  the cell receives their outcomes in the order it makes them.
\<close>

definition getitem :: "'a list \<Rightarrow> nat \<Rightarrow> error + 'a" where
  "getitem xs i = (if i < length xs then Inr (xs ! i) else Inl IndexError)"

fun comprehension :: "'a list \<Rightarrow> nat list \<Rightarrow> error + 'a list" where
  "comprehension xs [] = Inr []"
| "comprehension xs (i # is) =
     thn (getitem xs i) (\<lambda>x. thn (comprehension xs is) (\<lambda>r. Inr (x # r)))"

definition load_cell ::
  "error + 'a list \<Rightarrow> error + 'a list \<Rightarrow> error + ('a list \<times> 'a list \<times> 'a list)" where
  "load_cell mnist_train mnist_test =
     thn mnist_train (\<lambda>all_train.
       let k = num_train (length all_train) in
       thn (comprehension all_train [0..<k]) (\<lambda>train_part.
       thn (comprehension all_train [k..<length all_train]) (\<lambda>dev_part.
       thn mnist_test (\<lambda>test_part.
       Inr (train_part, dev_part, test_part)))))"

section \<open>Step 2: the linear classifier\<close>





section \<open>Step 3: training and evaluation\<close>

subsection \<open>State\<close>

text \<open>
  A sample is an image with its label. The parameters of a module are one vector of reals
  (the arithmetic of the library's floating-point tensors is taken exact). What a module
  computes is given by its architecture: \<open>net\<close> maps the mode, the parameters and one
  image to the logits, or fails; \<open>autograd\<close> gives the gradient, with respect to the
  parameters, of the loss of a batch. Modules in these notebooks are built from
  \<^verbatim>\<open>Linear\<close>, \<^verbatim>\<open>Conv2d\<close>, \<^verbatim>\<open>relu\<close> and \<^verbatim>\<open>max\<close>, which treat the rows
  of a batch independently and keep no state of their own.

  The three partitions, the module, the optimizer and the library's random generator are
  the objects the cells share; \<open>calls\<close> records the library calls made on the module and
  the optimizer, \<open>stdout\<close> what was printed.
\<close>

type_synonym 'x sample = "'x \<times> nat"

record 'x arch =
  net :: "bool \<Rightarrow> real list \<Rightarrow> 'x \<Rightarrow> error + real list"
  autograd :: "real list \<Rightarrow> 'x list \<Rightarrow> nat list \<Rightarrow> error + real list"

record module =
  params :: "real list"
  grad :: "real list option"
  training :: bool

record sgd =
  lr :: real
  momentum :: real
  momentum_buffer :: "real list option"

datatype part = Train | Dev | Test

record loader =
  part :: part
  batch_size :: nat

datatype 'x call =
  ModelTrain | ModelEval | ZeroGrad | Forward "'x list" | CrossEntropy "nat list"
  | Backward | Step

datatype line =
  TrainLine int real nat nat real | EvalLine string real nat nat real | Dashes

record 'x world =
  train :: "'x sample list"
  dev :: "'x sample list"
  test :: "'x sample list"
  model :: module
  optimizer :: sgd
  rng :: "nat list"
  calls :: "'x call list"
  stdout :: "line list"

text \<open>
  An action runs in a world and either returns a value or raises; the world it leaves
  behind is kept in both cases, as the objects of a Python process are.
\<close>

type_synonym ('x, 'a) action = "'x world \<Rightarrow> (error + 'a) \<times> 'x world"

definition returns :: "'a \<Rightarrow> ('x, 'a) action" where
  "returns v w = (Inr v, w)"

definition raises :: "error \<Rightarrow> ('x, 'a) action" where
  "raises e w = (Inl e, w)"

definition andthen :: "('x, 'a) action \<Rightarrow> ('a \<Rightarrow> ('x, 'b) action) \<Rightarrow> ('x, 'b) action" where
  "andthen m f w = (case m w of (Inl e, w') \<Rightarrow> (Inl e, w') | (Inr v, w') \<Rightarrow> f v w')"

subsection \<open>The settings cell\<close>

text \<open>
  \<^verbatim>\<open>
  batch_size = 64
  epochs = 10
  lr = .01
  momentum = 0.5
  train_loader = torch.utils.data.DataLoader(train, batch_size=batch_size, shuffle=True)
  dev_loader = torch.utils.data.DataLoader(dev, batch_size=batch_size, shuffle=True)
  test_loader = torch.utils.data.DataLoader(test, batch_size=batch_size, shuffle=True)
  model = Model()
  optimizer = optim.SGD(model.parameters(), lr=lr, momentum=momentum)
  \<close>
  A loader keeps a reference to its partition. The library refuses a batch size that is
  not positive.
\<close>

definition tutorial_batch_size :: nat where
  "tutorial_batch_size = 64"

definition tutorial_epochs :: int where
  "tutorial_epochs = 10"

definition DataLoader :: "part \<Rightarrow> nat \<Rightarrow> error + loader" where
  "DataLoader p bs = (if bs = 0 then Inl ValueError else Inr \<lparr>part = p, batch_size = bs\<rparr>)"

definition SGD :: "real \<Rightarrow> real \<Rightarrow> sgd" where
  "SGD rate mom = \<lparr>lr = rate, momentum = mom, momentum_buffer = None\<rparr>"

definition tutorial_optimizer :: sgd where
  "tutorial_optimizer = SGD 0.01 0.5"

subsection \<open>Library calls\<close>

text \<open>
  \<^verbatim>\<open>model.train()\<close> and \<^verbatim>\<open>model.eval()\<close> set the mode flag.
  \<^verbatim>\<open>optimizer.zero_grad()\<close> zeroes the gradient of every parameter that has one.
\<close>

definition model_train :: "('x, unit) action" where
  "model_train w =
     (Inr (), w\<lparr>model := (model w)\<lparr>training := True\<rparr>, calls := calls w @ [ModelTrain]\<rparr>)"

definition model_eval :: "('x, unit) action" where
  "model_eval w =
     (Inr (), w\<lparr>model := (model w)\<lparr>training := False\<rparr>, calls := calls w @ [ModelEval]\<rparr>)"

definition zero_grad :: "('x, unit) action" where
  "zero_grad w =
     (Inr (), w\<lparr>model := (model w)\<lparr>grad := map_option (map (\<lambda>_. 0)) (grad (model w))\<rparr>,
                calls := calls w @ [ZeroGrad]\<rparr>)"

text \<open>\<^verbatim>\<open>model(data)\<close>: the logits of every row of the batch, in the current mode.\<close>

fun rows :: "('x \<Rightarrow> error + 'o) \<Rightarrow> 'x list \<Rightarrow> error + 'o list" where
  "rows f [] = Inr []"
| "rows f (x # xs) = thn (f x) (\<lambda>y. thn (rows f xs) (\<lambda>ys. Inr (y # ys)))"

definition model_call :: "'x arch \<Rightarrow> 'x list \<Rightarrow> ('x, real list list) action" where
  "model_call A data w =
     (rows (net A (training (model w)) (params (model w))) data,
      w\<lparr>calls := calls w @ [Forward data]\<rparr>)"

text \<open>
  \<^verbatim>\<open>F.cross_entropy(output, target)\<close> with the default reduction: the loss of a row is
  the negative log of the softmax probability of its target class, and the loss of the
  batch is the mean over its rows. A target that is not a class is refused, and so is a
  batch whose output and target differ in length.
\<close>

definition sample_loss :: "real list \<Rightarrow> nat \<Rightarrow> error + real" where
  "sample_loss logits t =
     (if t < length logits then Inr (ln (sum_list (map exp logits)) - logits ! t)
      else Inl IndexError)"

definition cross_entropy :: "real list list \<Rightarrow> nat list \<Rightarrow> ('x, real) action" where
  "cross_entropy output target w =
     ((if length output \<noteq> length target then Inl ValueError
       else thn (rows (\<lambda>(logits, t). sample_loss logits t) (zip output target))
              (\<lambda>ls. Inr (sum_list ls / real (length ls)))),
      w\<lparr>calls := calls w @ [CrossEntropy target]\<rparr>)"

text \<open>\<^verbatim>\<open>loss.backward()\<close> adds the gradient of the batch loss to the stored gradient.\<close>

definition backward :: "'x arch \<Rightarrow> 'x list \<Rightarrow> nat list \<Rightarrow> ('x, unit) action" where
  "backward A data target w =
     (case autograd A (params (model w)) data target of
        Inl e \<Rightarrow> (Inl e, w\<lparr>calls := calls w @ [Backward]\<rparr>)
      | Inr g \<Rightarrow>
          (Inr (),
           w\<lparr>model := (model w)\<lparr>grad :=
                Some (case grad (model w) of None \<Rightarrow> g | Some g0 \<Rightarrow> map2 (+) g0 g)\<rparr>,
             calls := calls w @ [Backward]\<rparr>))"

text \<open>
  \<^verbatim>\<open>optimizer.step()\<close> of \<^verbatim>\<open>optim.SGD\<close>: parameters without a gradient are skipped;
  with a momentum, the buffer starts as the gradient and afterwards is
  \<open>momentum * buffer + gradient\<close>, and the parameters move against the buffer by the
  learning rate.
\<close>

definition optimizer_step :: "('x, unit) action" where
  "optimizer_step w =
     (case grad (model w) of
        None \<Rightarrow> (Inr (), w\<lparr>calls := calls w @ [Step]\<rparr>)
      | Some g \<Rightarrow>
          let opt = optimizer w;
              d_p = (if momentum opt \<noteq> 0
                     then (case momentum_buffer opt of
                             None \<Rightarrow> g
                           | Some buf \<Rightarrow> map2 (+) (map (\<lambda>b. momentum opt * b) buf) g)
                     else g)
          in (Inr (),
              w\<lparr>model := (model w)\<lparr>params :=
                   map2 (\<lambda>p d. p - lr opt * d) (params (model w)) d_p\<rparr>,
                optimizer := (if momentum opt \<noteq> 0 then opt\<lparr>momentum_buffer := Some d_p\<rparr>
                              else opt),
                calls := calls w @ [Step]\<rparr>))"

text \<open>
  \<^verbatim>\<open>pred = output.max(1, keepdim=True)[1]\<close> is the index of the first largest logit of
  each row, and \<^verbatim>\<open>pred.eq(target.view_as(pred)).sum().item()\<close> counts the rows whose
  prediction is the target.
\<close>

definition argmax :: "real list \<Rightarrow> nat" where
  "argmax xs = (if xs = [] then 0 else length (takeWhile (\<lambda>x. x \<noteq> Max (set xs)) xs))"

definition n_correct :: "real list list \<Rightarrow> nat list \<Rightarrow> nat" where
  "n_correct output target = length (filter (\<lambda>(logits, t). argmax logits = t) (zip output target))"

text \<open>
  Iterating a loader built with \<^verbatim>\<open>shuffle=True\<close>: the sampler draws a random
  permutation of the indices of the partition, the batch sampler cuts it into batches,
  \<^verbatim>\<open>
  batch = []
  for idx in self.sampler:
      batch.append(idx)
      if len(batch) == self.batch_size:
          yield batch
          batch = []
  if len(batch) > 0 and not self.drop_last:
      yield batch
  \<close>
  (\<^verbatim>\<open>drop_last\<close> is left at its default, false), and each batch of indices is collated
  into the images and the labels at these indices. The permutation is drawn from the
  generator by selection: each random number picks one of the indices that remain.
\<close>

fun shuffle :: "nat list \<Rightarrow> 'a list \<Rightarrow> 'a list" where
  "shuffle [] xs = xs"
| "shuffle (r # rs) xs =
     (if xs = [] then []
      else let i = r mod length xs in xs ! i # shuffle rs (take i xs @ drop (Suc i) xs))"

fun batch_sampler_loop :: "nat \<Rightarrow> nat list \<Rightarrow> nat list \<Rightarrow> nat list list" where
  "batch_sampler_loop bs batch [] = (if 0 < length batch then [batch] else [])"
| "batch_sampler_loop bs batch (idx # sampler) =
     (let batch' = batch @ [idx]
      in if length batch' = bs then batch' # batch_sampler_loop bs [] sampler
         else batch_sampler_loop bs batch' sampler)"

definition batch_sampler :: "nat \<Rightarrow> nat list \<Rightarrow> nat list list" where
  "batch_sampler bs sampler = batch_sampler_loop bs [] sampler"

definition dataset :: "'x world \<Rightarrow> loader \<Rightarrow> 'x sample list" where
  "dataset w l = (case part l of Train \<Rightarrow> train w | Dev \<Rightarrow> dev w | Test \<Rightarrow> test w)"

definition collate :: "'x sample list \<Rightarrow> nat list \<Rightarrow> 'x list \<times> nat list" where
  "collate ds batch = (map (\<lambda>i. fst (ds ! i)) batch, map (\<lambda>i. snd (ds ! i)) batch)"

definition iterate :: "loader \<Rightarrow> ('x, ('x list \<times> nat list) list) action" where
  "iterate l w =
     (let ds = dataset w l;
          n = length ds;
          perm = shuffle (take n (rng w)) [0..<n]
      in (Inr (map (collate ds) (batch_sampler (batch_size l) perm)),
          w\<lparr>rng := drop n (rng w)\<rparr>))"

definition print_line :: "line \<Rightarrow> ('x, unit) action" where
  "print_line text w = (Inr (), w\<lparr>stdout := stdout w @ [text]\<rparr>)"

subsection \<open>\<^verbatim>\<open>train_epoch\<close>\<close>

text \<open>
  \<^verbatim>\<open>
  def train_epoch( model, train_loader, optimizer, epoch):
      model.train() # Set the nn.Module to train mode.
      total_loss = 0
      correct = 0
      num_samples = len(train_loader.dataset)
      for batch_idx, (data, target) in enumerate(train_loader):
          optimizer.zero_grad()
          output = model(data)
          loss = F.cross_entropy(output, target)
          loss.backward()
          optimizer.step()
          pred = output.max(1, keepdim=True)[1] # get the index of the max log-probability
          correct += pred.eq(target.view_as(pred)).sum().item()
          total_loss += loss.detach() # Don't keep computation graph
      print('Train Epoch: {} \tLoss: {:.4f}, Accuracy: {}/{} ({:.0f}%)'.format(
              epoch, total_loss / num_samples,
              correct,
              num_samples,
              100. * correct / num_samples))
  \<close>
  A printed line is the tuple of the values that are formatted. With no sample the
  divisions of the last statement raise \<^verbatim>\<open>ZeroDivisionError\<close>.
\<close>

definition train_batch ::
  "'x arch \<Rightarrow> 'x list \<times> nat list \<Rightarrow> real \<times> nat \<Rightarrow> ('x, real \<times> nat) action" where
  "train_batch A = (\<lambda>(data, target) (total_loss, correct).
     andthen zero_grad (\<lambda>_.
     andthen (model_call A data) (\<lambda>output.
     andthen (cross_entropy output target) (\<lambda>loss.
     andthen (backward A data target) (\<lambda>_.
     andthen optimizer_step (\<lambda>_.
     returns (total_loss + loss, correct + n_correct output target)))))))"

fun train_loop ::
  "'x arch \<Rightarrow> ('x list \<times> nat list) list \<Rightarrow> real \<times> nat \<Rightarrow> ('x, real \<times> nat) action" where
  "train_loop A [] acc = returns acc"
| "train_loop A (b # bs) acc = andthen (train_batch A b acc) (train_loop A bs)"

definition train_epoch :: "'x arch \<Rightarrow> loader \<Rightarrow> int \<Rightarrow> ('x, unit) action" where
  "train_epoch A train_loader epoch =
     andthen model_train (\<lambda>_ w.
       let num_samples = length (dataset w train_loader) in
       andthen (iterate train_loader) (\<lambda>batches.
       andthen (train_loop A batches (0, 0)) (\<lambda>(total_loss, correct).
         if num_samples = 0 then raises ZeroDivisionError
         else print_line (TrainLine epoch (total_loss / real num_samples) correct num_samples
                (100 * real correct / real num_samples)))) w)"

subsection \<open>\<^verbatim>\<open>eval_epoch\<close>\<close>

text \<open>
  \<^verbatim>\<open>
  def eval_epoch(model, test_loader, name):
      model.eval()
      test_loss = 0
      correct = 0
      for data, target in test_loader:
          output = model(data)
          test_loss += F.cross_entropy(output, target).item() # sum up batch loss
          pred = output.max(1, keepdim=True)[1] # get the index of the max log-probability
          correct += pred.eq(target.view_as(pred)).sum().item()
      test_loss /= len(test_loader.dataset)
      print('\n{} set: Average loss: {:.4f}, Accuracy: {}/{} ({:.0f}%)\n'.format(
          name,
          test_loss,
          correct,
          len(test_loader.dataset),
          100. * correct / len(test_loader.dataset)))
  \<close>
\<close>

definition eval_batch ::
  "'x arch \<Rightarrow> 'x list \<times> nat list \<Rightarrow> real \<times> nat \<Rightarrow> ('x, real \<times> nat) action" where
  "eval_batch A = (\<lambda>(data, target) (test_loss, correct).
     andthen (model_call A data) (\<lambda>output.
     andthen (cross_entropy output target) (\<lambda>loss.
     returns (test_loss + loss, correct + n_correct output target))))"

fun eval_loop ::
  "'x arch \<Rightarrow> ('x list \<times> nat list) list \<Rightarrow> real \<times> nat \<Rightarrow> ('x, real \<times> nat) action" where
  "eval_loop A [] acc = returns acc"
| "eval_loop A (b # bs) acc = andthen (eval_batch A b acc) (eval_loop A bs)"

definition eval_epoch :: "'x arch \<Rightarrow> loader \<Rightarrow> string \<Rightarrow> ('x, unit) action" where
  "eval_epoch A test_loader name =
     andthen model_eval (\<lambda>_.
     andthen (iterate test_loader) (\<lambda>batches.
     andthen (eval_loop A batches (0, 0)) (\<lambda>(test_loss, correct) w.
       let n = length (dataset w test_loader) in
       (if n = 0 then raises ZeroDivisionError
        else print_line (EvalLine name (test_loss / real n) correct n
               (100 * real correct / real n))) w)))"

subsection \<open>Step 4: the training cell\<close>

text \<open>
  \<^verbatim>\<open>
  for epoch in range(1, epochs + 1):
      train_epoch(model, train_loader, optimizer, epoch)
      eval_epoch(model,  dev_loader, "Dev")
      print("---")
  \<close>
\<close>

fun driver_loop :: "'x arch \<Rightarrow> loader \<Rightarrow> loader \<Rightarrow> int list \<Rightarrow> ('x, unit) action" where
  "driver_loop A train_loader dev_loader [] = returns ()"
| "driver_loop A train_loader dev_loader (epoch # rest) =
     andthen (train_epoch A train_loader epoch) (\<lambda>_.
     andthen (eval_epoch A dev_loader ''Dev'') (\<lambda>_.
     andthen (print_line Dashes) (\<lambda>_.
     driver_loop A train_loader dev_loader rest)))"

definition driver :: "'x arch \<Rightarrow> loader \<Rightarrow> loader \<Rightarrow> int \<Rightarrow> ('x, unit) action" where
  "driver A train_loader dev_loader epochs =
     driver_loop A train_loader dev_loader [1..epochs]"

section \<open>Vocabulary of the properties\<close>

text \<open>
  An action keeps a field of the world when no run of it changes the field; it logs only
  calls of some kind when every run appends calls of that kind to the record of calls.
\<close>

definition keeps :: "('x world \<Rightarrow> 'b) \<Rightarrow> ('x, 'a) action \<Rightarrow> bool" where
  "keeps field m \<longleftrightarrow> (\<forall>w. field (snd (m w)) = field w)"

definition logs :: "('x call \<Rightarrow> bool) \<Rightarrow> ('x, 'a) action \<Rightarrow> bool" where
  "logs P m \<longleftrightarrow> (\<forall>w. \<exists>cs. calls (snd (m w)) = calls w @ cs \<and> (\<forall>c\<in>set cs. P c))"

text \<open>
  The samples of a collated batch; whether an architecture accepts every sample of a list
  (it yields logits, and the label is one of the classes); the class predicted for an
  image in evaluation mode; the number of samples predicted as labelled; the loss of one
  sample and the mean loss of a batch; the batches an iteration of a loader yields.
\<close>

definition samples_of :: "'x list \<times> nat list \<Rightarrow> 'x sample list" where
  "samples_of b = zip (fst b) (snd b)"

definition accepts :: "'x arch \<Rightarrow> bool \<Rightarrow> real list \<Rightarrow> 'x sample list \<Rightarrow> bool" where
  "accepts A mode p ds =
     list_all (\<lambda>(x, t). case net A mode p x of Inl e \<Rightarrow> False
                        | Inr logits \<Rightarrow> t < length logits) ds"

definition predicted :: "'x arch \<Rightarrow> real list \<Rightarrow> 'x \<Rightarrow> nat option" where
  "predicted A p x = (case net A False p x of Inl e \<Rightarrow> None | Inr logits \<Rightarrow> Some (argmax logits))"

definition hits :: "'x arch \<Rightarrow> real list \<Rightarrow> 'x sample list \<Rightarrow> nat" where
  "hits A p ds = length (filter (\<lambda>(x, t). predicted A p x = Some t) ds)"

definition loss_of :: "'x arch \<Rightarrow> bool \<Rightarrow> real list \<Rightarrow> 'x sample \<Rightarrow> real" where
  "loss_of A mode p = (\<lambda>(x, t).
     case net A mode p x of Inl e \<Rightarrow> 0
     | Inr logits \<Rightarrow> ln (sum_list (map exp logits)) - logits ! t)"

definition batch_mean :: "'x arch \<Rightarrow> bool \<Rightarrow> real list \<Rightarrow> 'x list \<times> nat list \<Rightarrow> real" where
  "batch_mean A mode p b =
     sum_list (map (loss_of A mode p) (samples_of b)) / real (length (samples_of b))"

definition batches_of :: "loader \<Rightarrow> 'x world \<Rightarrow> ('x list \<times> nat list) list" where
  "batches_of l w = (case fst (iterate l w) of Inl e \<Rightarrow> [] | Inr batches \<Rightarrow> batches)"

text \<open>
  The index of the maximum logit: a class whose logit is at least every logit and greater
  than every logit before it, which is the first class among those with the largest logit;
  the number of samples of a list for which this class is the label.
\<close>

definition is_top :: "real list \<Rightarrow> nat \<Rightarrow> bool" where
  "is_top logits t \<longleftrightarrow>
     t < length logits \<and> list_all (\<lambda>x. x \<le> logits ! t) logits \<and>
     list_all (\<lambda>x. x < logits ! t) (take t logits)"

definition top_count :: "'x arch \<Rightarrow> real list \<Rightarrow> 'x sample list \<Rightarrow> nat" where
  "top_count A p ds =
     length (filter (\<lambda>(x, t). case net A False p x of Inl e \<Rightarrow> False
                              | Inr logits \<Rightarrow> is_top logits t) ds)"

text \<open>
  A small instance: the images are vectors of two numbers, and the network returns the
  image itself as the logits.
\<close>

definition identity_net :: "(real list) arch" where
  "identity_net = \<lparr>net = (\<lambda>mode p x. Inr x), autograd = (\<lambda>p data target. Inr (map (\<lambda>_. 0) p))\<rparr>"

definition three_samples :: "(real list) sample list" where
  "three_samples = [([1, 0], 0), ([0, 1], 0), ([2, 5], 1)]"

definition small_world :: "(real list) world" where
  "small_world =
     \<lparr>train = three_samples, dev = three_samples, test = [],
      model = \<lparr>params = [], grad = None, training = False\<rparr>,
      optimizer = tutorial_optimizer, rng = [2, 0, 0], calls = [], stdout = []\<rparr>"

text \<open>
  The calls one training step makes for a batch; an architecture that can be trained on a
  list of samples (it accepts them in training mode whatever the parameters are, and the
  backward pass succeeds); what two worlds share when the partitions, the generator, the
  output and the mode of the module are the same in both.
\<close>

definition batch_calls :: "'x list \<times> nat list \<Rightarrow> 'x call list" where
  "batch_calls b = [ZeroGrad, Forward (fst b), CrossEntropy (snd b), Backward, Step]"

definition trainable :: "'x arch \<Rightarrow> 'x sample list \<Rightarrow> bool" where
  "trainable A ds \<longleftrightarrow>
     (\<forall>p. accepts A True p ds) \<and> (\<forall>p data target. \<exists>g. autograd A p data target = Inr g)"

definition steady :: "'x world \<Rightarrow> 'x world \<Rightarrow> bool" where
  "steady w' w \<longleftrightarrow>
     train w' = train w \<and> dev w' = dev w \<and> test w' = test w \<and> rng w' = rng w \<and>
     stdout w' = stdout w \<and> training (model w') = training (model w)"



text \<open>
  An architecture that can be evaluated on a list of samples whatever the parameters are;
  the number of batches of a loader over \<open>n\<close> samples; which printed line is of which
  kind; the calls that switch the mode and the calls that apply the model.
\<close>

definition evaluable :: "'x arch \<Rightarrow> 'x sample list \<Rightarrow> bool" where
  "evaluable A ds \<longleftrightarrow> (\<forall>p. accepts A False p ds)"

definition n_batches :: "nat \<Rightarrow> nat \<Rightarrow> nat" where
  "n_batches n bs = n div bs + (if n mod bs = 0 then 0 else 1)"

datatype heading = TrainHeading int | EvalHeading string | DashHeading

fun heading_of :: "line \<Rightarrow> heading" where
  "heading_of (TrainLine epoch loss correct n pct) = TrainHeading epoch"
| "heading_of (EvalLine name loss correct n pct) = EvalHeading name"
| "heading_of Dashes = DashHeading"

fun is_mode :: "'x call \<Rightarrow> bool" where
  "is_mode ModelTrain = True"
| "is_mode ModelEval = True"
| "is_mode c = False"

fun is_forward :: "'x call \<Rightarrow> bool" where
  "is_forward (Forward data) = True"
| "is_forward c = False"

text \<open>A training set of 65 equal samples for the loader of the tutorial.\<close>

definition world65 :: "(real list) world" where
  "world65 = small_world\<lparr>train := replicate 65 ([0, 0], 0)\<rparr>"

text \<open>Two dev samples with equal logits, for which the loss of each sample is \<open>ln 2\<close>.\<close>

definition two_samples :: "(real list) sample list" where
  "two_samples = [([0, 0], 0), ([0, 0], 0)]"

definition two_world :: "(real list) world" where
  "two_world =
     \<lparr>train = two_samples, dev = two_samples, test = two_samples,
      model = \<lparr>params = [], grad = None, training = False\<rparr>,
      optimizer = tutorial_optimizer, rng = [], calls = [], stdout = []\<rparr>"

text \<open>
  The objects that a training epoch can change and that the next epoch reads: the module,
  the optimizer and the random generator; the three partitions; an action whose result and
  whose effect on these objects are determined by them.
\<close>

definition carried :: "'x world \<Rightarrow> module \<times> sgd \<times> nat list" where
  "carried w = (model w, optimizer w, rng w)"

definition partitions :: "'x world \<Rightarrow> 'x sample list \<times> 'x sample list \<times> 'x sample list" where
  "partitions w = (train w, dev w, test w)"

definition determined :: "('x, 'a) action \<Rightarrow> bool" where
  "determined m \<longleftrightarrow>
     (\<forall>w1 w2. carried w1 = carried w2 \<and> partitions w1 = partitions w2 \<longrightarrow>
        fst (m w1) = fst (m w2) \<and>
        carried (snd (m w1)) = carried (snd (m w2)) \<and>
        partitions (snd (m w1)) = partitions (snd (m w2)))"

text \<open>
  A module with one parameter whose loss has the constant gradient 1, and a training set
  of one sample.
\<close>

definition slope_net :: "(real list) arch" where
  "slope_net = \<lparr>net = (\<lambda>mode p x. Inr x), autograd = (\<lambda>p data target. Inr (map (\<lambda>_. 1) p))\<rparr>"

definition one_world :: "(real list) world" where
  "one_world =
     \<lparr>train = [([0, 0], 0)], dev = [([0, 0], 0)], test = [],
      model = \<lparr>params = [0], grad = None, training = False\<rparr>,
      optimizer = tutorial_optimizer, rng = [], calls = [], stdout = []\<rparr>"

text \<open>The world that the first epoch on this sample leaves behind.\<close>

definition after_first_epoch :: "(real list) world" where
  "after_first_epoch =
     snd (train_epoch slope_net \<lparr>part = Train, batch_size = tutorial_batch_size\<rparr> 1 one_world)"

text \<open>
  The errors that the library calls of an architecture can raise, with the two errors
  that \<^verbatim>\<open>F.cross_entropy\<close> raises itself; an action that raises only errors of a given
  set.
\<close>

definition library_errors :: "'x arch \<Rightarrow> error set" where
  "library_errors A =
     {e. \<exists>mode p x. net A mode p x = Inl e} \<union> {e. \<exists>p data target. autograd A p data target = Inl e} \<union>
     {ValueError, IndexError}"

definition raises_only :: "error set \<Rightarrow> ('x, 'a) action \<Rightarrow> bool" where
  "raises_only S m \<longleftrightarrow> (\<forall>w. case fst (m w) of Inl e \<Rightarrow> e \<in> S | Inr v \<Rightarrow> True)"

text \<open>Architectures whose forward pass, or whose backward pass, fails.\<close>

definition broken_net :: "(real list) arch" where
  "broken_net = \<lparr>net = (\<lambda>mode p x. Inl RuntimeError), autograd = (\<lambda>p data target. Inl RuntimeError)\<rparr>"

definition no_grad_net :: "(real list) arch" where
  "no_grad_net = \<lparr>net = (\<lambda>mode p x. Inr x), autograd = (\<lambda>p data target. Inl RuntimeError)\<rparr>"

text \<open>A dev set whose label is not a class of the two logits.\<close>

definition bad_dev_world :: "(real list) world" where
  "bad_dev_world = small_world\<lparr>dev := [([0, 0], 5)]\<rparr>"

text \<open>
  Four dev samples, of which the last has two equal logits and the second class as label.
\<close>

definition four_samples :: "(real list) sample list" where
  "four_samples = [([1, 0], 0), ([0, 1], 1), ([2, 5], 1), ([3, 3], 1)]"

definition tie_world :: "(real list) world" where
  "tie_world = small_world\<lparr>dev := four_samples\<rparr>"



section \<open>Properties of the split\<close>

lemma thn_Inr [simp]: "thn (Inr v) f = f v"
  by (simp add: thn_def)

lemma thn_Inl [simp]: "thn (Inl e) f = Inl e"
  by (simp add: thn_def)

lemma bit_length_upper: "n < 2 ^ bit_length n"
proof (induction n rule: bit_length.induct)
  case (1 n)
  show ?case
  proof (cases "n = 0")
    case True
    then show ?thesis by (simp add: bit_length.simps)
  next
    case False
    with 1 have "n div 2 < 2 ^ bit_length (n div 2)" by simp
    then have "n < 2 * 2 ^ bit_length (n div 2)" by linarith
    with False show ?thesis by (subst bit_length.simps) simp
  qed
qed

lemma bit_length_le: "n < 2 ^ k \<Longrightarrow> bit_length n \<le> k"
proof (induction n arbitrary: k rule: bit_length.induct)
  case (1 n)
  show ?case
  proof (cases "n = 0")
    case True
    then show ?thesis by (simp add: bit_length.simps)
  next
    case False
    with 1(2) obtain j where k: "k = Suc j" by (cases k) auto
    with 1(2) have "n div 2 < 2 ^ j" by simp
    with 1(1) False have "bit_length (n div 2) \<le> j" by simp
    with False k show ?thesis by (subst bit_length.simps) simp
  qed
qed

text \<open>A length below \<open>2 ^ 53\<close> is a double: its conversion is exact.\<close>

lemma round53_small: "n < 2 ^ 53 \<Longrightarrow> round53 n = n"
  using bit_length_le [of n 53] by (simp add: round53_def)

lemma round53_cases:
  assumes "53 < bit_length N"
  defines "s \<equiv> bit_length N - 53"
  shows "round53 N = (N div 2 ^ s) * 2 ^ s \<or>
         (round53 N = (N div 2 ^ s + 1) * 2 ^ s \<and> 2 ^ (s - 1) \<le> N mod 2 ^ s)"
  using assms by (auto simp add: round53_def Let_def)

text \<open>
  Below \<open>2 ^ 50\<close> the rounded product truncates to the exact \<open>\<lfloor>4 n / 5\<rfloor>\<close>: the
  double \<^verbatim>\<open>.8\<close> exceeds 4/5 by the factor \<open>1 + 1 / 2 ^ 54\<close>, which is less than half
  a unit in the last place of the product, and the spacing of the doubles there is at most
  1/8, too fine for the rounding to reach the next integer from a fraction of at most 4/5.
\<close>

lemma mul_08_exact:
  assumes n: "n < 2 ^ 50"
  shows "round53 (n * dbl_08) div 2 ^ 53 = 4 * n div 5"
proof -
  define P where "P = n * dbl_08"
  define m where "m = 4 * n div 5"
  define k where "k = 4 * n mod 5"
  have n4: "4 * n = 5 * m + k" and k: "k < 5"
    by (simp_all add: m_def k_def)
  have P5: "5 * P = 4 * n * 2 ^ 53 + 2 * n"
    by (simp add: P_def dbl_08_def)
  have lo: "m * 2 ^ 53 \<le> P"
    using P5 n4 by simp
  have Plt: "P < 2 ^ 103"
  proof -
    have "5 * P < 5 * 2 ^ 103" using P5 n by simp
    then show ?thesis by simp
  qed
  show ?thesis
  proof (cases "bit_length P \<le> 53")
    case True
    then have R: "round53 P = P" by (simp add: round53_def)
    have "P < 2 ^ bit_length P" by (rule bit_length_upper)
    also have "\<dots> \<le> 2 ^ 53"
      using True power_increasing [of "bit_length P" 53 "2::nat"] by simp
    finally have "P < 2 ^ 53" .
    with lo have "m = 0" by (cases m) auto
    with \<open>P < 2 ^ 53\<close> R show ?thesis by (simp add: P_def m_def)
  next
    case False
    define s where "s = bit_length P - 53"
    define G :: nat where "G = 2 ^ s"
    define h :: nat where "h = 2 ^ (s - 1)"
    define q where "q = P div G"
    define r where "r = P mod G"
    have "bit_length P \<le> 103" using Plt by (rule bit_length_le)
    with False have s: "1 \<le> s" "s \<le> 50" by (simp_all add: s_def)
    define T :: nat where "T = 2 ^ (53 - s)"
    have TG: "T * G = 2 ^ 53"
      using s by (simp add: T_def G_def flip: power_add)
    have G2: "G = 2 * h"
      using s by (cases s) (simp_all add: G_def h_def)
    have "h \<le> 2 ^ 49"
      unfolding h_def using s power_increasing [of "s - 1" 49 "2::nat"] by simp
    define A where "A = q * G"
    have Pqr: "P = A + r" by (simp add: A_def q_def r_def)
    have up: "P + h < (m + 1) * 2 ^ 53"
    proof -
      have "5 * P + 5 * h < 5 * ((m + 1) * 2 ^ 53)"
        using P5 n4 k n \<open>h \<le> 2 ^ 49\<close> by simp
      then show ?thesis by simp
    qed
    have "m * T * G \<le> P" using lo TG by (simp add: mult.assoc)
    then have "m * T \<le> q"
      unfolding q_def
      by (metis G_def div_le_mono div_mult_self_is_m zero_less_numeral zero_less_power)
    then have "m * T * G \<le> q * G" by (rule mult_le_mono1)
    then have lowR: "m * 2 ^ 53 \<le> A"
      using TG by (simp add: A_def mult.assoc)
    from round53_cases [of P] False
    have "round53 P = q * G \<or> (round53 P = (q + 1) * G \<and> h \<le> r)"
      by (simp add: s_def G_def h_def q_def r_def)
    then have "round53 P = A \<or> (round53 P = A + G \<and> h \<le> r)"
      by (auto simp add: A_def)
    then have bounds: "m * 2 ^ 53 \<le> round53 P \<and> round53 P < (m + 1) * 2 ^ 53"
    proof
      assume "round53 P = A"
      with lowR up Pqr show ?thesis by linarith
    next
      assume "round53 P = A + G \<and> h \<le> r"
      with lowR up Pqr G2 show ?thesis by linarith
    qed
    then have "round53 P div 2 ^ 53 = m"
      by (metis div_nat_eqI mult.commute Suc_eq_plus1)
    then show ?thesis by (simp add: P_def m_def)
  qed
qed

lemma num_train_exact: "n < 2 ^ 50 \<Longrightarrow> num_train n = 4 * n div 5"
  using mul_08_exact [of n] round53_small [of n] by (simp add: num_train_def)

lemma floor_four_fifths: "nat \<lfloor>0.8 * real n\<rfloor> = 4 * n div 5"
proof -
  have "0.8 * real n = real (4 * n) / real 5" by simp
  then have "\<lfloor>0.8 * real n\<rfloor> = \<lfloor>real (4 * n) / real 5\<rfloor>" by simp
  also have "\<dots> = int (4 * n div 5)" by (rule floor_divide_of_nat_eq)
  finally show ?thesis by simp
qed

lemma comprehension_range:
  "j \<le> length xs \<Longrightarrow> comprehension xs [i..<j] = Inr (map (\<lambda>k. xs ! k) [i..<j])"
proof (induction "j - i" arbitrary: i)
  case 0
  then show ?case by simp
next
  case (Suc d)
  then have "i < j" by simp
  then have "[i..<j] = i # [Suc i..<j]" by (rule upt_conv_Cons)
  moreover have "comprehension xs [Suc i..<j] = Inr (map (\<lambda>k. xs ! k) [Suc i..<j])"
    using Suc by simp
  ultimately show ?case using Suc.prems \<open>i < j\<close> by (simp add: getitem_def)
qed

lemma load_cell_split:
  assumes "num_train (length xs) \<le> length xs"
  shows "load_cell (Inr xs) (Inr ys) =
    Inr (take (num_train (length xs)) xs, drop (num_train (length xs)) xs, ys)"
proof -
  let ?k = "num_train (length xs)"
  have "map (\<lambda>k. xs ! k) [0..<?k] = take ?k xs"
    using assms by (metis take_map take_upt map_nth add_0)
  then have a: "comprehension xs [0..<?k] = Inr (take ?k xs)"
    using assms by (simp add: comprehension_range)
  have "map (\<lambda>k. xs ! k) [?k..<length xs] = drop ?k xs"
    by (metis drop_map drop_upt map_nth add_0)
  then have b: "comprehension xs [?k..<length xs] = Inr (drop ?k xs)"
    by (simp add: comprehension_range)
  show ?thesis by (simp add: load_cell_def Let_def a b)
qed

text \<open>
  Claim C1. A training dataset \<open>all_train\<close> of length \<open>n\<close> is split into \<open>train\<close>, its
  first \<open>\<lfloor>0.8 n\<rfloor>\<close> samples in order, and \<open>dev\<close>, the remaining \<open>n - \<lfloor>0.8 n\<rfloor>\<close>
  samples in order: the two take disjoint ranges of positions (and share no sample when
  no sample occurs twice in \<open>all_train\<close>), and \<open>train @ dev = all_train\<close>. \<open>test\<close> is
  the separately loaded dataset, so it shares no sample with either when it shares none with
  \<open>all_train\<close>. The length is below \<open>2 ^ 50\<close>, as that of every dataset that can be
  held in memory is (the MNIST training set has 60000 samples, that of CIFAR-10 50000);
  from there on the double product of the source can exceed \<open>\<lfloor>0.8 n\<rfloor>\<close> by one.
\<close>

theorem split_partition:
  assumes "length all_train < 2 ^ 50"
  shows "\<exists>k tr dv te.
     k = nat \<lfloor>0.8 * real (length all_train)\<rfloor> \<and>
     load_cell (Inr all_train) (Inr test_set) = Inr (tr, dv, te) \<and>
     tr = take k all_train \<and> dv = drop k all_train \<and>
     length tr = k \<and> length dv = length all_train - k \<and>
     tr @ dv = all_train \<and>
     tr = map (\<lambda>i. all_train ! i) [0..<k] \<and>
     dv = map (\<lambda>i. all_train ! i) [k..<length all_train] \<and>
     set [0..<k] \<inter> set [k..<length all_train] = {} \<and>
     (distinct all_train \<longrightarrow> set tr \<inter> set dv = {}) \<and>
     te = test_set \<and>
     (set test_set \<inter> set all_train = {} \<longrightarrow> set te \<inter> set tr = {} \<and> set te \<inter> set dv = {})"
proof -
  define n where "n = length all_train"
  define k where "k = nat \<lfloor>0.8 * real (length all_train)\<rfloor>"
  define tr where "tr = take k all_train"
  define dv where "dv = drop k all_train"
  have kv: "k = 4 * n div 5"
    unfolding k_def n_def by (rule floor_four_fifths)
  have kn: "k \<le> length all_train"
    by (simp add: kv n_def)
  have "num_train (length all_train) = k"
    using assms by (simp add: kv n_def num_train_exact)
  then have c1: "load_cell (Inr all_train) (Inr test_set) = Inr (tr, dv, test_set)"
    using load_cell_split [of all_train test_set] kn by (simp add: tr_def dv_def)
  have c2: "length tr = k" using kn by (simp add: tr_def)
  have c3: "length dv = length all_train - k" by (simp add: dv_def)
  have c4: "tr @ dv = all_train" by (simp add: tr_def dv_def)
  have c5: "tr = map (\<lambda>i. all_train ! i) [0..<k]"
    unfolding tr_def using kn by (metis take_map take_upt map_nth add_0)
  have c6: "dv = map (\<lambda>i. all_train ! i) [k..<length all_train]"
    unfolding dv_def by (metis drop_map drop_upt map_nth add_0)
  have c7: "set [0..<k] \<inter> set [k..<length all_train] = {}" by auto
  have c8: "distinct all_train \<longrightarrow> set tr \<inter> set dv = {}"
    unfolding tr_def dv_def by (metis append_take_drop_id distinct_append)
  have sub: "set tr \<subseteq> set all_train" "set dv \<subseteq> set all_train"
    by (simp_all add: tr_def dv_def set_take_subset set_drop_subset)
  have c9: "set test_set \<inter> set all_train = {} \<longrightarrow>
      set test_set \<inter> set tr = {} \<and> set test_set \<inter> set dv = {}"
    using sub by blast
  have "k = nat \<lfloor>0.8 * real (length all_train)\<rfloor> \<and>
     load_cell (Inr all_train) (Inr test_set) = Inr (tr, dv, test_set) \<and>
     tr = take k all_train \<and> dv = drop k all_train \<and>
     length tr = k \<and> length dv = length all_train - k \<and>
     tr @ dv = all_train \<and>
     tr = map (\<lambda>i. all_train ! i) [0..<k] \<and>
     dv = map (\<lambda>i. all_train ! i) [k..<length all_train] \<and>
     set [0..<k] \<inter> set [k..<length all_train] = {} \<and>
     (distinct all_train \<longrightarrow> set tr \<inter> set dv = {}) \<and>
     test_set = test_set \<and>
     (set test_set \<inter> set all_train = {} \<longrightarrow>
        set test_set \<inter> set tr = {} \<and> set test_set \<inter> set dv = {})"
    using k_def tr_def dv_def c1 c2 c3 c4 c5 c6 c7 c8 c9 by blast
  then show ?thesis by blast
qed

text \<open>The split of five samples, with two test samples.\<close>

theorem split_partition_witness:
  "length [10, 11, 12, 13, 14 :: nat] < 2 ^ 50 \<and>
   distinct [10, 11, 12, 13, 14 :: nat] \<and>
   set [20, 21] \<inter> set [10, 11, 12, 13, 14 :: nat] = {} \<and>
   load_cell (Inr [10, 11, 12, 13, 14 :: nat]) (Inr [20, 21]) =
     Inr ([10, 11, 12, 13], [14], [20, 21])"
  using split_partition [of "[10, 11, 12, 13, 14 :: nat]" "[20, 21]"] by simp

section \<open>Properties of the linear classifier\<close>




section \<open>Actions\<close>

lemma andthen_Inr: "m w = (Inr v, w') \<Longrightarrow> andthen m f w = f v w'"
  by (simp add: andthen_def)

lemma andthen_Inl: "m w = (Inl e, w') \<Longrightarrow> andthen m f w = (Inl e, w')"
  by (simp add: andthen_def)

lemma andthen_returns [simp]: "andthen (returns v) f w = f v w"
  by (simp add: andthen_def returns_def)

lemma keepsI: "(\<And>w. field (snd (m w)) = field w) \<Longrightarrow> keeps field m"
  by (simp add: keeps_def)

lemma keepsD: "keeps field m \<Longrightarrow> field (snd (m w)) = field w"
  by (simp add: keeps_def)

lemma keeps_andthen:
  assumes "keeps field m" and "\<And>v. keeps field (f v)"
  shows "keeps field (andthen m f)"
proof (rule keepsI)
  fix w
  obtain r w' where mw: "m w = (r, w')" by (cases "m w")
  with assms(1) have "field w' = field w" by (metis keepsD snd_conv)
  with mw assms(2) show "field (snd (andthen m f w)) = field w"
    by (cases r) (simp_all add: andthen_def keeps_def)
qed

lemma keeps_returns [simp]: "keeps field (returns v)"
  by (simp add: keeps_def returns_def)

lemma keeps_raises [simp]: "keeps field (raises e)"
  by (simp add: keeps_def raises_def)


lemma logsI: "(\<And>w. \<exists>cs. calls (snd (m w)) = calls w @ cs \<and> (\<forall>c\<in>set cs. P c)) \<Longrightarrow> logs P m"
  by (simp add: logs_def)

lemma logs_andthen:
  assumes "logs P m" and "\<And>v. logs P (f v)"
  shows "logs P (andthen m f)"
proof (rule logsI)
  fix w
  obtain r w' where mw: "m w = (r, w')" by (cases "m w")
  from assms(1) mw obtain cs where cs: "calls w' = calls w @ cs" "\<forall>c\<in>set cs. P c"
    unfolding logs_def by (metis snd_conv)
  show "\<exists>cs. calls (snd (andthen m f w)) = calls w @ cs \<and> (\<forall>c\<in>set cs. P c)"
  proof (cases r)
    case (Inl e)
    with mw cs show ?thesis by (auto simp add: andthen_def)
  next
    case (Inr v)
    from assms(2) [of v] obtain ds where
      "calls (snd (f v w')) = calls w' @ ds" "\<forall>c\<in>set ds. P c"
      unfolding logs_def by blast
    with Inr mw cs show ?thesis
      by (intro exI [of _ "cs @ ds"]) (auto simp add: andthen_def)
  qed
qed

lemma logs_silent: "keeps calls m \<Longrightarrow> logs P m"
  by (rule logsI) (auto simp add: keeps_def)

subsection \<open>Frames of the library calls\<close>

lemma dataset_cong:
  "train w' = train w \<Longrightarrow> dev w' = dev w \<Longrightarrow> test w' = test w \<Longrightarrow> dataset w' l = dataset w l"
  by (cases "part l") (simp_all add: dataset_def)

lemma model_eval_frame:
  "keeps (\<lambda>w. params (model w)) model_eval" "keeps (\<lambda>w. grad (model w)) model_eval"
  "keeps optimizer model_eval" "keeps train model_eval" "keeps dev model_eval"
  "keeps test model_eval" "keeps stdout model_eval" "keeps rng model_eval"
  by (simp_all add: keeps_def model_eval_def)

lemma model_train_frame:
  "keeps (\<lambda>w. params (model w)) model_train" "keeps (\<lambda>w. grad (model w)) model_train"
  "keeps optimizer model_train" "keeps train model_train" "keeps dev model_train"
  "keeps test model_train" "keeps stdout model_train" "keeps rng model_train"
  by (simp_all add: keeps_def model_train_def)

lemma zero_grad_frame:
  "keeps (\<lambda>w. params (model w)) zero_grad" "keeps (\<lambda>w. training (model w)) zero_grad"
  "keeps optimizer zero_grad" "keeps train zero_grad" "keeps dev zero_grad"
  "keeps test zero_grad" "keeps stdout zero_grad" "keeps rng zero_grad"
  by (simp_all add: keeps_def zero_grad_def)

lemma model_call_frame:
  "keeps model (model_call A data)" "keeps optimizer (model_call A data)"
  "keeps train (model_call A data)" "keeps dev (model_call A data)"
  "keeps test (model_call A data)" "keeps stdout (model_call A data)"
  "keeps rng (model_call A data)"
  by (simp_all add: keeps_def model_call_def)

lemma cross_entropy_frame:
  "keeps model (cross_entropy output target)" "keeps optimizer (cross_entropy output target)"
  "keeps train (cross_entropy output target)" "keeps dev (cross_entropy output target)"
  "keeps test (cross_entropy output target)" "keeps stdout (cross_entropy output target)"
  "keeps rng (cross_entropy output target)"
  by (simp_all add: keeps_def cross_entropy_def)

lemma backward_frame:
  "keeps (\<lambda>w. params (model w)) (backward A data target)"
  "keeps (\<lambda>w. training (model w)) (backward A data target)"
  "keeps optimizer (backward A data target)"
  "keeps train (backward A data target)" "keeps dev (backward A data target)"
  "keeps test (backward A data target)" "keeps stdout (backward A data target)"
  "keeps rng (backward A data target)"
  by (simp_all add: keeps_def backward_def split: sum.splits)

lemma optimizer_step_frame:
  "keeps (\<lambda>w. grad (model w)) optimizer_step"
  "keeps (\<lambda>w. training (model w)) optimizer_step"
  "keeps train optimizer_step" "keeps dev optimizer_step"
  "keeps test optimizer_step" "keeps stdout optimizer_step"
  "keeps rng optimizer_step"
  by (simp_all add: keeps_def optimizer_step_def Let_def split: option.splits)

lemma iterate_frame:
  "keeps model (iterate l)" "keeps optimizer (iterate l)"
  "keeps train (iterate l)" "keeps dev (iterate l)"
  "keeps test (iterate l)" "keeps stdout (iterate l)" "keeps calls (iterate l)"
  by (simp_all add: keeps_def iterate_def Let_def)

lemma print_line_frame:
  "keeps model (print_line t)" "keeps optimizer (print_line t)"
  "keeps train (print_line t)" "keeps dev (print_line t)"
  "keeps test (print_line t)" "keeps rng (print_line t)" "keeps calls (print_line t)"
  by (simp_all add: keeps_def print_line_def)

lemma keeps_model_field: "keeps model m \<Longrightarrow> keeps (\<lambda>w. f (model w)) m"
  by (simp add: keeps_def)


subsection \<open>Frame of an evaluation epoch\<close>

lemma eval_batch_keeps:
  assumes "\<And>d. keeps field (model_call A d)"
    and "\<And>out t. keeps field (cross_entropy out t)"
  shows "keeps field (eval_batch A b acc)"
  unfolding eval_batch_def
  by (cases b, cases acc) (simp add: keeps_andthen assms)

lemma eval_loop_keeps:
  assumes "\<And>d. keeps field (model_call A d)"
    and "\<And>out t. keeps field (cross_entropy out t)"
  shows "keeps field (eval_loop A bs acc)"
proof (induction bs arbitrary: acc)
  case Nil
  show ?case by simp
next
  case (Cons b bs)
  show ?case
    by (simp add: keeps_andthen eval_batch_keeps assms Cons.IH)
qed

lemma model_call_logs: "logs (\<lambda>c. c \<noteq> ZeroGrad \<and> c \<noteq> Backward \<and> c \<noteq> Step \<and> c \<noteq> ModelTrain \<and> c \<noteq> ModelEval) (model_call A d)"
  by (rule logsI) (simp add: model_call_def)

lemma cross_entropy_logs: "logs (\<lambda>c. c \<noteq> ZeroGrad \<and> c \<noteq> Backward \<and> c \<noteq> Step \<and> c \<noteq> ModelTrain \<and> c \<noteq> ModelEval) (cross_entropy out t)"
  by (rule logsI) (simp add: cross_entropy_def)

lemma logs_returns [simp]: "logs P (returns v)"
  by (simp add: logs_def returns_def)

lemma logs_raises [simp]: "logs P (raises e)"
  by (simp add: logs_def raises_def)

lemma eval_loop_logs:
  "logs (\<lambda>c. c \<noteq> ZeroGrad \<and> c \<noteq> Backward \<and> c \<noteq> Step \<and> c \<noteq> ModelTrain \<and> c \<noteq> ModelEval) (eval_loop A bs acc)"
proof (induction bs arbitrary: acc)
  case Nil
  show ?case by simp
next
  case (Cons b bs)
  have "logs (\<lambda>c. c \<noteq> ZeroGrad \<and> c \<noteq> Backward \<and> c \<noteq> Step \<and> c \<noteq> ModelTrain \<and> c \<noteq> ModelEval) (eval_batch A b acc)"
    unfolding eval_batch_def
    by (cases b, cases acc)
      (simp add: logs_andthen model_call_logs cross_entropy_logs)
  then show ?case
    by (simp add: logs_andthen Cons.IH)
qed


lemma eval_epoch_unfold:
  "eval_epoch A l name w =
     andthen (iterate l) (\<lambda>batches.
     andthen (eval_loop A batches (0, 0)) (\<lambda>(test_loss, correct) w.
       let n = length (dataset w l) in
       (if n = 0 then raises ZeroDivisionError
        else print_line (EvalLine name (test_loss / real n) correct n
               (100 * real correct / real n))) w))
     (w\<lparr>model := (model w)\<lparr>training := False\<rparr>, calls := calls w @ [ModelEval]\<rparr>)"
  by (simp add: eval_epoch_def andthen_def model_eval_def)

lemma eval_report_keeps:
  assumes "keeps field (print_line (EvalLine name (fst acc / real (length (dataset w0 l))) (snd acc)
      (length (dataset w0 l)) (100 * real (snd acc) / real (length (dataset w0 l)))))"
  shows "field (snd ((case acc of (test_loss, correct) \<Rightarrow> \<lambda>w.
       let n = length (dataset w l) in
       (if n = 0 then raises ZeroDivisionError
        else print_line (EvalLine name (test_loss / real n) correct n
               (100 * real correct / real n))) w) w0)) = field w0"
  using assms by (cases acc) (simp add: Let_def raises_def keeps_def)

lemma eval_rest_keeps:
  assumes "keeps field (iterate l)"
    and "\<And>d. keeps field (model_call A d)"
    and "\<And>out t. keeps field (cross_entropy out t)"
    and "\<And>t. keeps field (print_line t)"
  shows "keeps field (andthen (iterate l) (\<lambda>batches.
     andthen (eval_loop A batches (0, 0)) (\<lambda>(test_loss, correct) w.
       let n = length (dataset w l) in
       (if n = 0 then raises ZeroDivisionError
        else print_line (EvalLine name (test_loss / real n) correct n
               (100 * real correct / real n))) w)))"
proof (intro keeps_andthen assms(1) eval_loop_keeps assms(2,3))
  fix batches :: "('a list \<times> nat list) list" and acc :: "real \<times> nat"
  show "keeps field (case acc of (test_loss, correct) \<Rightarrow> \<lambda>w.
       let n = length (dataset w l) in
       (if n = 0 then raises ZeroDivisionError
        else print_line (EvalLine name (test_loss / real n) correct n
               (100 * real correct / real n))) w)"
    by (rule keepsI, rule eval_report_keeps, rule assms(4))
qed


lemma eval_rest_logs:
  "logs (\<lambda>c. c \<noteq> ZeroGrad \<and> c \<noteq> Backward \<and> c \<noteq> Step \<and> c \<noteq> ModelTrain \<and> c \<noteq> ModelEval)
     (andthen (iterate l) (\<lambda>batches.
     andthen (eval_loop A batches (0, 0)) (\<lambda>(test_loss, correct) w.
       let n = length (dataset w l) in
       (if n = 0 then raises ZeroDivisionError
        else print_line (EvalLine name (test_loss / real n) correct n
               (100 * real correct / real n))) w)))"
proof (intro logs_andthen eval_loop_logs logs_silent iterate_frame)
  fix batches :: "('a list \<times> nat list) list" and acc :: "real \<times> nat"
  show "keeps calls (case acc of (test_loss, correct) \<Rightarrow> \<lambda>w.
       let n = length (dataset w l) in
       (if n = 0 then raises ZeroDivisionError
        else print_line (EvalLine name (test_loss / real n) correct n
               (100 * real correct / real n))) w)"
    by (rule keepsI, rule eval_report_keeps, rule print_line_frame)
qed

lemma eval_rest_stdout:
  fixes w :: "'x world" and l :: loader and A :: "'x arch" and name :: string
  defines "w' \<equiv> snd (andthen (iterate l) (\<lambda>batches.
     andthen (eval_loop A batches (0, 0)) (\<lambda>(test_loss, correct) w.
       let n = length (dataset w l) in
       (if n = 0 then raises ZeroDivisionError
        else print_line (EvalLine name (test_loss / real n) correct n
               (100 * real correct / real n))) w)) w)"
  shows "stdout w' = stdout w \<or>
    (\<exists>loss correct n pct. stdout w' = stdout w @ [EvalLine name loss correct n pct])"
proof -
  obtain batches w1 where it: "iterate l w = (Inr batches, w1)"
    by (simp add: iterate_def Let_def)
  have s1: "stdout w1 = stdout w"
    using keepsD [OF iterate_frame(6), of l w] it by simp
  obtain r w2 where lp: "eval_loop A batches (0, 0) w1 = (r, w2)"
    by (cases "eval_loop A batches (0, 0) w1")
  have s2: "stdout w2 = stdout w1"
    using keepsD [OF eval_loop_keeps [OF model_call_frame(6) cross_entropy_frame(6)], of A batches "(0, 0)" w1] lp
    by simp
  show ?thesis
  proof (cases r)
    case (Inl e)
    with it lp s1 s2 show ?thesis by (simp add: w'_def andthen_def)
  next
    case (Inr acc)
    with it lp s1 s2 show ?thesis
      by (cases acc) (simp add: w'_def andthen_def Let_def raises_def print_line_def)
  qed
qed

lemma eval_epoch_train: "train (snd (eval_epoch A l name w)) = train w"
proof -
  have "train (snd (eval_epoch A l name w)) =
      train (w\<lparr>model := (model w)\<lparr>training := False\<rparr>, calls := calls w @ [ModelEval]\<rparr>)"
    unfolding eval_epoch_unfold
    by (rule keepsD [OF eval_rest_keeps])
      (rule iterate_frame model_call_frame cross_entropy_frame print_line_frame)+
  then show ?thesis by simp
qed

lemma eval_epoch_rng:
  "rng (snd (eval_epoch A l name w)) = drop (length (dataset w l)) (rng w)"
proof -
  define w1 where "w1 = w\<lparr>model := (model w)\<lparr>training := False\<rparr>, calls := calls w @ [ModelEval]\<rparr>"
  obtain batches w2 where it: "iterate l w1 = (Inr batches, w2)"
    by (simp add: iterate_def Let_def)
  have "dataset w1 l = dataset w l"
    by (rule dataset_cong) (simp_all add: w1_def)
  with it have r2: "rng w2 = drop (length (dataset w l)) (rng w)"
    by (auto simp add: iterate_def Let_def w1_def)
  have "keeps rng (andthen (eval_loop A batches (0, 0)) (\<lambda>(test_loss, correct) w.
       let n = length (dataset w l) in
       (if n = 0 then raises ZeroDivisionError
        else print_line (EvalLine name (test_loss / real n) correct n
               (100 * real correct / real n))) w))"
  proof (intro keeps_andthen eval_loop_keeps model_call_frame cross_entropy_frame)
    fix acc :: "real \<times> nat"
    show "keeps rng (case acc of (test_loss, correct) \<Rightarrow> \<lambda>w.
       let n = length (dataset w l) in
       (if n = 0 then raises ZeroDivisionError
        else print_line (EvalLine name (test_loss / real n) correct n
               (100 * real correct / real n))) w)"
      by (rule keepsI, rule eval_report_keeps, rule print_line_frame)
  qed
  then have "rng (snd (eval_epoch A l name w)) = rng w2"
    unfolding eval_epoch_unfold w1_def [symmetric]
    using it by (simp add: andthen_def keeps_def)
  with r2 show ?thesis by simp
qed

text \<open>
  Claim C8 as stated fails in its last part: printing and the switch to the evaluation
  mode are not the only effects of \<open>eval_epoch\<close>. Its loader is built with
  \<^verbatim>\<open>shuffle=True\<close> and draws its permutation from the random generator of the
  library, which the call leaves advanced: on three dev samples the generator that held
  three numbers holds none afterwards, and the next pass of the training loader goes
  through the training set in another order than it would have without the call.
\<close>

theorem eval_epoch_generator_counterexample:
  "rng small_world = [2, 0, 0] \<and>
   rng (snd (eval_epoch identity_net \<lparr>part = Dev, batch_size = 2\<rparr> ''Dev'' small_world)) = [] \<and>
   batches_of \<lparr>part = Train, batch_size = 2\<rparr> small_world =
     [([[2, 5], [1, 0]], [1, 0]), ([[0, 1]], [0])] \<and>
   batches_of \<lparr>part = Train, batch_size = 2\<rparr>
       (snd (eval_epoch identity_net \<lparr>part = Dev, batch_size = 2\<rparr> ''Dev'' small_world)) =
     [([[1, 0], [0, 1]], [0, 0]), ([[2, 5]], [1])]"
proof -
  let ?w' = "snd (eval_epoch identity_net \<lparr>part = Dev, batch_size = 2\<rparr> ''Dev'' small_world)"
  have r: "rng ?w' = []"
    by (simp add: eval_epoch_rng dataset_def small_world_def three_samples_def)
  have t: "train ?w' = three_samples"
    by (simp add: eval_epoch_train small_world_def)
  have "batches_of \<lparr>part = Train, batch_size = 2\<rparr> ?w' =
      [([[1, 0], [0, 1]], [0, 0]), ([[2, 5]], [1])]"
    unfolding batches_of_def iterate_def dataset_def Let_def
    by (simp add: r t three_samples_def batch_sampler_def collate_def)
  moreover have "batches_of \<lparr>part = Train, batch_size = 2\<rparr> small_world =
     [([[2, 5], [1, 0]], [1, 0]), ([[0, 1]], [0])]"
    by (simp add: batches_of_def iterate_def dataset_def small_world_def three_samples_def
      batch_sampler_def collate_def Let_def)
  moreover have "rng small_world = [2, 0, 0]" by (simp add: small_world_def)
  ultimately show ?thesis using r by simp
qed

text \<open>
  Claim C8, amended. A call to \<open>eval_epoch\<close> leaves the parameters of the model as they
  were, whether it returns or raises: it makes no backward pass and no optimizer step (and
  no gradient reset), so the parameters, the gradients and the optimizer after the call
  are those before it, and so are the three partitions. Its effects are three: the mode of
  the module, which is the evaluation mode afterwards; the output, which has the line of
  metrics appended when the call returns; and the random generator of the library, from
  which the shuffling loader has drawn one number for every sample of the dataset.
\<close>


theorem eval_epoch_frame:
  "let w' = snd (eval_epoch A test_loader name w) in
     params (model w') = params (model w) \<and>
     grad (model w') = grad (model w) \<and>
     training (model w') = False \<and>
     optimizer w' = optimizer w \<and>
     train w' = train w \<and> dev w' = dev w \<and> test w' = test w \<and>
     (\<exists>cs. calls w' = calls w @ ModelEval # cs \<and>
        Backward \<notin> set cs \<and> Step \<notin> set cs \<and> ZeroGrad \<notin> set cs \<and> ModelTrain \<notin> set cs) \<and>
     (stdout w' = stdout w \<or>
       (\<exists>loss correct n pct. stdout w' = stdout w @ [EvalLine name loss correct n pct])) \<and>
     rng w' = drop (length (dataset w test_loader)) (rng w)"
proof -
  define w1 where "w1 = w\<lparr>model := (model w)\<lparr>training := False\<rparr>, calls := calls w @ [ModelEval]\<rparr>"
  define rest :: "('a, unit) action" where "rest = andthen (iterate test_loader) (\<lambda>batches.
     andthen (eval_loop A batches (0, 0)) (\<lambda>(test_loss, correct) w.
       let n = length (dataset w test_loader) in
       (if n = 0 then raises ZeroDivisionError
        else print_line (EvalLine name (test_loss / real n) correct n
               (100 * real correct / real n))) w))"
  define w' where "w' = snd (rest w1)"
  have w': "snd (eval_epoch A test_loader name w) = w'"
    by (simp add: eval_epoch_unfold w'_def rest_def w1_def)
  have m: "model w' = model w1"
    unfolding w'_def rest_def
    by (rule keepsD [OF eval_rest_keeps])
      (rule iterate_frame model_call_frame cross_entropy_frame print_line_frame)+
  have o: "optimizer w' = optimizer w1"
    unfolding w'_def rest_def
    by (rule keepsD [OF eval_rest_keeps])
      (rule iterate_frame model_call_frame cross_entropy_frame print_line_frame)+
  have tr: "train w' = train w1"
    unfolding w'_def rest_def
    by (rule keepsD [OF eval_rest_keeps])
      (rule iterate_frame model_call_frame cross_entropy_frame print_line_frame)+
  have dv: "dev w' = dev w1"
    unfolding w'_def rest_def
    by (rule keepsD [OF eval_rest_keeps])
      (rule iterate_frame model_call_frame cross_entropy_frame print_line_frame)+
  have te: "test w' = test w1"
    unfolding w'_def rest_def
    by (rule keepsD [OF eval_rest_keeps])
      (rule iterate_frame model_call_frame cross_entropy_frame print_line_frame)+
  obtain cs where cs: "calls w' = calls w1 @ cs"
    "\<forall>c\<in>set cs. c \<noteq> ZeroGrad \<and> c \<noteq> Backward \<and> c \<noteq> Step \<and> c \<noteq> ModelTrain \<and> c \<noteq> ModelEval"
    using eval_rest_logs [of test_loader A name] unfolding logs_def w'_def rest_def by blast
  have c: "\<exists>cs. calls w' = calls w @ ModelEval # cs \<and>
        Backward \<notin> set cs \<and> Step \<notin> set cs \<and> ZeroGrad \<notin> set cs \<and> ModelTrain \<notin> set cs"
    using cs by (intro exI [of _ cs]) (auto simp add: w1_def)
  have s: "stdout w' = stdout w \<or>
       (\<exists>loss correct n pct. stdout w' = stdout w @ [EvalLine name loss correct n pct])"
    using eval_rest_stdout [of test_loader A name w1]
    by (simp add: w'_def rest_def w1_def)
  have r: "rng w' = drop (length (dataset w test_loader)) (rng w)"
    unfolding w' [symmetric] by (rule eval_epoch_rng)
  show ?thesis
    unfolding w' Let_def using m o tr dv te c s r by (simp add: w1_def)
qed

subsection \<open>Calls that succeed\<close>

lemma accepts_alt:
  "accepts A mode p ds \<longleftrightarrow>
     (\<forall>(x, t) \<in> set ds. \<exists>logits. net A mode p x = Inr logits \<and> t < length logits)"
proof -
  have "(case net A mode p x of Inl e \<Rightarrow> False | Inr logits \<Rightarrow> t < length logits) \<longleftrightarrow>
      (\<exists>logits. net A mode p x = Inr logits \<and> t < length logits)" for x t
    by (cases "net A mode p x") simp_all
  then show ?thesis
    unfolding accepts_def list_all_iff by (simp add: case_prod_beta)
qed

lemma rows_ok:
  "(\<forall>x\<in>set xs. \<exists>y. f x = Inr y) \<Longrightarrow> rows f xs = Inr (map (\<lambda>x. projr (f x)) xs)"
  by (induction xs) auto

lemma rows_length: "rows f xs = Inr ys \<Longrightarrow> length ys = length xs"
proof (induction xs arbitrary: ys)
  case Nil
  then show ?case by simp
next
  case (Cons x xs)
  then show ?case
    by (auto simp add: thn_def split: sum.splits)
qed

lemma model_call_ok:
  assumes "accepts A (training (model w)) (params (model w)) (samples_of b)"
    and "length (fst b) = length (snd b)"
  shows "model_call A (fst b) w =
    (Inr (map (\<lambda>x. projr (net A (training (model w)) (params (model w)) x)) (fst b)),
     w\<lparr>calls := calls w @ [Forward (fst b)]\<rparr>)"
proof -
  have "\<forall>x\<in>set (fst b). \<exists>y. net A (training (model w)) (params (model w)) x = Inr y"
  proof
    fix x assume "x \<in> set (fst b)"
    then obtain i where i: "i < length (fst b)" "x = fst b ! i"
      by (metis in_set_conv_nth)
    with assms(2) have "(x, snd b ! i) \<in> set (samples_of b)"
      unfolding samples_of_def by (metis in_set_zip fst_conv snd_conv)
    with assms(1) show "\<exists>y. net A (training (model w)) (params (model w)) x = Inr y"
      unfolding accepts_alt by blast
  qed
  then show ?thesis
    by (simp add: model_call_def rows_ok)
qed

lemma cross_entropy_ok:
  assumes "accepts A mode p (samples_of b)"
    and "length (fst b) = length (snd b)"
  shows "cross_entropy (map (\<lambda>x. projr (net A mode p x)) (fst b)) (snd b) w =
    (Inr (batch_mean A mode p b), w\<lparr>calls := calls w @ [CrossEntropy (snd b)]\<rparr>)"
proof -
  let ?out = "map (\<lambda>x. projr (net A mode p x)) (fst b)"
  have z: "zip ?out (snd b) = map (\<lambda>(x, t). (projr (net A mode p x), t)) (samples_of b)"
    unfolding samples_of_def by (simp add: zip_map1)
  have ok: "\<forall>s\<in>set (samples_of b).
      (case (case s of (x, t) \<Rightarrow> (projr (net A mode p x), t)) of (logits, t) \<Rightarrow> sample_loss logits t)
      = Inr (loss_of A mode p s)"
    using assms(1) unfolding accepts_alt loss_of_def sample_loss_def by fastforce
  have "rows (\<lambda>(logits, t). sample_loss logits t) (zip ?out (snd b)) =
      Inr (map (loss_of A mode p) (samples_of b))"
    unfolding z using ok
    by (induction "samples_of b" arbitrary: b) (auto simp add: rows_ok)
  then show ?thesis
    using assms(2) by (simp add: cross_entropy_def batch_mean_def samples_of_def)
qed

lemma n_correct_hits:
  assumes "accepts A False p (samples_of b)"
  shows "n_correct (map (\<lambda>x. projr (net A False p x)) (fst b)) (snd b) = hits A p (samples_of b)"
proof -
  have z: "zip (map (\<lambda>x. projr (net A False p x)) (fst b)) (snd b) =
      map (\<lambda>(x, t). (projr (net A False p x), t)) (samples_of b)"
    unfolding samples_of_def by (simp add: zip_map1)
  have "\<forall>s\<in>set (samples_of b).
      (case (case s of (x, t) \<Rightarrow> (projr (net A False p x), t)) of (logits, t) \<Rightarrow> argmax logits = t)
      = (case s of (x, t) \<Rightarrow> predicted A p x = Some t)"
    using assms unfolding accepts_alt predicted_def by fastforce
  then have "filter ((\<lambda>(logits, t). argmax logits = t) \<circ> (\<lambda>(x, t). (projr (net A False p x), t)))
        (samples_of b) = filter (\<lambda>(x, t). predicted A p x = Some t) (samples_of b)"
    by (intro filter_cong) auto
  then show ?thesis
    unfolding n_correct_def hits_def z by (simp add: filter_map)
qed

lemma eval_batch_ok:
  assumes "training (model w) = False"
    and "accepts A False (params (model w)) (samples_of b)"
    and "length (fst b) = length (snd b)"
  shows "eval_batch A b (l0, c0) w =
    (Inr (l0 + batch_mean A False (params (model w)) b,
          c0 + hits A (params (model w)) (samples_of b)),
     w\<lparr>calls := calls w @ [Forward (fst b), CrossEntropy (snd b)]\<rparr>)"
proof -
  obtain d t where b: "b = (d, t)" by (cases b)
  let ?p = "params (model w)"
  let ?out = "map (\<lambda>x. projr (net A False ?p x)) d"
  let ?w1 = "w\<lparr>calls := calls w @ [Forward d]\<rparr>"
  have 1: "model_call A d w = (Inr ?out, ?w1)"
    using model_call_ok [of A w b] assms by (simp add: b)
  have 2: "cross_entropy ?out t ?w1 =
    (Inr (batch_mean A False ?p b), ?w1\<lparr>calls := calls ?w1 @ [CrossEntropy t]\<rparr>)"
    using cross_entropy_ok [of A False ?p b ?w1] assms by (simp add: b)
  have 3: "n_correct ?out t = hits A ?p (samples_of b)"
    using n_correct_hits [OF assms(2)] by (simp add: b)
  show ?thesis
    unfolding eval_batch_def b
    by (simp add: andthen_def 1 2 3 [unfolded b] returns_def del: One_nat_def) (simp add: b)
qed

lemma hits_Nil [simp]: "hits A p [] = 0"
  by (simp add: hits_def)

lemma hits_append: "hits A p (xs @ ys) = hits A p xs + hits A p ys"
  by (simp add: hits_def)

lemma eval_loop_ok:
  assumes "training (model w) = False"
    and "\<forall>b\<in>set bs. accepts A False (params (model w)) (samples_of b) \<and>
           length (fst b) = length (snd b)"
  shows "eval_loop A bs (l0, c0) w =
    (Inr (l0 + sum_list (map (batch_mean A False (params (model w))) bs),
          c0 + hits A (params (model w)) (concat (map samples_of bs))),
     w\<lparr>calls := calls w @ concat (map (\<lambda>b. [Forward (fst b), CrossEntropy (snd b)]) bs)\<rparr>)"
  using assms
proof (induction bs arbitrary: l0 c0 w)
  case Nil
  show ?case by (simp add: returns_def)
next
  case (Cons b bs)
  let ?w1 = "w\<lparr>calls := calls w @ [Forward (fst b), CrossEntropy (snd b)]\<rparr>"
  have 1: "eval_batch A b (l0, c0) w =
    (Inr (l0 + batch_mean A False (params (model w)) b,
          c0 + hits A (params (model w)) (samples_of b)), ?w1)"
    using Cons.prems by (intro eval_batch_ok) simp_all
  have 2: "eval_loop A bs (l0 + batch_mean A False (params (model w)) b,
          c0 + hits A (params (model w)) (samples_of b)) ?w1 =
    (Inr (l0 + batch_mean A False (params (model w)) b +
            sum_list (map (batch_mean A False (params (model ?w1))) bs),
          c0 + hits A (params (model w)) (samples_of b) +
            hits A (params (model ?w1)) (concat (map samples_of bs))),
     ?w1\<lparr>calls := calls ?w1 @ concat (map (\<lambda>b. [Forward (fst b), CrossEntropy (snd b)]) bs)\<rparr>)"
    using Cons.prems by (intro Cons.IH) simp_all
  show ?case
    by (simp add: andthen_def 1 2 hits_append add.assoc)
qed

subsection \<open>The batches of a loader\<close>

lemma mset_shuffle: "mset (shuffle rs xs) = mset xs"
proof (induction rs arbitrary: xs)
  case Nil
  show ?case by simp
next
  case (Cons r rs)
  show ?case
  proof (cases "xs = []")
    case True
    then show ?thesis by simp
  next
    case False
    define i where "i = r mod length xs"
    have i: "i < length xs" using False by (simp add: i_def)
    have "mset xs = mset (take i xs @ xs ! i # drop (Suc i) xs)"
      using i by (simp add: id_take_nth_drop [symmetric])
    then have "mset xs = add_mset (xs ! i) (mset (take i xs @ drop (Suc i) xs))"
      by simp
    with False Cons.IH [of "take i xs @ drop (Suc i) xs"] show ?thesis
      by (simp add: Let_def i_def)
  qed
qed

lemma concat_batch_sampler_loop: "concat (batch_sampler_loop bs batch xs) = batch @ xs"
  by (induction xs arbitrary: batch) (simp_all add: Let_def)

lemma concat_batch_sampler: "concat (batch_sampler bs xs) = xs"
  by (simp add: batch_sampler_def concat_batch_sampler_loop)

lemma samples_of_collate: "samples_of (collate ds batch) = map (\<lambda>i. ds ! i) batch"
  by (simp add: samples_of_def collate_def zip_map_map) (simp add: zip_same_conv_map)

lemma collate_lengths: "length (fst (collate ds batch)) = length (snd (collate ds batch))"
  by (simp add: collate_def)

lemma iterate_eq: "iterate l w = (Inr (batches_of l w), w\<lparr>rng := drop (length (dataset w l)) (rng w)\<rparr>)"
  by (simp add: batches_of_def iterate_def Let_def)

lemma batches_of_cong:
  "train w' = train w \<Longrightarrow> dev w' = dev w \<Longrightarrow> test w' = test w \<Longrightarrow> rng w' = rng w \<Longrightarrow>
   batches_of l w' = batches_of l w"
  using dataset_cong [of w' w l] by (simp add: batches_of_def iterate_def Let_def)

lemma concat_samples_batches:
  "concat (map samples_of (batches_of l w)) =
     map (\<lambda>i. dataset w l ! i)
       (shuffle (take (length (dataset w l)) (rng w)) [0..<length (dataset w l)])"
proof -
  have "concat (map samples_of (map (collate ds) bss)) = map (\<lambda>i. ds ! i) (concat bss)"
    for ds :: "'a sample list" and bss
    by (induction bss) (simp_all add: samples_of_collate)
  then show ?thesis
    by (simp add: batches_of_def iterate_def Let_def concat_batch_sampler)
qed

lemma batches_cover: "mset (concat (map samples_of (batches_of l w))) = mset (dataset w l)"
proof -
  let ?ds = "dataset w l"
  let ?perm = "shuffle (take (length ?ds) (rng w)) [0..<length ?ds]"
  have "mset (map (\<lambda>i. ?ds ! i) ?perm) = image_mset (\<lambda>i. ?ds ! i) (mset ?perm)"
    by simp
  also have "\<dots> = image_mset (\<lambda>i. ?ds ! i) (mset [0..<length ?ds])"
    by (simp only: mset_shuffle)
  also have "\<dots> = mset (map (\<lambda>i. ?ds ! i) [0..<length ?ds])"
    by simp
  also have "\<dots> = mset ?ds"
    by (simp only: map_nth)
  finally show ?thesis
    by (simp only: concat_samples_batches)
qed

lemma batches_sound:
  assumes "b \<in> set (batches_of l w)"
  shows "set (samples_of b) \<subseteq> set (dataset w l) \<and> length (fst b) = length (snd b)"
proof -
  have "set (samples_of b) \<subseteq> set (concat (map samples_of (batches_of l w)))"
    using assms by auto
  also have "\<dots> = set (dataset w l)"
    by (metis batches_cover set_mset_mset)
  finally have "set (samples_of b) \<subseteq> set (dataset w l)" .
  moreover have "length (fst b) = length (snd b)"
    using assms by (auto simp add: batches_of_def iterate_def Let_def collate_lengths)
  ultimately show ?thesis by simp
qed

lemma hits_mset: "mset xs = mset ys \<Longrightarrow> hits A p xs = hits A p ys"
proof -
  assume "mset xs = mset ys"
  then have "mset (filter (\<lambda>(x, t). predicted A p x = Some t) xs) =
             mset (filter (\<lambda>(x, t). predicted A p x = Some t) ys)"
    by simp
  then show ?thesis
    unfolding hits_def by (metis size_mset)
qed

lemma accepts_subset: "accepts A mode p ds \<Longrightarrow> set xs \<subseteq> set ds \<Longrightarrow> accepts A mode p xs"
  unfolding accepts_alt by blast

lemma eval_epoch_ok:
  assumes "accepts A False (params (model w)) (dataset w l)" and "dataset w l \<noteq> []"
  shows "eval_epoch A l name w =
    (Inr (),
     w\<lparr>model := (model w)\<lparr>training := False\<rparr>,
       rng := drop (length (dataset w l)) (rng w),
       calls := calls w @ ModelEval #
         concat (map (\<lambda>b. [Forward (fst b), CrossEntropy (snd b)]) (batches_of l w)),
       stdout := stdout w @
         [EvalLine name
            (sum_list (map (batch_mean A False (params (model w))) (batches_of l w)) /
               real (length (dataset w l)))
            (hits A (params (model w)) (dataset w l))
            (length (dataset w l))
            (100 * real (hits A (params (model w)) (dataset w l)) / real (length (dataset w l)))]\<rparr>)"
proof -
  define w1 where "w1 = w\<lparr>model := (model w)\<lparr>training := False\<rparr>, calls := calls w @ [ModelEval]\<rparr>"
  define w2 where "w2 = w1\<lparr>rng := drop (length (dataset w l)) (rng w)\<rparr>"
  define bs where "bs = batches_of l w"
  have d1: "dataset w1 l = dataset w l"
    by (rule dataset_cong) (simp_all add: w1_def)
  have d2: "dataset w2 l = dataset w l"
    by (rule dataset_cong) (simp_all add: w2_def w1_def)
  have b1: "batches_of l w1 = bs"
    unfolding bs_def by (rule batches_of_cong) (simp_all add: w1_def)
  have it: "iterate l w1 = (Inr bs, w2)"
    using iterate_eq [of l w1] by (simp add: b1 d1 w2_def) (simp add: w1_def)
  have p2: "params (model w2) = params (model w)" "training (model w2) = False"
    by (simp_all add: w2_def w1_def)
  have "\<forall>b\<in>set bs. accepts A False (params (model w2)) (samples_of b) \<and>
           length (fst b) = length (snd b)"
    using batches_sound [of _ l w] assms(1) accepts_subset [of A False "params (model w)" "dataset w l"]
    by (simp add: bs_def p2)
  then have lp: "eval_loop A bs (0, 0) w2 =
    (Inr (0 + sum_list (map (batch_mean A False (params (model w2))) bs),
          0 + hits A (params (model w2)) (concat (map samples_of bs))),
     w2\<lparr>calls := calls w2 @ concat (map (\<lambda>b. [Forward (fst b), CrossEntropy (snd b)]) bs)\<rparr>)"
    using p2 by (intro eval_loop_ok) simp_all
  have h: "hits A (params (model w)) (concat (map samples_of bs)) = hits A (params (model w)) (dataset w l)"
    unfolding bs_def by (rule hits_mset) (rule batches_cover)
  have n: "length (dataset w l) \<noteq> 0" using assms(2) by simp
  show ?thesis
    unfolding eval_epoch_unfold w1_def [symmetric]
    using n
    by (simp add: andthen_def it lp p2 h d2 Let_def print_line_def dataset_cong [of _ w2] del: One_nat_def)
       (simp add: w2_def w1_def bs_def)
qed

subsection \<open>The predicted class\<close>

lemma argmax_first_maximum:
  assumes "xs \<noteq> []"
  shows "argmax xs < length xs" and "xs ! argmax xs = Max (set xs)"
    and "\<forall>j<argmax xs. xs ! j < Max (set xs)"
proof -
  let ?M = "Max (set xs)"
  let ?k = "length (takeWhile (\<lambda>x. x \<noteq> ?M) xs)"
  have k: "argmax xs = ?k" using assms by (simp add: argmax_def)
  have "?M \<in> set xs" using assms by (intro Max_in) simp_all
  then have "\<not> (\<forall>x\<in>set xs. x \<noteq> ?M)" by blast
  then have ne: "takeWhile (\<lambda>x. x \<noteq> ?M) xs \<noteq> xs"
    unfolding takeWhile_eq_all_conv .
  have "?k \<noteq> length xs"
  proof
    assume "?k = length xs"
    then have "take ?k xs = xs" by simp
    with takeWhile_eq_take [of "\<lambda>x. x \<noteq> ?M" xs] ne show False by simp
  qed
  with length_takeWhile_le [of "\<lambda>x. x \<noteq> ?M" xs] have lt: "?k < length xs"
    by linarith
  show "argmax xs < length xs" using lt k by simp
  show "xs ! argmax xs = ?M"
    using nth_length_takeWhile [OF lt] k by simp
  show "\<forall>j<argmax xs. xs ! j < ?M"
  proof (intro allI impI)
    fix j assume j: "j < argmax xs"
    then have jk: "j < ?k" using k by simp
    have "takeWhile (\<lambda>x. x \<noteq> ?M) xs ! j \<in> set (takeWhile (\<lambda>x. x \<noteq> ?M) xs)"
      using jk by (rule nth_mem)
    then have "takeWhile (\<lambda>x. x \<noteq> ?M) xs ! j \<noteq> ?M"
      by (rule set_takeWhileD [THEN conjunct2])
    then have "xs ! j \<noteq> ?M"
      unfolding takeWhile_nth [OF jk] .
    moreover have "xs ! j \<le> ?M"
      using j lt k by (intro Max_ge) simp_all
    ultimately show "xs ! j < ?M" by simp
  qed
qed

lemma argmax_is_top:
  assumes "xs \<noteq> []"
  shows "argmax xs = t \<longleftrightarrow> is_top xs t"
proof
  assume t: "argmax xs = t"
  have "\<forall>x\<in>set xs. x \<le> xs ! t"
    using argmax_first_maximum(2) [OF assms] t by simp
  moreover have "\<forall>x\<in>set (take t xs). x < xs ! t"
  proof
    fix x assume "x \<in> set (take t xs)"
    then obtain j where "j < t" "j < length xs" "x = xs ! j"
      by (auto simp add: in_set_conv_nth)
    then show "x < xs ! t"
      using argmax_first_maximum(2,3) [OF assms] t by simp
  qed
  ultimately show "is_top xs t"
    using argmax_first_maximum(1) [OF assms] t by (simp add: is_top_def list_all_iff)
next
  assume "is_top xs t"
  then have t: "t < length xs" and ge: "\<forall>x\<in>set xs. x \<le> xs ! t"
    and lt: "\<forall>x\<in>set (take t xs). x < xs ! t"
    by (simp_all add: is_top_def list_all_iff)
  have M: "Max (set xs) = xs ! t"
    using t ge by (intro Max_eqI) simp_all
  have "takeWhile (\<lambda>x. x \<noteq> xs ! t) xs = take t xs"
  proof (rule takeWhile_eq_take_P_nth)
    fix i assume "i < t" "i < length xs"
    then have "take t xs ! i \<in> set (take t xs)"
      by (intro nth_mem) simp
    with \<open>i < t\<close> have "xs ! i \<in> set (take t xs)" by simp
    with lt show "xs ! i \<noteq> xs ! t" by auto
  qed simp
  then show "argmax xs = t"
    using assms t by (simp add: argmax_def M)
qed

lemma hits_top_count:
  assumes "accepts A False p ds"
  shows "hits A p ds = top_count A p ds"
proof -
  have "\<forall>s\<in>set ds. (case s of (x, t) \<Rightarrow> predicted A p x = Some t) =
      (case s of (x, t) \<Rightarrow> case net A False p x of Inl e \<Rightarrow> False | Inr logits \<Rightarrow> is_top logits t)"
  proof
    fix s assume s: "s \<in> set ds"
    obtain x t where xt: "s = (x, t)" by (cases s)
    with s assms obtain logits where l: "net A False p x = Inr logits" "t < length logits"
      unfolding accepts_alt by blast
    then have "logits \<noteq> []" by auto
    then show "(case s of (x, t) \<Rightarrow> predicted A p x = Some t) =
      (case s of (x, t) \<Rightarrow> case net A False p x of Inl e \<Rightarrow> False | Inr logits \<Rightarrow> is_top logits t)"
      using l by (simp add: xt predicted_def argmax_is_top)
  qed
  then show ?thesis
    unfolding hits_def top_count_def by (simp cong: filter_cong)
qed

text \<open>
  Claim C9. For a model and a dataset whose samples the model accepts, the number of
  correct predictions that \<open>eval_epoch\<close> computes and prints is the number of samples
  of the dataset whose label is the index of the maximum logit (the first such index when
  several logits are the largest). The evaluation loop computes this number for every list
  of batches that holds the samples of the dataset once each, in any grouping and any
  order; so it is what \<open>eval_epoch\<close> prints for every batch size of the loader and
  every state of the random generator that shuffles it.
\<close>

theorem correct_count_invariant:
  assumes "accepts A False (params (model w)) ds"
  shows "(mset (concat (map samples_of bs)) = mset ds \<and>
          list_all (\<lambda>b. length (fst b) = length (snd b)) bs \<and> training (model w) = False \<longrightarrow>
            (\<exists>loss w'. eval_loop A bs (0, 0) w = (Inr (loss, top_count A (params (model w)) ds), w'))) \<and>
         (dataset w l = ds \<and> ds \<noteq> [] \<longrightarrow>
            (\<exists>loss pct w'. eval_epoch A l name w = (Inr (), w') \<and>
               stdout w' = stdout w @ [EvalLine name loss (top_count A (params (model w)) ds) (length ds) pct]))"
proof (intro conjI impI)
  assume "mset (concat (map samples_of bs)) = mset ds \<and>
          list_all (\<lambda>b. length (fst b) = length (snd b)) bs \<and> training (model w) = False"
  then have a: "mset (concat (map samples_of bs)) = mset ds \<and>
          (\<forall>b\<in>set bs. length (fst b) = length (snd b)) \<and> training (model w) = False"
    by (simp add: list_all_iff)
  have "\<forall>b\<in>set bs. set (samples_of b) \<subseteq> set ds"
  proof
    fix b assume "b \<in> set bs"
    then have "set (samples_of b) \<subseteq> set (concat (map samples_of bs))" by auto
    also have "\<dots> = set ds" using a by (metis set_mset_mset)
    finally show "set (samples_of b) \<subseteq> set ds" .
  qed
  with assms a have "\<forall>b\<in>set bs. accepts A False (params (model w)) (samples_of b) \<and>
           length (fst b) = length (snd b)"
    using accepts_subset by blast
  with a have "eval_loop A bs (0, 0) w =
    (Inr (0 + sum_list (map (batch_mean A False (params (model w))) bs),
          0 + hits A (params (model w)) (concat (map samples_of bs))),
     w\<lparr>calls := calls w @ concat (map (\<lambda>b. [Forward (fst b), CrossEntropy (snd b)]) bs)\<rparr>)"
    by (intro eval_loop_ok) simp_all
  moreover have "hits A (params (model w)) (concat (map samples_of bs)) = hits A (params (model w)) ds"
    using a by (intro hits_mset) simp
  ultimately show "\<exists>loss w'. eval_loop A bs (0, 0) w = (Inr (loss, top_count A (params (model w)) ds), w')"
    by (simp add: hits_top_count [OF assms])
next
  assume "dataset w l = ds \<and> ds \<noteq> []"
  with assms eval_epoch_ok [of A w l name]
  show "\<exists>loss pct w'. eval_epoch A l name w = (Inr (), w') \<and>
               stdout w' = stdout w @ [EvalLine name loss (top_count A (params (model w)) ds) (length ds) pct]"
    by (simp add: hits_top_count [OF assms])
qed

text \<open>
  Four samples, of which three have the index of the maximum logit as label, in one batch
  of one and one of three, and in the two batches of two of the shuffling loader.
\<close>

theorem correct_count_invariant_witness:
  "accepts identity_net False (params (model tie_world)) four_samples \<and>
   mset (concat (map samples_of [([[3, 3]], [1]), ([[2, 5], [1, 0], [0, 1]], [1, 0, 1])])) = mset four_samples \<and>
   list_all (\<lambda>b. length (fst b) = length (snd b))
     [([[3, 3 :: real]], [1 :: nat]), ([[2, 5], [1, 0], [0, 1]], [1, 0, 1])] \<and>
   training (model tie_world) = False \<and>
   (\<exists>loss w'. eval_loop identity_net [([[3, 3]], [1]), ([[2, 5], [1, 0], [0, 1]], [1, 0, 1])] (0, 0) tie_world
       = (Inr (loss, 3), w')) \<and>
   dataset tie_world \<lparr>part = Dev, batch_size = 2\<rparr> = four_samples \<and> four_samples \<noteq> [] \<and>
   (\<exists>loss pct w'. eval_epoch identity_net \<lparr>part = Dev, batch_size = 2\<rparr> ''Dev'' tie_world = (Inr (), w') \<and>
       stdout w' = [EvalLine ''Dev'' loss 3 4 pct])"
proof -
  have a: "accepts identity_net False (params (model tie_world)) four_samples"
    by (simp add: accepts_def identity_net_def four_samples_def)
  have h: "top_count identity_net (params (model tie_world)) four_samples = 3"
    by (simp add: top_count_def is_top_def identity_net_def four_samples_def)
  have m: "mset (concat (map samples_of [([[3, 3]], [1]), ([[2, 5], [1, 0], [0, 1]], [1, 0, 1])])) = mset four_samples"
    by (simp add: samples_of_def four_samples_def)
  have d: "dataset tie_world \<lparr>part = Dev, batch_size = 2\<rparr> = four_samples"
    by (simp add: dataset_def tie_world_def)
  have t: "training (model tie_world) = False" "stdout tie_world = []"
    by (simp_all add: tie_world_def small_world_def)
  have n: "four_samples \<noteq> []" "length four_samples = 4"
    by (simp_all add: four_samples_def)
  show ?thesis
    using correct_count_invariant [OF a, of "[([[3, 3]], [1]), ([[2, 5], [1, 0], [0, 1]], [1, 0, 1])]"
        "\<lparr>part = Dev, batch_size = 2\<rparr>" "''Dev''"]
    unfolding h using a m d t n by simp
qed


subsection \<open>A training epoch that succeeds\<close>

lemma steady_refl [simp]: "steady w w"
  by (simp add: steady_def)

lemma steady_trans: "steady w2 w1 \<Longrightarrow> steady w1 w \<Longrightarrow> steady w2 w"
  by (simp add: steady_def)

lemma zero_grad_effect:
  "\<exists>w'. zero_grad w = (Inr (), w') \<and> calls w' = calls w @ [ZeroGrad] \<and> steady w' w"
  by (simp add: zero_grad_def steady_def)

lemma model_call_effect:
  assumes "accepts A (training (model w)) (params (model w)) (samples_of b)"
    and "length (fst b) = length (snd b)"
  shows "\<exists>w'. model_call A (fst b) w =
      (Inr (map (\<lambda>x. projr (net A (training (model w)) (params (model w)) x)) (fst b)), w') \<and>
    calls w' = calls w @ [Forward (fst b)] \<and> steady w' w \<and> params (model w') = params (model w)"
  using model_call_ok [OF assms] by (simp add: steady_def)

lemma cross_entropy_effect:
  assumes "accepts A mode p (samples_of b)"
    and "length (fst b) = length (snd b)"
  shows "\<exists>w'. cross_entropy (map (\<lambda>x. projr (net A mode p x)) (fst b)) (snd b) w =
      (Inr (batch_mean A mode p b), w') \<and>
    calls w' = calls w @ [CrossEntropy (snd b)] \<and> steady w' w \<and> params (model w') = params (model w)"
  using cross_entropy_ok [OF assms, of w] by (simp add: steady_def)

lemma backward_effect:
  assumes "autograd A (params (model w)) data target = Inr g"
  shows "\<exists>w'. backward A data target w = (Inr (), w') \<and>
    calls w' = calls w @ [Backward] \<and> steady w' w"
  using assms by (simp add: backward_def steady_def)

lemma optimizer_step_effect:
  "\<exists>w'. optimizer_step w = (Inr (), w') \<and> calls w' = calls w @ [Step] \<and> steady w' w"
  by (cases "grad (model w)") (simp_all add: optimizer_step_def Let_def steady_def)

lemma train_batch_ok:
  assumes tr: "training (model w) = True"
    and acc: "\<forall>p. accepts A True p (samples_of b)"
    and len: "length (fst b) = length (snd b)"
    and ag: "\<forall>p data target. \<exists>g. autograd A p data target = Inr g"
  shows "\<exists>acc' w'. train_batch A b acc w = (Inr acc', w') \<and>
    calls w' = calls w @ batch_calls b \<and> steady w' w"
proof -
  obtain d t where b: "b = (d, t)" by (cases b)
  obtain l0 c0 where a: "acc = (l0, c0)" by (cases acc)
  obtain w1 where 1: "zero_grad w = (Inr (), w1)" "calls w1 = calls w @ [ZeroGrad]" "steady w1 w"
    using zero_grad_effect [of w] by blast
  have tr1: "training (model w1) = True"
    using 1(3) tr by (simp add: steady_def)
  define out where "out = map (\<lambda>x. projr (net A True (params (model w1)) x)) d"
  obtain w2 where 2: "model_call A d w1 = (Inr out, w2)" "calls w2 = calls w1 @ [Forward d]"
      "steady w2 w1" "params (model w2) = params (model w1)"
    using model_call_effect [of A w1 b] acc len tr1 by (auto simp add: b out_def)
  obtain w3 where 3: "cross_entropy out t w2 = (Inr (batch_mean A True (params (model w1)) b), w3)"
      "calls w3 = calls w2 @ [CrossEntropy t]" "steady w3 w2"
    using cross_entropy_effect [of A True "params (model w1)" b w2] acc len
    by (auto simp add: b out_def)
  obtain g where g: "autograd A (params (model w3)) d t = Inr g"
    using ag by blast
  obtain w4 where 4: "backward A d t w3 = (Inr (), w4)" "calls w4 = calls w3 @ [Backward]"
      "steady w4 w3"
    using backward_effect [OF g] by blast
  obtain w5 where 5: "optimizer_step w4 = (Inr (), w5)" "calls w5 = calls w4 @ [Step]"
      "steady w5 w4"
    using optimizer_step_effect [of w4] by blast
  have "train_batch A b acc w =
      (Inr (l0 + batch_mean A True (params (model w1)) b, c0 + n_correct out t), w5)"
    unfolding train_batch_def a
    by (simp add: b andthen_def 1 2 3 [unfolded b] 4 5 returns_def)
  moreover have "calls w5 = calls w @ batch_calls b"
    by (simp add: 1 2 3 4 5 batch_calls_def b)
  moreover have "steady w5 w"
    using 1(3) 2(3) 3(3) 4(3) 5(3) by (simp add: steady_def)
  ultimately show ?thesis by blast
qed

lemma train_loop_ok:
  assumes "training (model w) = True"
    and "\<forall>b\<in>set bs. (\<forall>p. accepts A True p (samples_of b)) \<and> length (fst b) = length (snd b)"
    and "\<forall>p data target. \<exists>g. autograd A p data target = Inr g"
  shows "\<exists>acc' w'. train_loop A bs acc w = (Inr acc', w') \<and>
    calls w' = calls w @ concat (map batch_calls bs) \<and> steady w' w"
  using assms
proof (induction bs arbitrary: acc w)
  case Nil
  show ?case by (simp add: returns_def)
next
  case (Cons b bs)
  obtain acc1 w1 where 1: "train_batch A b acc w = (Inr acc1, w1)"
      "calls w1 = calls w @ batch_calls b" "steady w1 w"
    using train_batch_ok [of w A b acc] Cons.prems by auto
  have "training (model w1) = True"
    using 1(3) Cons.prems(1) by (simp add: steady_def)
  then obtain acc2 w2 where 2: "train_loop A bs acc1 w1 = (Inr acc2, w2)"
      "calls w2 = calls w1 @ concat (map batch_calls bs)" "steady w2 w1"
    using Cons.IH [of w1 acc1] Cons.prems by auto
  have "train_loop A (b # bs) acc w = (Inr acc2, w2)"
    by (simp add: andthen_def 1 2)
  moreover have "calls w2 = calls w @ concat (map batch_calls (b # bs))"
    by (simp add: 1 2)
  moreover have "steady w2 w"
    using 1(3) 2(3) by (rule steady_trans [rotated])
  ultimately show ?case by blast
qed

lemma train_epoch_unfold:
  "train_epoch A l epoch w =
     (\<lambda>w1. andthen (iterate l) (\<lambda>batches.
         andthen (train_loop A batches (0, 0)) (\<lambda>(total_loss, correct).
           if length (dataset w1 l) = 0 then raises ZeroDivisionError
           else print_line (TrainLine epoch (total_loss / real (length (dataset w1 l))) correct
                  (length (dataset w1 l))
                  (100 * real correct / real (length (dataset w1 l)))))) w1)
     (w\<lparr>model := (model w)\<lparr>training := True\<rparr>, calls := calls w @ [ModelTrain]\<rparr>)"
  unfolding train_epoch_def model_train_def Let_def
  by (subst andthen_def) (simp only: prod.case sum.case)

lemma accepts_batches:
  assumes "\<forall>p. accepts A mode p (dataset w l)" and "b \<in> set (batches_of l w)"
  shows "(\<forall>p. accepts A mode p (samples_of b)) \<and> length (fst b) = length (snd b)"
  using assms batches_sound [of b l w] accepts_subset by blast

lemma train_epoch_ok:
  assumes "trainable A (dataset w l)" and "dataset w l \<noteq> []"
  shows "\<exists>loss correct pct w'. train_epoch A l epoch w = (Inr (), w') \<and>
    calls w' = calls w @ ModelTrain # concat (map batch_calls (batches_of l w)) \<and>
    stdout w' = stdout w @ [TrainLine epoch loss correct (length (dataset w l)) pct] \<and>
    train w' = train w \<and> dev w' = dev w \<and> test w' = test w \<and>
    rng w' = drop (length (dataset w l)) (rng w)"
proof -
  define w1 where "w1 = w\<lparr>model := (model w)\<lparr>training := True\<rparr>, calls := calls w @ [ModelTrain]\<rparr>"
  define w2 where "w2 = w1\<lparr>rng := drop (length (dataset w l)) (rng w)\<rparr>"
  define bs where "bs = batches_of l w"
  define n where "n = length (dataset w l)"
  have d1: "dataset w1 l = dataset w l"
    by (rule dataset_cong) (simp_all add: w1_def)
  have b1: "batches_of l w1 = bs"
    unfolding bs_def by (rule batches_of_cong) (simp_all add: w1_def)
  have it: "iterate l w1 = (Inr bs, w2)"
    using iterate_eq [of l w1] by (simp add: b1 d1 w2_def) (simp add: w1_def)
  have t2: "training (model w2) = True"
    by (simp add: w2_def w1_def)
  have "\<forall>b\<in>set bs. (\<forall>p. accepts A True p (samples_of b)) \<and> length (fst b) = length (snd b)"
    using assms(1) accepts_batches [of A True w l] by (simp add: trainable_def bs_def)
  moreover have "\<forall>p data target. \<exists>g. autograd A p data target = Inr g"
    using assms(1) by (simp add: trainable_def)
  ultimately obtain acc w3 where lp: "train_loop A bs (0, 0) w2 = (Inr acc, w3)"
      "calls w3 = calls w2 @ concat (map batch_calls bs)" "steady w3 w2"
    using train_loop_ok [OF t2, of bs A "(0, 0)"] by blast
  obtain total_loss correct where acc: "acc = (total_loss, correct)" by (cases acc)
  define w4 where "w4 = w3\<lparr>stdout := stdout w3 @
      [TrainLine epoch (total_loss / real n) correct n (100 * real correct / real n)]\<rparr>"
  have n: "n \<noteq> 0" using assms(2) by (simp add: n_def)
  have "train_epoch A l epoch w = (Inr (), w4)"
    unfolding train_epoch_unfold w1_def [symmetric] d1 n_def [symmetric]
    using n by (simp add: andthen_def it lp acc print_line_def w4_def)
  moreover have "calls w4 = calls w @ ModelTrain # concat (map batch_calls bs)"
    by (simp add: w4_def lp w2_def w1_def)
  moreover have "stdout w4 = stdout w @
      [TrainLine epoch (total_loss / real n) correct n (100 * real correct / real n)]"
    using lp(3) by (simp add: w4_def steady_def w2_def w1_def)
  moreover have "train w4 = train w \<and> dev w4 = dev w \<and> test w4 = test w \<and>
      rng w4 = drop n (rng w)"
    using lp(3) by (simp add: w4_def steady_def w2_def w1_def n_def)
  ultimately show ?thesis
    unfolding bs_def n_def by blast
qed

subsection \<open>What a training epoch makes of the parameters\<close>







text \<open>The three samples in batches of two, shuffled by the generator.\<close>

lemma small_batches:
  "batches_of \<lparr>part = Train, batch_size = 2\<rparr> small_world =
     [([[2, 5], [1, 0]], [1, 0]), ([[0, 1]], [0])]"
  by (simp add: batches_of_def iterate_def dataset_def small_world_def three_samples_def
      batch_sampler_def collate_def Let_def)



subsection \<open>Sizes of the batches\<close>

lemma batch_sampler_loop_lengths:
  assumes "0 < bs" and "length batch < bs"
  shows "map length (batch_sampler_loop bs batch xs) =
    replicate ((length batch + length xs) div bs) bs @
    (if (length batch + length xs) mod bs = 0 then [] else [(length batch + length xs) mod bs])"
  using assms
proof (induction xs arbitrary: batch)
  case Nil
  then show ?case by simp
next
  case (Cons x xs)
  show ?case
  proof (cases "Suc (length batch) = bs")
    case True
    have "map length (batch_sampler_loop bs [] xs) =
      replicate (length xs div bs) bs @ (if length xs mod bs = 0 then [] else [length xs mod bs])"
      using Cons.IH [of "[]"] Cons.prems by simp
    moreover have "length batch + length (x # xs) = bs + length xs"
      using True by simp
    then have "(length batch + length (x # xs)) div bs = Suc (length xs div bs)"
      "(length batch + length (x # xs)) mod bs = length xs mod bs"
      using Cons.prems(1) by (simp_all only: div_add_self1 mod_add_self1)
    ultimately show ?thesis using True by (simp add: Let_def)
  next
    case False
    with Cons.prems have "length (batch @ [x]) < bs" by simp
    from Cons.IH [OF Cons.prems(1) this] False show ?thesis by (simp add: Let_def)
  qed
qed

lemma length_shuffle: "length (shuffle rs xs) = length xs"
  by (metis mset_shuffle size_mset)

lemma batch_sizes:
  assumes "0 < batch_size l"
  shows "map (\<lambda>b. length (fst b)) (batches_of l w) =
    replicate (length (dataset w l) div batch_size l) (batch_size l) @
    (if length (dataset w l) mod batch_size l = 0 then []
     else [length (dataset w l) mod batch_size l])"
proof -
  let ?n = "length (dataset w l)"
  let ?perm = "shuffle (take ?n (rng w)) [0..<?n]"
  have "map (\<lambda>b. length (fst b)) (batches_of l w) =
      map length (batch_sampler (batch_size l) ?perm)"
    by (simp add: batches_of_def iterate_def Let_def collate_def comp_def)
  also have "\<dots> = replicate (length ?perm div batch_size l) (batch_size l) @
      (if length ?perm mod batch_size l = 0 then [] else [length ?perm mod batch_size l])"
    unfolding batch_sampler_def
    using batch_sampler_loop_lengths [OF assms, of "[]" ?perm] assms by simp
  finally show ?thesis by (simp add: length_shuffle)
qed

text \<open>
  Claim C7, amended. The batches of one pass over a training set of length \<open>n\<close> are
  \<open>n div batch_size\<close> batches of exactly \<open>batch_size\<close> samples, followed, when
  \<open>batch_size\<close> does not divide \<open>n\<close>, by one last batch of the remaining
  \<open>n mod batch_size\<close> samples.
\<close>

theorem batch_size_bounds:
  assumes "0 < batch_size train_loader"
  shows "map (\<lambda>b. length (fst b)) (batches_of train_loader w) =
    replicate (length (dataset w train_loader) div batch_size train_loader)
      (batch_size train_loader) @
    (if length (dataset w train_loader) mod batch_size train_loader = 0 then []
     else [length (dataset w train_loader) mod batch_size train_loader])"
  using assms by (rule batch_sizes)

text \<open>Three samples in batches of two: a batch of two and a batch of one.\<close>

theorem batch_size_bounds_witness:
  "0 < batch_size \<lparr>part = Train, batch_size = 2\<rparr> \<and>
   map (\<lambda>b. length (fst b)) (batches_of \<lparr>part = Train, batch_size = 2\<rparr> small_world) = [2, 1]"
proof -
  have "length (dataset small_world \<lparr>part = Train, batch_size = 2\<rparr>) = 3"
    by (simp add: dataset_def small_world_def three_samples_def)
  then show ?thesis
    using batch_size_bounds [of "\<lparr>part = Train, batch_size = 2\<rparr>" small_world]
    by simp
qed

text \<open>
  Claim C7 as stated fails whenever the batch size does not divide the length: of 65
  training samples, the loader of the tutorial makes a batch of 64 and a batch of one.
\<close>

theorem last_batch_counterexample:
  "map (\<lambda>b. length (fst b))
     (batches_of \<lparr>part = Train, batch_size = tutorial_batch_size\<rparr> world65) = [64, 1]"
proof -
  have "length (dataset world65 \<lparr>part = Train, batch_size = tutorial_batch_size\<rparr>) = 65"
    by (simp add: dataset_def world65_def)
  then show ?thesis
    using batch_sizes [of "\<lparr>part = Train, batch_size = tutorial_batch_size\<rparr>" world65]
    by (simp add: tutorial_batch_size_def)
qed

subsection \<open>The training cell\<close>

lemma length_batches_of: "length (batches_of l w) = n_batches (length (dataset w l)) (batch_size l)"
proof (cases "batch_size l = 0")
  case True
  have "batch_sampler_loop 0 batch xs = (if batch @ xs = [] then [] else [batch @ xs])"
    for batch xs :: "nat list"
    by (induction xs arbitrary: batch) (simp_all add: Let_def)
  then have "length (batch_sampler 0 xs) = (if xs = [] then 0 else 1)" for xs :: "nat list"
    by (simp add: batch_sampler_def)
  moreover have "shuffle rs xs = [] \<longleftrightarrow> xs = []" for rs and xs :: "nat list"
    by (metis length_shuffle length_0_conv)
  ultimately show ?thesis
    using True by (simp add: batches_of_def iterate_def Let_def n_batches_def)
next
  case False
  then have "length (map (\<lambda>b. length (fst b)) (batches_of l w)) =
      n_batches (length (dataset w l)) (batch_size l)"
    by (simp only: batch_sizes n_batches_def) simp
  then show ?thesis by simp
qed

lemma andthen_assoc: "andthen (andthen m f) g = andthen m (\<lambda>v. andthen (f v) g)"
proof
  fix w
  show "andthen (andthen m f) g w = andthen m (\<lambda>v. andthen (f v) g) w"
  proof (cases "m w")
    case (Pair r w')
    then show ?thesis by (cases r) (simp_all add: andthen_def)
  qed
qed

lemma filter_batch_calls:
  "filter is_mode (concat (map batch_calls bs)) = []"
  "length (filter is_forward (concat (map batch_calls bs))) = length bs"
  by (induction bs) (simp_all add: batch_calls_def)

lemma filter_eval_calls:
  "filter is_mode (concat (map (\<lambda>b. [Forward (fst b), CrossEntropy (snd b)]) bs)) = []"
  "length (filter is_forward (concat (map (\<lambda>b. [Forward (fst b), CrossEntropy (snd b)]) bs))) = length bs"
  by (induction bs) simp_all

lemma epoch_ok:
  assumes tr: "trainable A (dataset w trl)" and tn: "dataset w trl \<noteq> []"
    and ev: "evaluable A (dataset w dvl)" and en: "dataset w dvl \<noteq> []"
  shows "\<exists>w'. andthen (train_epoch A trl epoch) (\<lambda>_.
               andthen (eval_epoch A dvl ''Dev'') (\<lambda>_. print_line Dashes)) w = (Inr (), w') \<and>
    map heading_of (stdout w') =
      map heading_of (stdout w) @ [TrainHeading epoch, EvalHeading ''Dev'', DashHeading] \<and>
    filter is_mode (calls w') = filter is_mode (calls w) @ [ModelTrain, ModelEval] \<and>
    length (filter is_forward (calls w')) = length (filter is_forward (calls w)) +
      (n_batches (length (dataset w trl)) (batch_size trl) +
       n_batches (length (dataset w dvl)) (batch_size dvl)) \<and>
    train w' = train w \<and> dev w' = dev w \<and> test w' = test w"
proof -
  obtain loss correct pct w1 where 1: "train_epoch A trl epoch w = (Inr (), w1)"
      "calls w1 = calls w @ ModelTrain # concat (map batch_calls (batches_of trl w))"
      "stdout w1 = stdout w @ [TrainLine epoch loss correct (length (dataset w trl)) pct]"
      "train w1 = train w" "dev w1 = dev w" "test w1 = test w"
    using train_epoch_ok [OF tr tn, of epoch] by blast
  have d1: "dataset w1 dvl = dataset w dvl"
    using 1 by (intro dataset_cong) simp_all
  define bs where "bs = batches_of dvl w1"
  define w2 where "w2 = w1\<lparr>model := (model w1)\<lparr>training := False\<rparr>,
       rng := drop (length (dataset w1 dvl)) (rng w1),
       calls := calls w1 @ ModelEval #
         concat (map (\<lambda>b. [Forward (fst b), CrossEntropy (snd b)]) bs),
       stdout := stdout w1 @
         [EvalLine ''Dev''
            (sum_list (map (batch_mean A False (params (model w1))) bs) /
               real (length (dataset w1 dvl)))
            (hits A (params (model w1)) (dataset w1 dvl))
            (length (dataset w1 dvl))
            (100 * real (hits A (params (model w1)) (dataset w1 dvl)) / real (length (dataset w1 dvl)))]\<rparr>"
  have 2: "eval_epoch A dvl ''Dev'' w1 = (Inr (), w2)"
    unfolding w2_def bs_def
    using ev en by (intro eval_epoch_ok) (simp_all add: d1 evaluable_def)
  define w3 where "w3 = w2\<lparr>stdout := stdout w2 @ [Dashes]\<rparr>"
  have 3: "andthen (train_epoch A trl epoch) (\<lambda>_.
               andthen (eval_epoch A dvl ''Dev'') (\<lambda>_. print_line Dashes)) w = (Inr (), w3)"
    by (simp add: andthen_def 1 2 print_line_def w3_def)
  have lb: "length bs = n_batches (length (dataset w dvl)) (batch_size dvl)"
    unfolding bs_def by (simp add: length_batches_of d1)
  have s3: "stdout w3 = stdout w1 @ [EvalLine ''Dev''
            (sum_list (map (batch_mean A False (params (model w1))) bs) /
               real (length (dataset w1 dvl)))
            (hits A (params (model w1)) (dataset w1 dvl))
            (length (dataset w1 dvl))
            (100 * real (hits A (params (model w1)) (dataset w1 dvl)) / real (length (dataset w1 dvl))),
          Dashes]"
    and c3: "calls w3 = calls w1 @ ModelEval #
         concat (map (\<lambda>b. [Forward (fst b), CrossEntropy (snd b)]) bs)"
    and t3: "train w3 = train w1" "dev w3 = dev w1" "test w3 = test w1"
    by (simp_all add: w3_def w2_def)
  have f1: "map heading_of (stdout w3) =
      map heading_of (stdout w) @ [TrainHeading epoch, EvalHeading ''Dev'', DashHeading]"
    by (simp add: s3 1(3))
  have f2: "filter is_mode (calls w3) = filter is_mode (calls w) @ [ModelTrain, ModelEval]"
    by (simp add: c3 1(2) filter_batch_calls filter_eval_calls)
  have f3: "length (filter is_forward (calls w3)) = length (filter is_forward (calls w)) +
      (n_batches (length (dataset w trl)) (batch_size trl) +
       n_batches (length (dataset w dvl)) (batch_size dvl))"
    by (simp add: c3 1(2) filter_batch_calls filter_eval_calls lb length_batches_of)
  have f4: "train w3 = train w" "dev w3 = dev w" "test w3 = test w"
    by (simp_all add: t3 1)
  show ?thesis
    by (rule exI [of _ w3]) (simp only: 3 f1 f2 f3 f4 simp_thms)
qed

lemma driver_loop_ok:
  assumes "trainable A (dataset w trl)" and "dataset w trl \<noteq> []"
    and "evaluable A (dataset w dvl)" and "dataset w dvl \<noteq> []"
  shows "\<exists>w'. driver_loop A trl dvl es w = (Inr (), w') \<and>
    map heading_of (stdout w') = map heading_of (stdout w) @
      concat (map (\<lambda>epoch. [TrainHeading epoch, EvalHeading ''Dev'', DashHeading]) es) \<and>
    filter is_mode (calls w') =
      filter is_mode (calls w) @ concat (replicate (length es) [ModelTrain, ModelEval]) \<and>
    length (filter is_forward (calls w')) = length (filter is_forward (calls w)) +
      length es * (n_batches (length (dataset w trl)) (batch_size trl) +
                   n_batches (length (dataset w dvl)) (batch_size dvl))"
  using assms
proof (induction es arbitrary: w)
  case Nil
  show ?case by (simp add: returns_def)
next
  case (Cons epoch es)
  from epoch_ok [OF Cons.prems, of epoch]
  obtain w1 where 1: "andthen (train_epoch A trl epoch) (\<lambda>_.
               andthen (eval_epoch A dvl ''Dev'') (\<lambda>_. print_line Dashes)) w = (Inr (), w1) \<and>
    map heading_of (stdout w1) =
      map heading_of (stdout w) @ [TrainHeading epoch, EvalHeading ''Dev'', DashHeading] \<and>
    filter is_mode (calls w1) = filter is_mode (calls w) @ [ModelTrain, ModelEval] \<and>
    length (filter is_forward (calls w1)) = length (filter is_forward (calls w)) +
      (n_batches (length (dataset w trl)) (batch_size trl) +
       n_batches (length (dataset w dvl)) (batch_size dvl)) \<and>
    train w1 = train w \<and> dev w1 = dev w \<and> test w1 = test w" ..
  have d: "dataset w1 trl = dataset w trl" "dataset w1 dvl = dataset w dvl"
    using 1 by (intro dataset_cong; simp)+
  have "\<exists>w'. driver_loop A trl dvl es w1 = (Inr (), w') \<and>
    map heading_of (stdout w') = map heading_of (stdout w1) @
      concat (map (\<lambda>epoch. [TrainHeading epoch, EvalHeading ''Dev'', DashHeading]) es) \<and>
    filter is_mode (calls w') =
      filter is_mode (calls w1) @ concat (replicate (length es) [ModelTrain, ModelEval]) \<and>
    length (filter is_forward (calls w')) = length (filter is_forward (calls w1)) +
      length es * (n_batches (length (dataset w1 trl)) (batch_size trl) +
                   n_batches (length (dataset w1 dvl)) (batch_size dvl))"
    by (rule Cons.IH) (simp_all add: d Cons.prems)
  then obtain w2 where 2: "driver_loop A trl dvl es w1 = (Inr (), w2) \<and>
    map heading_of (stdout w2) = map heading_of (stdout w1) @
      concat (map (\<lambda>epoch. [TrainHeading epoch, EvalHeading ''Dev'', DashHeading]) es) \<and>
    filter is_mode (calls w2) =
      filter is_mode (calls w1) @ concat (replicate (length es) [ModelTrain, ModelEval]) \<and>
    length (filter is_forward (calls w2)) = length (filter is_forward (calls w1)) +
      length es * (n_batches (length (dataset w1 trl)) (batch_size trl) +
                   n_batches (length (dataset w1 dvl)) (batch_size dvl))" ..
  have "driver_loop A trl dvl (epoch # es) w =
      andthen (andthen (train_epoch A trl epoch) (\<lambda>_.
               andthen (eval_epoch A dvl ''Dev'') (\<lambda>_. print_line Dashes)))
        (\<lambda>_. driver_loop A trl dvl es) w"
    by (simp only: driver_loop.simps andthen_assoc)
  also have "\<dots> = driver_loop A trl dvl es w1"
    by (rule andthen_Inr) (rule 1 [THEN conjunct1])
  finally have r: "driver_loop A trl dvl (epoch # es) w = (Inr (), w2)"
    by (simp only: 2)
  have h: "map heading_of (stdout w2) = map heading_of (stdout w) @
      concat (map (\<lambda>epoch. [TrainHeading epoch, EvalHeading ''Dev'', DashHeading]) (epoch # es))"
    using 1 2 by simp
  have m: "filter is_mode (calls w2) =
      filter is_mode (calls w) @ concat (replicate (length (epoch # es)) [ModelTrain, ModelEval])"
    using 1 2 by simp
  have f: "length (filter is_forward (calls w2)) = length (filter is_forward (calls w)) +
      length (epoch # es) * (n_batches (length (dataset w trl)) (batch_size trl) +
                   n_batches (length (dataset w dvl)) (batch_size dvl))"
    using 1 2 by (simp add: d)
  show ?case
    by (rule exI [of _ w2]) (simp only: r h m f simp_thms)
qed

text \<open>
  Claim C6. On a training set the model can be trained on and a dev set it can be evaluated
  on, both with a sample at least, the training cell returns after exactly \<open>epochs\<close>
  iterations: it prints, for the epochs 1 to \<open>epochs\<close> in order, the line of
  \<open>train_epoch\<close>, the line of \<open>eval_epoch\<close> on the dev set and the dashes, and it
  switches the module to training and to evaluation mode once per iteration, in this order.
  Every call of \<open>train_epoch\<close> and \<open>eval_epoch\<close> makes as many batch iterations as its
  loader has batches, \<open>\<lceil>n / batch_size\<rceil>\<close> for \<open>n\<close> samples. (All functions of the
  model are total: each call returns or raises.)
\<close>

theorem driver_runs_epochs:
  assumes "trainable A (dataset w train_loader)" and "dataset w train_loader \<noteq> []"
    and "evaluable A (dataset w dev_loader)" and "dataset w dev_loader \<noteq> []"
  shows "\<exists>w'. driver A train_loader dev_loader epochs w = (Inr (), w') \<and>
    map heading_of (stdout w') = map heading_of (stdout w) @
      concat (map (\<lambda>epoch. [TrainHeading epoch, EvalHeading ''Dev'', DashHeading]) [1..epochs]) \<and>
    filter is_mode (calls w') =
      filter is_mode (calls w) @ concat (replicate (nat epochs) [ModelTrain, ModelEval]) \<and>
    length (filter is_forward (calls w')) = length (filter is_forward (calls w)) +
      nat epochs * (n_batches (length (dataset w train_loader)) (batch_size train_loader) +
                    n_batches (length (dataset w dev_loader)) (batch_size dev_loader))"
  using driver_loop_ok [OF assms, of "[1..epochs]"] by (simp add: driver_def)

text \<open>The ten epochs of the tutorial, on three samples in batches of two.\<close>

theorem driver_runs_epochs_witness:
  "trainable identity_net (dataset small_world \<lparr>part = Train, batch_size = 2\<rparr>) \<and>
   dataset small_world \<lparr>part = Train, batch_size = 2\<rparr> \<noteq> [] \<and>
   evaluable identity_net (dataset small_world \<lparr>part = Dev, batch_size = 2\<rparr>) \<and>
   dataset small_world \<lparr>part = Dev, batch_size = 2\<rparr> \<noteq> [] \<and>
   (\<exists>w'. driver identity_net \<lparr>part = Train, batch_size = 2\<rparr> \<lparr>part = Dev, batch_size = 2\<rparr>
            tutorial_epochs small_world = (Inr (), w') \<and>
      map heading_of (stdout w') =
        concat (map (\<lambda>epoch. [TrainHeading epoch, EvalHeading ''Dev'', DashHeading])
          [1, 2, 3, 4, 5, 6, 7, 8, 9, 10]) \<and>
      filter is_mode (calls w') = concat (replicate 10 [ModelTrain, ModelEval]) \<and>
      length (filter is_forward (calls w')) = 40)"
proof -
  have d: "dataset small_world \<lparr>part = Train, batch_size = 2\<rparr> = three_samples"
    "dataset small_world \<lparr>part = Dev, batch_size = 2\<rparr> = three_samples"
    by (simp_all add: dataset_def small_world_def)
  have t: "trainable identity_net three_samples" "evaluable identity_net three_samples"
    by (simp_all add: trainable_def evaluable_def accepts_def identity_net_def three_samples_def)
  have n: "three_samples \<noteq> []" "length three_samples = 3"
    by (simp_all add: three_samples_def)
  have c: "calls small_world = []" "stdout small_world = []"
    by (simp_all add: small_world_def)
  have u: "[1..tutorial_epochs] = [1, 2, 3, 4, 5, 6, 7, 8, 9, 10]"
    by (simp add: tutorial_epochs_def upto_rec1)
  have e: "nat tutorial_epochs = 10"
    by (simp add: tutorial_epochs_def)
  have b: "n_batches 3 2 = 2"
    by (simp add: n_batches_def)
  show ?thesis
    using driver_runs_epochs [of identity_net small_world "\<lparr>part = Train, batch_size = 2\<rparr>"
        "\<lparr>part = Dev, batch_size = 2\<rparr>" tutorial_epochs]
    unfolding d u e using t n c b by simp
qed

subsection \<open>The printed loss\<close>

lemma two_batches:
  "batches_of \<lparr>part = p, batch_size = tutorial_batch_size\<rparr> two_world =
     [([[0, 0], [0, 0]], [0, 0])]"
  by (cases p) (simp_all add: batches_of_def iterate_def dataset_def two_world_def two_samples_def
      batch_sampler_def collate_def Let_def tutorial_batch_size_def)

lemma two_loss: "loss_of identity_net mode p ([0, 0], 0) = ln 2"
  by (simp add: loss_of_def identity_net_def)

lemma two_mean: "batch_mean identity_net mode p ([[0, 0], [0, 0]], [0, 0]) = ln 2"
  by (simp add: batch_mean_def samples_of_def two_loss)

lemma eval_loss_two:
  "(\<exists>w'. eval_epoch identity_net \<lparr>part = Dev, batch_size = tutorial_batch_size\<rparr> ''Dev'' two_world
           = (Inr (), w') \<and>
         stdout w' = [EvalLine ''Dev'' (ln 2 / 2) 2 2 100]) \<and>
   sum_list (map (loss_of identity_net False (params (model two_world))) (dev two_world)) /
     real (length (dev two_world)) = ln 2 \<and>
   ln 2 / 2 \<noteq> (ln 2 :: real)"
proof -
  have d: "dataset two_world \<lparr>part = Dev, batch_size = tutorial_batch_size\<rparr> = two_samples"
    by (simp add: dataset_def two_world_def)
  have a: "accepts identity_net False (params (model two_world)) two_samples"
    by (simp add: accepts_def identity_net_def two_samples_def)
  have h: "hits identity_net (params (model two_world)) two_samples = 2"
    by (simp add: hits_def predicted_def identity_net_def two_samples_def argmax_def)
  have s: "stdout two_world = []"
    by (simp add: two_world_def)
  have "eval_epoch identity_net \<lparr>part = Dev, batch_size = tutorial_batch_size\<rparr> ''Dev'' two_world
      = (Inr (), two_world\<lparr>model := (model two_world)\<lparr>training := False\<rparr>,
       rng := drop (length two_samples) (rng two_world),
       calls := calls two_world @ ModelEval #
         concat (map (\<lambda>b. [Forward (fst b), CrossEntropy (snd b)]) [([[0, 0], [0, 0]], [0, 0])]),
       stdout := stdout two_world @
         [EvalLine ''Dev''
            (sum_list (map (batch_mean identity_net False (params (model two_world))) [([[0, 0], [0, 0]], [0, 0])]) /
               real (length two_samples))
            (hits identity_net (params (model two_world)) two_samples)
            (length two_samples)
            (100 * real (hits identity_net (params (model two_world)) two_samples) / real (length two_samples))]\<rparr>)"
    using eval_epoch_ok [of identity_net two_world "\<lparr>part = Dev, batch_size = tutorial_batch_size\<rparr>" "''Dev''"]
    unfolding d two_batches using a by (simp add: two_samples_def)
  then have 1: "\<exists>w'. eval_epoch identity_net \<lparr>part = Dev, batch_size = tutorial_batch_size\<rparr> ''Dev'' two_world
           = (Inr (), w') \<and> stdout w' = [EvalLine ''Dev'' (ln 2 / 2) 2 2 100]"
    by (simp add: h s two_mean) (simp add: two_samples_def)
  have 2: "sum_list (map (loss_of identity_net False (params (model two_world))) (dev two_world)) /
     real (length (dev two_world)) = ln 2"
    by (simp add: two_world_def two_samples_def two_loss)
  have "ln 2 \<noteq> (0::real)" by simp
  then have 3: "ln 2 / 2 \<noteq> (ln 2 :: real)" by simp
  from 1 2 3 show ?thesis by blast
qed

lemma two_iterate:
  "iterate \<lparr>part = Train, batch_size = tutorial_batch_size\<rparr> w =
   (Inr [([[0, 0], [0, 0]], [0, 0])], w\<lparr>rng := []\<rparr>)"
  if "train w = two_samples" "rng w = []" for w :: "(real list) world"
  using that
  by (simp add: iterate_def dataset_def two_samples_def
      batch_sampler_def collate_def Let_def tutorial_batch_size_def)

lemma train_loss_two:
  "\<exists>w'. train_epoch identity_net \<lparr>part = Train, batch_size = tutorial_batch_size\<rparr> 1 two_world
           = (Inr (), w') \<and>
         stdout w' = [TrainLine 1 (ln 2 / 2) 2 2 100]"
proof -
  define w1 where "w1 = two_world\<lparr>model := (model two_world)\<lparr>training := True\<rparr>,
    calls := calls two_world @ [ModelTrain]\<rparr>"
  have d: "dataset w1 \<lparr>part = Train, batch_size = tutorial_batch_size\<rparr> = two_samples"
    by (simp add: dataset_def w1_def two_world_def)
  have it: "iterate \<lparr>part = Train, batch_size = tutorial_batch_size\<rparr> w1 =
      (Inr [([[0, 0], [0, 0]], [0, 0])], w1\<lparr>rng := []\<rparr>)"
    by (rule two_iterate) (simp_all add: w1_def two_world_def)
  have ce: "cross_entropy [[0, 0], [0, 0]] [0, 0] w = (Inr (ln 2), w\<lparr>calls := calls w @ [CrossEntropy [0, 0]]\<rparr>)"
    for w :: "(real list) world"
    by (simp add: cross_entropy_def sample_loss_def)
  have mc: "model_call identity_net [[0, 0], [0, 0]] w =
      (Inr [[0, 0], [0, 0]], w\<lparr>calls := calls w @ [Forward [[0, 0], [0, 0]]]\<rparr>)"
    for w :: "(real list) world"
    by (simp add: model_call_def identity_net_def)
  have nc: "n_correct [[0, 0], [0, 0]] [0, 0] = 2"
    by (simp add: n_correct_def argmax_def)
  obtain w5 where tb: "train_batch identity_net ([[0, 0], [0, 0]], [0, 0]) (0, 0) (w1\<lparr>rng := []\<rparr>)
      = (Inr (ln 2, 2), w5)" "stdout w5 = []"
  proof -
    let ?w = "w1\<lparr>rng := []\<rparr>"
    obtain wa where a: "zero_grad ?w = (Inr (), wa)" "steady wa ?w"
      using zero_grad_effect [of ?w] by blast
    obtain wb where b: "model_call identity_net [[0, 0], [0, 0]] wa = (Inr [[0, 0], [0, 0]], wb)"
        "steady wb wa"
      using mc [of wa] by (simp add: steady_def)
    obtain wc where c: "cross_entropy [[0, 0], [0, 0]] [0, 0] wb = (Inr (ln 2), wc)" "steady wc wb"
      using ce [of wb] by (simp add: steady_def)
    obtain wd where dd: "backward identity_net [[0, 0], [0, 0]] [0, 0] wc = (Inr (), wd)" "steady wd wc"
      using backward_effect [of identity_net wc "[[0, 0], [0, 0]]" "[0, 0]"]
      by (auto simp add: identity_net_def)
    obtain we where e: "optimizer_step wd = (Inr (), we)" "steady we wd"
      using optimizer_step_effect [of wd] by blast
    have "train_batch identity_net ([[0, 0], [0, 0]], [0, 0]) (0, 0) ?w = (Inr (ln 2, 2), we)"
      by (simp add: train_batch_def andthen_def a b c dd e nc returns_def)
    moreover have "stdout we = []"
      using a(2) b(2) c(2) dd(2) e(2) by (simp add: steady_def w1_def two_world_def)
    ultimately show ?thesis using that by blast
  qed
  have "train_epoch identity_net \<lparr>part = Train, batch_size = tutorial_batch_size\<rparr> 1 two_world
      = (Inr (), w5\<lparr>stdout := stdout w5 @ [TrainLine 1 (ln 2 / 2) 2 2 100]\<rparr>)"
    unfolding train_epoch_unfold w1_def [symmetric] d
    by (simp add: andthen_def it tb print_line_def two_samples_def returns_def)
  then show ?thesis using tb(2) by simp
qed

text \<open>
  Claim C3 does not hold of the code. The claim is that the loss printed by
  \<open>train_epoch\<close> and \<open>eval_epoch\<close>, which the code labels the average loss, is the sum
  of the losses of all samples divided by the number of samples. \<^verbatim>\<open>F.cross_entropy\<close>
  already returns the mean over the batch, the loops add up these means, although the
  comment at the sum says \<^verbatim>\<open>sum up batch loss\<close>, and the sum of the means is divided by
  the number of samples again. On two samples of loss \<open>ln 2\<close> each, in one batch, the
  aggregate loss is \<open>ln 2\<close> and both functions print \<open>ln 2 / 2\<close>.
\<close>

theorem printed_loss_is_not_the_average:
  "(\<exists>w'. train_epoch identity_net \<lparr>part = Train, batch_size = tutorial_batch_size\<rparr> 1 two_world
           = (Inr (), w') \<and>
         stdout w' = [TrainLine 1 (ln 2 / 2) 2 2 100]) \<and>
   (\<exists>w'. eval_epoch identity_net \<lparr>part = Dev, batch_size = tutorial_batch_size\<rparr> ''Dev'' two_world
           = (Inr (), w') \<and>
         stdout w' = [EvalLine ''Dev'' (ln 2 / 2) 2 2 100]) \<and>
   sum_list (map (loss_of identity_net False (params (model two_world))) (dev two_world)) /
     real (length (dev two_world)) = ln 2 \<and>
   sum_list (map (loss_of identity_net True (params (model two_world))) (train two_world)) /
     real (length (train two_world)) = ln 2 \<and>
   ln 2 / 2 \<noteq> (ln 2 :: real)"
proof -
  have "sum_list (map (loss_of identity_net True (params (model two_world))) (train two_world)) /
     real (length (train two_world)) = ln 2"
    by (simp add: two_world_def two_samples_def two_loss)
  with train_loss_two eval_loss_two show ?thesis by blast
qed

subsection \<open>What the epochs carry\<close>

lemma determinedI:
  "(\<And>w1 w2. carried w1 = carried w2 \<Longrightarrow> partitions w1 = partitions w2 \<Longrightarrow>
      fst (m w1) = fst (m w2) \<and> carried (snd (m w1)) = carried (snd (m w2)) \<and>
      partitions (snd (m w1)) = partitions (snd (m w2))) \<Longrightarrow> determined m"
  unfolding determined_def by blast

lemma determinedD:
  "determined m \<Longrightarrow> carried w1 = carried w2 \<Longrightarrow> partitions w1 = partitions w2 \<Longrightarrow>
     fst (m w1) = fst (m w2) \<and> carried (snd (m w1)) = carried (snd (m w2)) \<and>
     partitions (snd (m w1)) = partitions (snd (m w2))"
  unfolding determined_def by blast

lemma determined_andthen:
  assumes "determined m" and "\<And>v. determined (f v)"
  shows "determined (andthen m f)"
proof (rule determinedI)
  fix w1 w2 :: "'a world"
  assume a: "carried w1 = carried w2" "partitions w1 = partitions w2"
  obtain r1 u1 where 1: "m w1 = (r1, u1)" by (cases "m w1")
  obtain r2 u2 where 2: "m w2 = (r2, u2)" by (cases "m w2")
  from determinedD [OF assms(1) a] 1 2
  have r: "r1 = r2" and c: "carried u1 = carried u2" and p: "partitions u1 = partitions u2"
    by simp_all
  show "fst (andthen m f w1) = fst (andthen m f w2) \<and>
      carried (snd (andthen m f w1)) = carried (snd (andthen m f w2)) \<and>
      partitions (snd (andthen m f w1)) = partitions (snd (andthen m f w2))"
  proof (cases r2)
    case (Inl e)
    then show ?thesis using 1 2 r c p by (simp add: andthen_def)
  next
    case (Inr v)
    then show ?thesis using 1 2 r determinedD [OF assms(2) c p, of v]
      by (simp add: andthen_def)
  qed
qed

lemma determined_returns [simp]: "determined (returns v)"
  by (simp add: determined_def returns_def)

lemma determined_raises [simp]: "determined (raises e)"
  by (simp add: determined_def raises_def)

lemma dataset_partitions: "partitions w1 = partitions w2 \<Longrightarrow> dataset w1 l = dataset w2 l"
  by (rule dataset_cong) (simp_all add: partitions_def)

lemma determined_logs:
  assumes "\<And>w cs out.
      fst (m (w\<lparr>calls := cs, stdout := out\<rparr>)) = fst (m w) \<and>
      carried (snd (m (w\<lparr>calls := cs, stdout := out\<rparr>))) = carried (snd (m w)) \<and>
      partitions (snd (m (w\<lparr>calls := cs, stdout := out\<rparr>))) = partitions (snd (m w))"
  shows "determined m"
proof (rule determinedI)
  fix w1 w2 :: "'a world"
  assume "carried w1 = carried w2" "partitions w1 = partitions w2"
  then have "w1 = w2\<lparr>calls := calls w1, stdout := stdout w1\<rparr>"
    by (intro world.equality) (simp_all add: carried_def partitions_def)
  then obtain cs out where "w1 = w2\<lparr>calls := cs, stdout := out\<rparr>" by blast
  with assms [where w = w2 and cs = cs and out = out]
  show "fst (m w1) = fst (m w2) \<and> carried (snd (m w1)) = carried (snd (m w2)) \<and>
      partitions (snd (m w1)) = partitions (snd (m w2))"
    by simp
qed

lemma determined_calls:
  "determined model_train" "determined model_eval" "determined zero_grad"
  "determined (model_call A d)" "determined (cross_entropy out t)"
  "determined (print_line x)"
  by (rule determined_logs,
      simp add: carried_def partitions_def model_train_def model_eval_def
        zero_grad_def model_call_def cross_entropy_def print_line_def)+

lemma determined_backward: "determined (backward A d t)"
proof (rule determined_logs)
  fix w :: "'a world" and cs out
  show "fst (backward A d t (w\<lparr>calls := cs, stdout := out\<rparr>)) = fst (backward A d t w) \<and>
      carried (snd (backward A d t (w\<lparr>calls := cs, stdout := out\<rparr>))) = carried (snd (backward A d t w)) \<and>
      partitions (snd (backward A d t (w\<lparr>calls := cs, stdout := out\<rparr>))) = partitions (snd (backward A d t w))"
    by (cases "autograd A (params (model w)) d t")
      (simp_all add: carried_def partitions_def backward_def)
qed

lemma determined_optimizer_step: "determined optimizer_step"
proof (rule determined_logs)
  fix w :: "'a world" and cs out
  show "fst (optimizer_step (w\<lparr>calls := cs, stdout := out\<rparr>)) = fst (optimizer_step w) \<and>
      carried (snd (optimizer_step (w\<lparr>calls := cs, stdout := out\<rparr>))) = carried (snd (optimizer_step w)) \<and>
      partitions (snd (optimizer_step (w\<lparr>calls := cs, stdout := out\<rparr>))) = partitions (snd (optimizer_step w))"
    by (cases "grad (model w)")
      (simp_all add: carried_def partitions_def optimizer_step_def Let_def)
qed

lemma determined_iterate: "determined (iterate l)"
proof (rule determined_logs)
  fix w :: "'a world" and cs out
  have "dataset (w\<lparr>calls := cs, stdout := out\<rparr>) l = dataset w l"
    by (rule dataset_cong) simp_all
  then show "fst (iterate l (w\<lparr>calls := cs, stdout := out\<rparr>)) = fst (iterate l w) \<and>
      carried (snd (iterate l (w\<lparr>calls := cs, stdout := out\<rparr>))) = carried (snd (iterate l w)) \<and>
      partitions (snd (iterate l (w\<lparr>calls := cs, stdout := out\<rparr>))) = partitions (snd (iterate l w))"
    by (simp add: iterate_def Let_def carried_def partitions_def)
qed

lemma determined_length_dataset:
  assumes "\<And>n. determined (g n)"
  shows "determined (\<lambda>w. g (length (dataset w l)) w)"
proof (rule determinedI)
  fix w1 w2 :: "'a world"
  assume a: "carried w1 = carried w2" "partitions w1 = partitions w2"
  have e: "dataset w1 l = dataset w2 l"
    using a(2) by (rule dataset_partitions)
  show "fst (g (length (dataset w1 l)) w1) = fst (g (length (dataset w2 l)) w2) \<and>
      carried (snd (g (length (dataset w1 l)) w1)) = carried (snd (g (length (dataset w2 l)) w2)) \<and>
      partitions (snd (g (length (dataset w1 l)) w1)) = partitions (snd (g (length (dataset w2 l)) w2))"
    unfolding e by (rule determinedD [OF assms a])
qed

lemma determined_train_loop: "determined (train_loop A bs acc)"
proof (induction bs arbitrary: acc)
  case Nil
  show ?case by simp
next
  case (Cons b bs)
  have "determined (train_batch A b acc)"
    unfolding train_batch_def
    by (cases b, cases acc)
      (simp add: determined_andthen determined_calls determined_backward determined_optimizer_step)
  then show ?case by (simp add: determined_andthen Cons.IH)
qed

lemma determined_eval_loop: "determined (eval_loop A bs acc)"
proof (induction bs arbitrary: acc)
  case Nil
  show ?case by simp
next
  case (Cons b bs)
  have "determined (eval_batch A b acc)"
    unfolding eval_batch_def
    by (cases b, cases acc) (simp add: determined_andthen determined_calls)
  then show ?case by (simp add: determined_andthen Cons.IH)
qed

lemma determined_train_epoch: "determined (train_epoch A l epoch)"
proof -
  have "determined (andthen (iterate l) (\<lambda>batches.
       andthen (train_loop A batches (0, 0)) (\<lambda>(total_loss, correct).
         if n = 0 then raises ZeroDivisionError
         else print_line (TrainLine epoch (total_loss / real n) correct n
                (100 * real correct / real n)))))" for n
    by (intro determined_andthen determined_iterate determined_train_loop)
      (simp add: determined_calls split: prod.splits)
  then have "determined (\<lambda>w. (\<lambda>n. andthen (iterate l) (\<lambda>batches.
       andthen (train_loop A batches (0, 0)) (\<lambda>(total_loss, correct).
         if n = 0 then raises ZeroDivisionError
         else print_line (TrainLine epoch (total_loss / real n) correct n
                (100 * real correct / real n))))) (length (dataset w l)) w)"
    by (rule determined_length_dataset)
  then show ?thesis
    unfolding train_epoch_def Let_def
    by (intro determined_andthen determined_calls)
qed

lemma determined_eval_epoch: "determined (eval_epoch A l name)"
proof -
  have "determined (\<lambda>w. (\<lambda>n. if n = 0 then raises ZeroDivisionError
        else print_line (EvalLine name (test_loss / real n) correct n
               (100 * real correct / real n))) (length (dataset w l)) w)" for test_loss correct
    by (rule determined_length_dataset) (simp add: determined_calls)
  then show ?thesis
    unfolding eval_epoch_def Let_def
    by (intro determined_andthen determined_calls determined_iterate determined_eval_loop)
      (auto split: prod.splits)
qed

lemma determined_driver_loop: "determined (driver_loop A trl dvl es)"
proof (induction es)
  case Nil
  show ?case by simp
next
  case (Cons epoch es)
  show ?case
    unfolding driver_loop.simps
    by (intro determined_andthen determined_train_epoch determined_eval_epoch determined_calls
        Cons.IH)
qed

lemma slope_epoch:
  fixes w :: "(real list) world"
  assumes "train w = [([0, 0], 0)]" and "rng w = []" and "params (model w) = [p]"
    and "lr (optimizer w) = 1 / 100" and "momentum (optimizer w) = 1 / 2"
    and gr: "grad (model w) = None \<or> grad (model w) = Some [g]"
    and bf: "momentum_buffer (optimizer w) = None \<and> d = 1 \<or>
             momentum_buffer (optimizer w) = Some [b] \<and> d = b / 2 + 1"
  shows "\<exists>w'. train_epoch slope_net \<lparr>part = Train, batch_size = tutorial_batch_size\<rparr> epoch w
      = (Inr (), w') \<and>
    train w' = [([0, 0], 0)] \<and> rng w' = [] \<and>
    lr (optimizer w') = 1 / 100 \<and> momentum (optimizer w') = 1 / 2 \<and>
    grad (model w') = Some [1] \<and>
    params (model w') = [p - d / 100] \<and> momentum_buffer (optimizer w') = Some [d]"
proof -
  let ?l = "\<lparr>part = Train, batch_size = tutorial_batch_size\<rparr>"
  define w1 where "w1 = w\<lparr>model := (model w)\<lparr>training := True\<rparr>, calls := calls w @ [ModelTrain]\<rparr>"
  have d: "dataset w1 \<lparr>part = Train, batch_size = k\<rparr> = [([0, 0], 0)]" for k
    by (simp add: dataset_def w1_def assms)
  have r1: "rng w1 = []"
    by (simp add: w1_def assms)
  have it: "iterate ?l w1 = (Inr [([[0, 0]], [0])], w1\<lparr>rng := []\<rparr>)"
    by (simp add: iterate_def d Let_def batch_sampler_def collate_def tutorial_batch_size_def r1)
  define w2 where "w2 = w1\<lparr>rng := []\<rparr>"
  have tb: "\<exists>acc w'. train_batch slope_net ([[0, 0]], [0]) (0, 0) w2 = (Inr acc, w') \<and>
      train w' = [([0, 0], 0)] \<and> rng w' = [] \<and>
      lr (optimizer w') = 1 / 100 \<and> momentum (optimizer w') = 1 / 2 \<and>
      grad (model w') = Some [1] \<and>
      params (model w') = [p - d / 100] \<and> momentum_buffer (optimizer w') = Some [d]"
    using gr bf
    by (elim disjE conjE)
      (simp_all add: train_batch_def andthen_def zero_grad_def model_call_def cross_entropy_def
        sample_loss_def backward_def optimizer_step_def returns_def slope_net_def Let_def
        w2_def w1_def assms)
  then obtain acc w3 where 3: "train_batch slope_net ([[0, 0]], [0]) (0, 0) w2 = (Inr acc, w3)"
      "train w3 = [([0, 0], 0)]" "rng w3 = []"
      "lr (optimizer w3) = 1 / 100" "momentum (optimizer w3) = 1 / 2"
      "grad (model w3) = Some [1]"
      "params (model w3) = [p - d / 100]" "momentum_buffer (optimizer w3) = Some [d]"
    by blast
  obtain total_loss correct where acc: "acc = (total_loss, correct)" by (cases acc)
  have "train_epoch slope_net ?l epoch w =
      (Inr (), w3\<lparr>stdout := stdout w3 @ [TrainLine epoch (total_loss / 1) correct 1
         (100 * real correct / 1)]\<rparr>)"
    unfolding train_epoch_unfold w1_def [symmetric] d
    by (simp add: andthen_def it w2_def [symmetric] 3 acc print_line_def returns_def)
  with 3 show ?thesis by simp
qed

subsection \<open>The partitions are read only\<close>

lemma keeps_partitions_calls:
  "keeps partitions model_train" "keeps partitions model_eval" "keeps partitions zero_grad"
  "keeps partitions (model_call A d)" "keeps partitions (cross_entropy out t)"
  "keeps partitions (iterate l)" "keeps partitions (print_line x)"
  by (simp_all add: keeps_def partitions_def model_train_def model_eval_def zero_grad_def
      model_call_def cross_entropy_def iterate_def print_line_def Let_def)

lemma keeps_partitions_backward: "keeps partitions (backward A d t)"
  using backward_frame(4-6) [of A d t] by (auto simp add: keeps_def partitions_def)

lemma keeps_partitions_step: "keeps partitions optimizer_step"
  using optimizer_step_frame(3-5) by (auto simp add: keeps_def partitions_def)

lemma keeps_length_dataset:
  assumes "\<And>n. keeps field (g n)"
  shows "keeps field (\<lambda>w. g (length (dataset w l)) w)"
  using assms by (simp add: keeps_def)

lemma keeps_partitions_train_loop: "keeps partitions (train_loop A bs acc)"
proof (induction bs arbitrary: acc)
  case Nil
  show ?case by simp
next
  case (Cons b bs)
  have "keeps partitions (train_batch A b acc)"
    unfolding train_batch_def
    by (cases b, cases acc)
      (simp add: keeps_andthen keeps_partitions_calls keeps_partitions_backward
        keeps_partitions_step)
  then show ?case by (simp add: keeps_andthen Cons.IH)
qed

lemma keeps_partitions_train_epoch: "keeps partitions (train_epoch A l epoch)"
proof -
  have "keeps partitions (andthen (iterate l) (\<lambda>batches.
       andthen (train_loop A batches (0, 0)) (\<lambda>(total_loss, correct).
         if n = 0 then raises ZeroDivisionError
         else print_line (TrainLine epoch (total_loss / real n) correct n
                (100 * real correct / real n)))))" for n
    by (intro keeps_andthen keeps_partitions_calls keeps_partitions_train_loop)
      (simp add: keeps_partitions_calls split: prod.splits)
  then have "keeps partitions (\<lambda>w. (\<lambda>n. andthen (iterate l) (\<lambda>batches.
       andthen (train_loop A batches (0, 0)) (\<lambda>(total_loss, correct).
         if n = 0 then raises ZeroDivisionError
         else print_line (TrainLine epoch (total_loss / real n) correct n
                (100 * real correct / real n))))) (length (dataset w l)) w)"
    by (rule keeps_length_dataset)
  then show ?thesis
    unfolding train_epoch_def Let_def
    by (intro keeps_andthen keeps_partitions_calls)
qed

lemma keeps_partitions_eval_epoch: "keeps partitions (eval_epoch A l name)"
proof (rule keepsI)
  fix w :: "'a world"
  let ?w1 = "w\<lparr>model := (model w)\<lparr>training := False\<rparr>, calls := calls w @ [ModelEval]\<rparr>"
  have "partitions (snd (eval_epoch A l name w)) = partitions ?w1"
    unfolding eval_epoch_unfold
    by (rule keepsD [OF eval_rest_keeps]) (rule keeps_partitions_calls)+
  then show "partitions (snd (eval_epoch A l name w)) = partitions w"
    by (simp add: partitions_def)
qed

lemma keeps_partitions_driver_loop: "keeps partitions (driver_loop A trl dvl es)"
proof (induction es)
  case Nil
  show ?case by simp
next
  case (Cons epoch es)
  show ?case
    unfolding driver_loop.simps
    by (intro keeps_andthen keeps_partitions_train_epoch keeps_partitions_eval_epoch
        keeps_partitions_calls Cons.IH)
qed

subsection \<open>The optimizer is carried too\<close>

lemma after_first_epoch:
  "train after_first_epoch = [([0, 0], 0)]" "rng after_first_epoch = []"
  "lr (optimizer after_first_epoch) = 1 / 100" "momentum (optimizer after_first_epoch) = 1 / 2"
  "grad (model after_first_epoch) = Some [1]"
  "params (model after_first_epoch) = [- 1 / 100]"
  "momentum_buffer (optimizer after_first_epoch) = Some [1]"
proof -
  have "\<exists>w'. train_epoch slope_net \<lparr>part = Train, batch_size = tutorial_batch_size\<rparr> 1 one_world
      = (Inr (), w') \<and>
    train w' = [([0, 0], 0)] \<and> rng w' = [] \<and>
    lr (optimizer w') = 1 / 100 \<and> momentum (optimizer w') = 1 / 2 \<and>
    grad (model w') = Some [1] \<and>
    params (model w') = [0 - 1 / 100] \<and> momentum_buffer (optimizer w') = Some [1]"
    by (rule slope_epoch [where g = 0 and b = 0])
      (simp_all add: one_world_def tutorial_optimizer_def SGD_def)
  then show "train after_first_epoch = [([0, 0], 0)]" "rng after_first_epoch = []"
    "lr (optimizer after_first_epoch) = 1 / 100" "momentum (optimizer after_first_epoch) = 1 / 2"
    "grad (model after_first_epoch) = Some [1]"
    "params (model after_first_epoch) = [- 1 / 100]"
    "momentum_buffer (optimizer after_first_epoch) = Some [1]"
    unfolding after_first_epoch_def by auto
qed

text \<open>
  Claim C4 as stated fails in its last part: the optimizer is created once, before the
  loop, with a momentum, and its momentum buffer is state that one epoch leaves to the
  next. After the first epoch on one sample, with a gradient of 1, the buffer is no longer
  empty; the second epoch then moves the parameter from -0.01 to -0.025, whereas from the
  same model and the same data, with the optimizer as it was created, it moves it to
  -0.02.
\<close>

theorem optimizer_state_counterexample:
  "momentum_buffer (optimizer one_world) = None \<and>
   momentum_buffer (optimizer after_first_epoch) = Some [1] \<and>
   model (after_first_epoch\<lparr>optimizer := tutorial_optimizer\<rparr>) = model after_first_epoch \<and>
   partitions (after_first_epoch\<lparr>optimizer := tutorial_optimizer\<rparr>) = partitions after_first_epoch \<and>
   params (model (snd (train_epoch slope_net \<lparr>part = Train, batch_size = tutorial_batch_size\<rparr> 2
      after_first_epoch))) = [- 25 / 1000] \<and>
   params (model (snd (train_epoch slope_net \<lparr>part = Train, batch_size = tutorial_batch_size\<rparr> 2
      (after_first_epoch\<lparr>optimizer := tutorial_optimizer\<rparr>)))) = [- 20 / 1000]"
proof -
  have "\<exists>w'. train_epoch slope_net \<lparr>part = Train, batch_size = tutorial_batch_size\<rparr> 2
        after_first_epoch = (Inr (), w') \<and>
    train w' = [([0, 0], 0)] \<and> rng w' = [] \<and>
    lr (optimizer w') = 1 / 100 \<and> momentum (optimizer w') = 1 / 2 \<and>
    grad (model w') = Some [1] \<and>
    params (model w') = [- 1 / 100 - (1 / 2 + 1) / 100] \<and>
    momentum_buffer (optimizer w') = Some [1 / 2 + 1]"
    by (rule slope_epoch [where g = 1 and b = 1]) (simp_all add: after_first_epoch)
  then have 1: "params (model (snd (train_epoch slope_net
      \<lparr>part = Train, batch_size = tutorial_batch_size\<rparr> 2 after_first_epoch))) = [- 25 / 1000]"
    by auto
  have "\<exists>w'. train_epoch slope_net \<lparr>part = Train, batch_size = tutorial_batch_size\<rparr> 2
        (after_first_epoch\<lparr>optimizer := tutorial_optimizer\<rparr>) = (Inr (), w') \<and>
    train w' = [([0, 0], 0)] \<and> rng w' = [] \<and>
    lr (optimizer w') = 1 / 100 \<and> momentum (optimizer w') = 1 / 2 \<and>
    grad (model w') = Some [1] \<and>
    params (model w') = [- 1 / 100 - 1 / 100] \<and>
    momentum_buffer (optimizer w') = Some [1]"
    by (rule slope_epoch [where g = 1 and b = 0])
      (simp_all add: after_first_epoch tutorial_optimizer_def SGD_def)
  then have 2: "params (model (snd (train_epoch slope_net
      \<lparr>part = Train, batch_size = tutorial_batch_size\<rparr> 2
      (after_first_epoch\<lparr>optimizer := tutorial_optimizer\<rparr>)))) = [- 20 / 1000]"
    by auto
  show ?thesis
    using 1 2 after_first_epoch(7)
    by (simp add: partitions_def one_world_def tutorial_optimizer_def SGD_def)
qed

text \<open>
  Claim C4, amended. Throughout training the dataset is read only: \<open>train_epoch\<close>,
  \<open>eval_epoch\<close> and the training cell leave the three partitions as they were, whether
  they return or raise. The parameters of the model are changed by the optimizer step
  only: every other library call leaves them as they are. The state that one epoch leaves
  to the next is the model object together with the optimizer and the random generator of
  the library: worlds that agree on these and on the partitions give the same outcome of
  any number of iterations of the training cell and agree on them afterwards.
\<close>

theorem state_across_epochs:
  "partitions (snd (train_epoch A l epoch w)) = partitions w \<and>
   partitions (snd (eval_epoch A l name w)) = partitions w \<and>
   partitions (snd (driver A trl dvl epochs w)) = partitions w \<and>
   params (model (snd (model_train w))) = params (model w) \<and>
   params (model (snd (model_eval w))) = params (model w) \<and>
   params (model (snd (zero_grad w))) = params (model w) \<and>
   params (model (snd (model_call A data w))) = params (model w) \<and>
   params (model (snd (cross_entropy out target w))) = params (model w) \<and>
   params (model (snd (backward A data target w))) = params (model w) \<and>
   params (model (snd (iterate l w))) = params (model w) \<and>
   params (model (snd (print_line x w))) = params (model w) \<and>
   (carried w1 = carried w2 \<and> partitions w1 = partitions w2 \<longrightarrow>
      fst (driver_loop A trl dvl es w1) = fst (driver_loop A trl dvl es w2) \<and>
      carried (snd (driver_loop A trl dvl es w1)) = carried (snd (driver_loop A trl dvl es w2)))"
proof -
  have a: "partitions (snd (train_epoch A l epoch w)) = partitions w"
    "partitions (snd (eval_epoch A l name w)) = partitions w"
    "partitions (snd (driver A trl dvl epochs w)) = partitions w"
    unfolding driver_def
    by (rule keepsD [OF keeps_partitions_train_epoch] keepsD [OF keeps_partitions_eval_epoch]
        keepsD [OF keeps_partitions_driver_loop])+
  have b: "params (model (snd (model_train w))) = params (model w)"
    "params (model (snd (model_eval w))) = params (model w)"
    "params (model (snd (zero_grad w))) = params (model w)"
    "params (model (snd (model_call A data w))) = params (model w)"
    "params (model (snd (cross_entropy out target w))) = params (model w)"
    "params (model (snd (iterate l w))) = params (model w)"
    "params (model (snd (print_line x w))) = params (model w)"
    by (simp_all add: model_train_def model_eval_def zero_grad_def model_call_def
        cross_entropy_def iterate_def print_line_def Let_def)
  have b': "params (model (snd (backward A data target w))) = params (model w)"
    by (rule keepsD [OF backward_frame(1)])
  have c: "carried w1 = carried w2 \<and> partitions w1 = partitions w2 \<longrightarrow>
      fst (driver_loop A trl dvl es w1) = fst (driver_loop A trl dvl es w2) \<and>
      carried (snd (driver_loop A trl dvl es w1)) = carried (snd (driver_loop A trl dvl es w2))"
    using determinedD [OF determined_driver_loop, of w1 w2 A trl dvl es] by blast
  from a b b' c show ?thesis by blast
qed

text \<open>Two worlds that differ in what was recorded and printed before.\<close>

theorem state_across_epochs_witness:
  "carried small_world = carried (small_world\<lparr>calls := [Step], stdout := [Dashes]\<rparr>) \<and>
   partitions small_world = partitions (small_world\<lparr>calls := [Step], stdout := [Dashes]\<rparr>) \<and>
   fst (driver_loop identity_net \<lparr>part = Train, batch_size = 2\<rparr> \<lparr>part = Dev, batch_size = 2\<rparr>
          [1, 2] small_world) =
   fst (driver_loop identity_net \<lparr>part = Train, batch_size = 2\<rparr> \<lparr>part = Dev, batch_size = 2\<rparr>
          [1, 2] (small_world\<lparr>calls := [Step], stdout := [Dashes]\<rparr>)) \<and>
   carried (snd (driver_loop identity_net \<lparr>part = Train, batch_size = 2\<rparr>
          \<lparr>part = Dev, batch_size = 2\<rparr> [1, 2] small_world)) =
   carried (snd (driver_loop identity_net \<lparr>part = Train, batch_size = 2\<rparr>
          \<lparr>part = Dev, batch_size = 2\<rparr> [1, 2]
          (small_world\<lparr>calls := [Step], stdout := [Dashes]\<rparr>)))"
proof -
  have "carried small_world = carried (small_world\<lparr>calls := [Step], stdout := [Dashes]\<rparr>)"
    "partitions small_world = partitions (small_world\<lparr>calls := [Step], stdout := [Dashes]\<rparr>)"
    by (simp_all add: carried_def partitions_def)
  then show ?thesis
    using state_across_epochs [where A = identity_net and w = small_world
        and ?w1.0 = small_world
        and ?w2.0 = "small_world\<lparr>calls := [Step], stdout := [Dashes]\<rparr>"
        and trl = "\<lparr>part = Train, batch_size = 2\<rparr>"
        and dvl = "\<lparr>part = Dev, batch_size = 2\<rparr>" and es = "[1, 2]"]
    by blast
qed

subsection \<open>Where errors come from\<close>

lemma raises_onlyI: "(\<And>w e. fst (m w) = Inl e \<Longrightarrow> e \<in> S) \<Longrightarrow> raises_only S m"
  unfolding raises_only_def by (auto split: sum.splits)

lemma raises_onlyD: "raises_only S m \<Longrightarrow> fst (m w) = Inl e \<Longrightarrow> e \<in> S"
  unfolding raises_only_def by (auto split: sum.splits dest: spec [of _ w])

lemma raises_only_andthen:
  assumes "raises_only S m" and "\<And>v. raises_only S (f v)"
  shows "raises_only S (andthen m f)"
proof (rule raises_onlyI)
  fix w e
  assume a: "fst (andthen m f w) = Inl e"
  obtain r w' where mw: "m w = (r, w')" by (cases "m w")
  show "e \<in> S"
  proof (cases r)
    case (Inl e')
    with a mw have "fst (m w) = Inl e" by (simp add: andthen_def)
    with assms(1) show ?thesis by (rule raises_onlyD)
  next
    case (Inr v)
    with a mw have "fst (f v w') = Inl e" by (simp add: andthen_def)
    with assms(2) show ?thesis by (rule raises_onlyD)
  qed
qed

lemma raises_only_returns [simp]: "raises_only S (returns v)"
  by (simp add: raises_only_def returns_def)

lemma raises_only_raises [simp]: "e \<in> S \<Longrightarrow> raises_only S (raises e)"
  by (simp add: raises_only_def raises_def)

lemma rows_error:
  "rows f xs = Inl e \<Longrightarrow> \<exists>x. f x = Inl e"
proof (induction xs)
  case Nil
  then show ?case by simp
next
  case (Cons x xs)
  then show ?case
    by (cases "f x"; cases "rows f xs") (auto simp add: thn_def)
qed

lemma raises_only_calls:
  "raises_only S model_train" "raises_only S model_eval" "raises_only S zero_grad"
  "raises_only S optimizer_step" "raises_only S (iterate l)" "raises_only S (print_line x)"
  by (simp_all add: raises_only_def model_train_def model_eval_def zero_grad_def
      optimizer_step_def iterate_def print_line_def Let_def split: option.splits)

lemma raises_only_model_call: "raises_only (insert ZeroDivisionError (library_errors A)) (model_call A d)"
proof (rule raises_onlyI)
  fix w e
  assume "fst (model_call A d w) = Inl e"
  then have "rows (net A (training (model w)) (params (model w))) d = Inl e"
    by (simp add: model_call_def)
  then obtain x where "net A (training (model w)) (params (model w)) x = Inl e"
    using rows_error by blast
  then show "e \<in> insert ZeroDivisionError (library_errors A)"
    unfolding library_errors_def by blast
qed

lemma raises_only_cross_entropy:
  "raises_only (insert ZeroDivisionError (library_errors A)) (cross_entropy out t)"
proof (rule raises_onlyI)
  fix w e
  assume a: "fst (cross_entropy out t w) = Inl e"
  show "e \<in> insert ZeroDivisionError (library_errors A)"
  proof (cases "length out = length t")
    case False
    with a have "e = ValueError" by (simp add: cross_entropy_def)
    then show ?thesis by (simp add: library_errors_def)
  next
    case True
    with a have "rows (\<lambda>(logits, t). sample_loss logits t) (zip out t) = Inl e"
      by (cases "rows (\<lambda>(logits, t). sample_loss logits t) (zip out t)")
        (simp_all add: cross_entropy_def)
    then obtain x where "(case x of (logits, t) \<Rightarrow> sample_loss logits t) = Inl e"
      using rows_error by blast
    then have "e = IndexError"
      by (cases x) (simp add: sample_loss_def split: if_splits)
    then show ?thesis by (simp add: library_errors_def)
  qed
qed

lemma raises_only_backward:
  "raises_only (insert ZeroDivisionError (library_errors A)) (backward A d t)"
proof (rule raises_onlyI)
  fix w e
  assume "fst (backward A d t w) = Inl e"
  then have "autograd A (params (model w)) d t = Inl e"
    by (cases "autograd A (params (model w)) d t") (simp_all add: backward_def)
  then show "e \<in> insert ZeroDivisionError (library_errors A)"
    unfolding library_errors_def by blast
qed

lemma raises_only_train_loop:
  "raises_only (insert ZeroDivisionError (library_errors A)) (train_loop A bs acc)"
proof (induction bs arbitrary: acc)
  case Nil
  show ?case by simp
next
  case (Cons b bs)
  have "raises_only (insert ZeroDivisionError (library_errors A)) (train_batch A b acc)"
    unfolding train_batch_def
    by (cases b, cases acc)
      (simp add: raises_only_andthen raises_only_calls raises_only_model_call
        raises_only_cross_entropy raises_only_backward)
  then show ?case by (simp add: raises_only_andthen Cons.IH)
qed

lemma raises_only_eval_loop:
  "raises_only (insert ZeroDivisionError (library_errors A)) (eval_loop A bs acc)"
proof (induction bs arbitrary: acc)
  case Nil
  show ?case by simp
next
  case (Cons b bs)
  have "raises_only (insert ZeroDivisionError (library_errors A)) (eval_batch A b acc)"
    unfolding eval_batch_def
    by (cases b, cases acc)
      (simp add: raises_only_andthen raises_only_calls raises_only_model_call
        raises_only_cross_entropy)
  then show ?case by (simp add: raises_only_andthen Cons.IH)
qed

lemma raises_only_length_dataset:
  assumes "\<And>n. raises_only S (g n)"
  shows "raises_only S (\<lambda>w. g (length (dataset w l)) w)"
  using assms by (simp add: raises_only_def)

lemma raises_only_train_epoch:
  "raises_only (insert ZeroDivisionError (library_errors A)) (train_epoch A l epoch)"
proof -
  have "raises_only (insert ZeroDivisionError (library_errors A)) (andthen (iterate l) (\<lambda>batches.
       andthen (train_loop A batches (0, 0)) (\<lambda>(total_loss, correct).
         if n = 0 then raises ZeroDivisionError
         else print_line (TrainLine epoch (total_loss / real n) correct n
                (100 * real correct / real n)))))" for n
    by (intro raises_only_andthen raises_only_calls raises_only_train_loop)
      (simp add: raises_only_calls split: prod.splits)
  then have "raises_only (insert ZeroDivisionError (library_errors A))
     (\<lambda>w. (\<lambda>n. andthen (iterate l) (\<lambda>batches.
       andthen (train_loop A batches (0, 0)) (\<lambda>(total_loss, correct).
         if n = 0 then raises ZeroDivisionError
         else print_line (TrainLine epoch (total_loss / real n) correct n
                (100 * real correct / real n))))) (length (dataset w l)) w)"
    by (rule raises_only_length_dataset)
  then show ?thesis
    unfolding train_epoch_def Let_def
    by (intro raises_only_andthen raises_only_calls)
qed

lemma raises_only_eval_epoch:
  "raises_only (insert ZeroDivisionError (library_errors A)) (eval_epoch A l name)"
proof -
  have "raises_only (insert ZeroDivisionError (library_errors A))
     (\<lambda>w. (\<lambda>n. if n = 0 then raises ZeroDivisionError
        else print_line (EvalLine name (test_loss / real n) correct n
               (100 * real correct / real n))) (length (dataset w l)) w)" for test_loss correct
    by (rule raises_only_length_dataset) (simp add: raises_only_calls)
  then show ?thesis
    unfolding eval_epoch_def Let_def
    by (intro raises_only_andthen raises_only_calls raises_only_eval_loop)
      (auto split: prod.splits)
qed

lemma raises_only_driver_loop:
  "raises_only (insert ZeroDivisionError (library_errors A)) (driver_loop A trl dvl es)"
proof (induction es)
  case Nil
  show ?case by simp
next
  case (Cons epoch es)
  show ?case
    unfolding driver_loop.simps
    by (intro raises_only_andthen raises_only_train_epoch raises_only_eval_epoch
        raises_only_calls Cons.IH)
qed

subsection \<open>A failing call ends the operation\<close>

lemma andthen_returns_fun: "andthen (returns v) f = f v"
  by (rule ext) simp

lemma train_loop_append:
  "train_loop A (xs @ ys) acc = andthen (train_loop A xs acc) (train_loop A ys)"
proof (induction xs arbitrary: acc)
  case Nil
  show ?case by (simp add: andthen_returns_fun)
next
  case (Cons b xs)
  have "train_loop A (xs @ ys) = (\<lambda>v. andthen (train_loop A xs v) (train_loop A ys))"
    by (rule ext) (rule Cons.IH)
  then show ?case by (simp add: andthen_assoc)
qed

lemma eval_loop_append:
  "eval_loop A (xs @ ys) acc = andthen (eval_loop A xs acc) (eval_loop A ys)"
proof (induction xs arbitrary: acc)
  case Nil
  show ?case by (simp add: andthen_returns_fun)
next
  case (Cons b xs)
  have "eval_loop A (xs @ ys) = (\<lambda>v. andthen (eval_loop A xs v) (eval_loop A ys))"
    by (rule ext) (rule Cons.IH)
  then show ?case by (simp add: andthen_assoc)
qed

lemma driver_loop_append:
  "driver_loop A trl dvl (xs @ ys) =
     andthen (driver_loop A trl dvl xs) (\<lambda>_. driver_loop A trl dvl ys)"
  by (induction xs) (simp_all add: andthen_returns_fun andthen_assoc)

lemma load_cell_first: "load_cell (Inl e) mnist_test = Inl e"
  by (simp add: load_cell_def)

lemma load_cell_second:
  "num_train (length all_train) \<le> length all_train \<Longrightarrow> load_cell (Inr all_train) (Inl e) = Inl e"
proof -
  assume a: "num_train (length all_train) \<le> length all_train"
  let ?k = "num_train (length all_train)"
  have "comprehension all_train [0..<?k] = Inr (map (\<lambda>i. all_train ! i) [0..<?k])"
    "comprehension all_train [?k..<length all_train] =
       Inr (map (\<lambda>i. all_train ! i) [?k..<length all_train])"
    using a by (simp_all add: comprehension_range)
  then show ?thesis by (simp add: load_cell_def Let_def)
qed

text \<open>
  Claim C5. No operation of the notebooks catches, retries or rewraps an error. A failure
  of a library call made for a batch (the forward pass, the loss, the backward pass) is
  the result of the training or evaluation step for this batch, with the same error and
  with the world as the failing call left it, so that nothing runs after it; in the same
  way the failure of a step is the result of the loop at whatever batch it happens, the
  failure of the loop that of \<open>train_epoch\<close> or \<open>eval_epoch\<close>, the failure of either
  in any epoch that of the training cell, and the failure of a call that loads a dataset
  that of the loading cell. Every error that leaves the training cell is an error of a
  library call or the \<^verbatim>\<open>ZeroDivisionError\<close> of Python's division by the length of an
  empty dataset: the notebooks have no errors of their own.
\<close>

theorem errors_propagate:
  "(model_call A data (snd (zero_grad w)) = (Inl e, w') \<longrightarrow>
      train_batch A (data, target) acc w = (Inl e, w')) \<and>
   (model_call A data (snd (zero_grad w)) = (Inr out, w1) \<and>
    cross_entropy out target w1 = (Inl e, w') \<longrightarrow>
      train_batch A (data, target) acc w = (Inl e, w')) \<and>
   (model_call A data (snd (zero_grad w)) = (Inr out, w1) \<and>
    cross_entropy out target w1 = (Inr loss, w2) \<and> backward A data target w2 = (Inl e, w') \<longrightarrow>
      train_batch A (data, target) acc w = (Inl e, w')) \<and>
   (model_call A data w = (Inl e, w') \<longrightarrow> eval_batch A (data, target) acc w = (Inl e, w')) \<and>
   (model_call A data w = (Inr out, w1) \<and> cross_entropy out target w1 = (Inl e, w') \<longrightarrow>
      eval_batch A (data, target) acc w = (Inl e, w')) \<and>
   (train_loop A pre acc w = (Inr acc1, w1) \<and> train_batch A b acc1 w1 = (Inl e, w') \<longrightarrow>
      train_loop A (pre @ b # post) acc w = (Inl e, w')) \<and>
   (eval_loop A pre acc w = (Inr acc1, w1) \<and> eval_batch A b acc1 w1 = (Inl e, w') \<longrightarrow>
      eval_loop A (pre @ b # post) acc w = (Inl e, w')) \<and>
   (iterate l (snd (model_train w)) = (Inr batches, w1) \<and>
    train_loop A batches (0, 0) w1 = (Inl e, w') \<longrightarrow>
      train_epoch A l epoch w = (Inl e, w')) \<and>
   (iterate l (snd (model_eval w)) = (Inr batches, w1) \<and>
    eval_loop A batches (0, 0) w1 = (Inl e, w') \<longrightarrow>
      eval_epoch A l name w = (Inl e, w')) \<and>
   (driver_loop A trl dvl before w = (Inr (), w1) \<and> train_epoch A trl epoch w1 = (Inl e, w') \<longrightarrow>
      driver_loop A trl dvl (before @ epoch # rest) w = (Inl e, w')) \<and>
   (driver_loop A trl dvl before w = (Inr (), w1) \<and> train_epoch A trl epoch w1 = (Inr (), w2) \<and>
    eval_epoch A dvl ''Dev'' w2 = (Inl e, w') \<longrightarrow>
      driver_loop A trl dvl (before @ epoch # rest) w = (Inl e, w')) \<and>
   (fst (driver A trl dvl epochs w) = Inl e \<longrightarrow>
      e = ZeroDivisionError \<or> e \<in> library_errors A) \<and>
   load_cell (Inl e) mnist_test = Inl e \<and>
   (num_train (length all_train) \<le> length all_train \<longrightarrow>
      load_cell (Inr all_train) (Inl e) = Inl e)"
proof -
  have 1: "model_call A data (snd (zero_grad w)) = (Inl e, w') \<longrightarrow>
      train_batch A (data, target) acc w = (Inl e, w')"
    by (cases acc) (simp add: train_batch_def andthen_def zero_grad_def)
  have 2: "model_call A data (snd (zero_grad w)) = (Inr out, w1) \<and>
    cross_entropy out target w1 = (Inl e, w') \<longrightarrow>
      train_batch A (data, target) acc w = (Inl e, w')"
    by (cases acc) (simp add: train_batch_def andthen_def zero_grad_def)
  have 3: "model_call A data (snd (zero_grad w)) = (Inr out, w1) \<and>
    cross_entropy out target w1 = (Inr loss, w2) \<and> backward A data target w2 = (Inl e, w') \<longrightarrow>
      train_batch A (data, target) acc w = (Inl e, w')"
    by (cases acc) (simp add: train_batch_def andthen_def zero_grad_def)
  have 4: "model_call A data w = (Inl e, w') \<longrightarrow> eval_batch A (data, target) acc w = (Inl e, w')"
    by (cases acc) (simp add: eval_batch_def andthen_def)
  have 5: "model_call A data w = (Inr out, w1) \<and> cross_entropy out target w1 = (Inl e, w') \<longrightarrow>
      eval_batch A (data, target) acc w = (Inl e, w')"
    by (cases acc) (simp add: eval_batch_def andthen_def)
  have 6: "train_loop A pre acc w = (Inr acc1, w1) \<and> train_batch A b acc1 w1 = (Inl e, w') \<longrightarrow>
      train_loop A (pre @ b # post) acc w = (Inl e, w')"
    by (simp add: train_loop_append andthen_def)
  have 7: "eval_loop A pre acc w = (Inr acc1, w1) \<and> eval_batch A b acc1 w1 = (Inl e, w') \<longrightarrow>
      eval_loop A (pre @ b # post) acc w = (Inl e, w')"
    by (simp add: eval_loop_append andthen_def)
  have 8: "iterate l (snd (model_train w)) = (Inr batches, w1) \<and>
    train_loop A batches (0, 0) w1 = (Inl e, w') \<longrightarrow>
      train_epoch A l epoch w = (Inl e, w')"
    by (simp add: train_epoch_def Let_def andthen_def model_train_def)
  have 9: "iterate l (snd (model_eval w)) = (Inr batches, w1) \<and>
    eval_loop A batches (0, 0) w1 = (Inl e, w') \<longrightarrow>
      eval_epoch A l name w = (Inl e, w')"
    by (simp add: eval_epoch_def andthen_def model_eval_def)
  have 10: "driver_loop A trl dvl before w = (Inr (), w1) \<and>
      train_epoch A trl epoch w1 = (Inl e, w') \<longrightarrow>
      driver_loop A trl dvl (before @ epoch # rest) w = (Inl e, w')"
    by (simp add: driver_loop_append andthen_def)
  have 11: "driver_loop A trl dvl before w = (Inr (), w1) \<and>
      train_epoch A trl epoch w1 = (Inr (), w2) \<and> eval_epoch A dvl ''Dev'' w2 = (Inl e, w') \<longrightarrow>
      driver_loop A trl dvl (before @ epoch # rest) w = (Inl e, w')"
    by (simp add: driver_loop_append andthen_def)
  have 12: "fst (driver A trl dvl epochs w) = Inl e \<longrightarrow>
      e = ZeroDivisionError \<or> e \<in> library_errors A"
    using raises_onlyD [OF raises_only_driver_loop, of A trl dvl "[1..epochs]" w e]
    by (simp add: driver_def)
  have 13: "load_cell (Inl e) mnist_test = Inl e"
    by (rule load_cell_first)
  have 14: "num_train (length all_train) \<le> length all_train \<longrightarrow>
      load_cell (Inr all_train) (Inl e) = Inl e"
    using load_cell_second by blast
  from 1 2 3 4 5 6 7 8 9 10 11 12 13 14 show ?thesis by (intro conjI)
qed

lemma pair_fst: "fst p = a \<Longrightarrow> p = (a, snd p)"
  by (cases p) simp

lemma broken_model_call: "fst (model_call broken_net (x # xs) w) = Inl RuntimeError"
  by (simp add: model_call_def broken_net_def)

lemma identity_model_call: "fst (model_call identity_net d w) = Inr d"
  by (simp add: model_call_def identity_net_def rows_ok)

lemma no_grad_model_call: "fst (model_call no_grad_net d w) = Inr d"
  by (simp add: model_call_def no_grad_net_def rows_ok)

lemma bad_label: "fst (cross_entropy [[0, 0]] [5] w) = Inl IndexError"
  by (simp add: cross_entropy_def sample_loss_def)

lemma good_label: "fst (cross_entropy [[0, 0]] [0] w) = Inr (ln 2)"
  by (simp add: cross_entropy_def sample_loss_def)

lemma no_grad_backward: "fst (backward no_grad_net d t w) = Inl RuntimeError"
  by (simp add: backward_def no_grad_net_def)

lemma broken_train_loop:
  "fst (train_loop broken_net ((x # xs, t) # bs) acc w) = Inl RuntimeError"
  by (cases acc)
    (simp add: train_batch_def andthen_def zero_grad_def model_call_def broken_net_def)

lemma broken_eval_loop:
  "fst (eval_loop broken_net ((x # xs, t) # bs) acc w) = Inl RuntimeError"
  by (cases acc) (simp add: eval_batch_def andthen_def model_call_def broken_net_def)

lemma small_iterate:
  fixes w :: "(real list) world"
  assumes "dataset w l = three_samples" and "rng w = [2, 0, 0]" and "batch_size l = 2"
  shows "fst (iterate l w) = Inr [([[2, 5], [1, 0]], [1, 0]), ([[0, 1]], [0])]"
  using assms
  by (simp add: iterate_def three_samples_def batch_sampler_def collate_def Let_def)

lemma bad_dev_eval:
  fixes w :: "(real list) world"
  assumes "dev w = [([0, 0], 5)]" and "rng w = []"
  shows "fst (eval_epoch identity_net \<lparr>part = Dev, batch_size = 2\<rparr> name w) = Inl IndexError"
proof -
  let ?w1 = "w\<lparr>model := (model w)\<lparr>training := False\<rparr>, calls := calls w @ [ModelEval]\<rparr>"
  have d: "dataset ?w1 \<lparr>part = Dev, batch_size = 2\<rparr> = [([0, 0], 5)]"
    by (simp add: dataset_def assms)
  have it: "iterate \<lparr>part = Dev, batch_size = 2\<rparr> ?w1 = (Inr [([[0, 0]], [5])], ?w1\<lparr>rng := []\<rparr>)"
    unfolding iterate_def d
    by (simp add: Let_def batch_sampler_def collate_def assms)
  show ?thesis
    unfolding eval_epoch_unfold
    by (simp add: andthen_def it eval_batch_def model_call_def identity_net_def
        cross_entropy_def sample_loss_def)
qed

text \<open>
  A forward pass that fails, a label that is no class, a backward pass that fails, each
  in training and in evaluation, in the first batch of a loop, of an epoch and of the
  training cell, a dev set with a wrong label after a training epoch that succeeds, and
  dataset files that cannot be read.
\<close>

theorem errors_propagate_witness:
  "(model_call broken_net [[0, 0]] (snd (zero_grad small_world)) = (Inl RuntimeError, snd (model_call broken_net [[0, 0]] (snd (zero_grad small_world))))) \<and>
   (train_batch broken_net ([[0, 0]], [0]) (0, 0) small_world = (Inl RuntimeError, snd (model_call broken_net [[0, 0]] (snd (zero_grad small_world))))) \<and>
   (model_call identity_net [[0, 0]] (snd (zero_grad small_world)) = (Inr [[0, 0]], snd (model_call identity_net [[0, 0]] (snd (zero_grad small_world))))) \<and>
   (cross_entropy [[0, 0]] [5] (snd (model_call identity_net [[0, 0]] (snd (zero_grad small_world)))) = (Inl IndexError, snd (cross_entropy [[0, 0]] [5] (snd (model_call identity_net [[0, 0]] (snd (zero_grad small_world))))))) \<and>
   (train_batch identity_net ([[0, 0]], [5]) (0, 0) small_world = (Inl IndexError, snd (cross_entropy [[0, 0]] [5] (snd (model_call identity_net [[0, 0]] (snd (zero_grad small_world))))))) \<and>
   (model_call no_grad_net [[0, 0]] (snd (zero_grad small_world)) = (Inr [[0, 0]], snd (model_call no_grad_net [[0, 0]] (snd (zero_grad small_world))))) \<and>
   (cross_entropy [[0, 0]] [0] (snd (model_call no_grad_net [[0, 0]] (snd (zero_grad small_world)))) = (Inr (ln 2), snd (cross_entropy [[0, 0]] [0] (snd (model_call no_grad_net [[0, 0]] (snd (zero_grad small_world))))))) \<and>
   (backward no_grad_net [[0, 0]] [0] (snd (cross_entropy [[0, 0]] [0] (snd (model_call no_grad_net [[0, 0]] (snd (zero_grad small_world)))))) = (Inl RuntimeError, snd (backward no_grad_net [[0, 0]] [0] (snd (cross_entropy [[0, 0]] [0] (snd (model_call no_grad_net [[0, 0]] (snd (zero_grad small_world))))))))) \<and>
   (train_batch no_grad_net ([[0, 0]], [0]) (0, 0) small_world = (Inl RuntimeError, snd (backward no_grad_net [[0, 0]] [0] (snd (cross_entropy [[0, 0]] [0] (snd (model_call no_grad_net [[0, 0]] (snd (zero_grad small_world))))))))) \<and>
   (model_call broken_net [[0, 0]] small_world = (Inl RuntimeError, snd (model_call broken_net [[0, 0]] small_world))) \<and>
   (eval_batch broken_net ([[0, 0]], [0]) (0, 0) small_world = (Inl RuntimeError, snd (model_call broken_net [[0, 0]] small_world))) \<and>
   (model_call identity_net [[0, 0]] small_world = (Inr [[0, 0]], snd (model_call identity_net [[0, 0]] small_world))) \<and>
   (cross_entropy [[0, 0]] [5] (snd (model_call identity_net [[0, 0]] small_world)) = (Inl IndexError, snd (cross_entropy [[0, 0]] [5] (snd (model_call identity_net [[0, 0]] small_world))))) \<and>
   (eval_batch identity_net ([[0, 0]], [5]) (0, 0) small_world = (Inl IndexError, snd (cross_entropy [[0, 0]] [5] (snd (model_call identity_net [[0, 0]] small_world))))) \<and>
   (train_loop broken_net [] (0, 0) small_world = (Inr (0, 0), small_world)) \<and>
   (train_loop broken_net ([] @ ([[0, 0]], [0]) # []) (0, 0) small_world = (Inl RuntimeError, snd (model_call broken_net [[0, 0]] (snd (zero_grad small_world))))) \<and>
   (eval_loop identity_net [] (0, 0) small_world = (Inr (0, 0), small_world)) \<and>
   (eval_loop identity_net ([] @ ([[0, 0]], [5]) # []) (0, 0) small_world = (Inl IndexError, snd (cross_entropy [[0, 0]] [5] (snd (model_call identity_net [[0, 0]] small_world))))) \<and>
   (iterate \<lparr>part = Train, batch_size = 2\<rparr> (snd (model_train small_world)) = (Inr [([[2, 5], [1, 0]], [1, 0]), ([[0, 1]], [0])], snd (iterate \<lparr>part = Train, batch_size = 2\<rparr> (snd (model_train small_world))))) \<and>
   (train_loop broken_net [([[2, 5], [1, 0]], [1, 0]), ([[0, 1]], [0])] (0, 0) (snd (iterate \<lparr>part = Train, batch_size = 2\<rparr> (snd (model_train small_world)))) = (Inl RuntimeError, snd (train_loop broken_net [([[2, 5], [1, 0]], [1, 0]), ([[0, 1]], [0])] (0, 0) (snd (iterate \<lparr>part = Train, batch_size = 2\<rparr> (snd (model_train small_world))))))) \<and>
   (train_epoch broken_net \<lparr>part = Train, batch_size = 2\<rparr> 1 small_world = (Inl RuntimeError, snd (train_loop broken_net [([[2, 5], [1, 0]], [1, 0]), ([[0, 1]], [0])] (0, 0) (snd (iterate \<lparr>part = Train, batch_size = 2\<rparr> (snd (model_train small_world))))))) \<and>
   (iterate \<lparr>part = Dev, batch_size = 2\<rparr> (snd (model_eval small_world)) = (Inr [([[2, 5], [1, 0]], [1, 0]), ([[0, 1]], [0])], snd (iterate \<lparr>part = Dev, batch_size = 2\<rparr> (snd (model_eval small_world))))) \<and>
   (eval_loop broken_net [([[2, 5], [1, 0]], [1, 0]), ([[0, 1]], [0])] (0, 0) (snd (iterate \<lparr>part = Dev, batch_size = 2\<rparr> (snd (model_eval small_world)))) = (Inl RuntimeError, snd (eval_loop broken_net [([[2, 5], [1, 0]], [1, 0]), ([[0, 1]], [0])] (0, 0) (snd (iterate \<lparr>part = Dev, batch_size = 2\<rparr> (snd (model_eval small_world))))))) \<and>
   (eval_epoch broken_net \<lparr>part = Dev, batch_size = 2\<rparr> ''Dev'' small_world = (Inl RuntimeError, snd (eval_loop broken_net [([[2, 5], [1, 0]], [1, 0]), ([[0, 1]], [0])] (0, 0) (snd (iterate \<lparr>part = Dev, batch_size = 2\<rparr> (snd (model_eval small_world))))))) \<and>
   (driver_loop broken_net \<lparr>part = Train, batch_size = 2\<rparr> \<lparr>part = Dev, batch_size = 2\<rparr> [] small_world = (Inr (), small_world)) \<and>
   (driver_loop broken_net \<lparr>part = Train, batch_size = 2\<rparr> \<lparr>part = Dev, batch_size = 2\<rparr> ([] @ 1 # [2]) small_world = (Inl RuntimeError, snd (train_loop broken_net [([[2, 5], [1, 0]], [1, 0]), ([[0, 1]], [0])] (0, 0) (snd (iterate \<lparr>part = Train, batch_size = 2\<rparr> (snd (model_train small_world))))))) \<and>
   (driver_loop identity_net \<lparr>part = Train, batch_size = 2\<rparr> \<lparr>part = Dev, batch_size = 2\<rparr> [] bad_dev_world = (Inr (), bad_dev_world)) \<and>
   (train_epoch identity_net \<lparr>part = Train, batch_size = 2\<rparr> 1 bad_dev_world = (Inr (), snd (train_epoch identity_net \<lparr>part = Train, batch_size = 2\<rparr> 1 bad_dev_world))) \<and>
   (eval_epoch identity_net \<lparr>part = Dev, batch_size = 2\<rparr> ''Dev'' (snd (train_epoch identity_net \<lparr>part = Train, batch_size = 2\<rparr> 1 bad_dev_world)) = (Inl IndexError, snd (eval_epoch identity_net \<lparr>part = Dev, batch_size = 2\<rparr> ''Dev'' (snd (train_epoch identity_net \<lparr>part = Train, batch_size = 2\<rparr> 1 bad_dev_world))))) \<and>
   (driver_loop identity_net \<lparr>part = Train, batch_size = 2\<rparr> \<lparr>part = Dev, batch_size = 2\<rparr> ([] @ 1 # [2]) bad_dev_world = (Inl IndexError, snd (eval_epoch identity_net \<lparr>part = Dev, batch_size = 2\<rparr> ''Dev'' (snd (train_epoch identity_net \<lparr>part = Train, batch_size = 2\<rparr> 1 bad_dev_world))))) \<and>
   (fst (driver broken_net \<lparr>part = Train, batch_size = 2\<rparr> \<lparr>part = Dev, batch_size = 2\<rparr> 2 small_world) = Inl RuntimeError) \<and>
   (RuntimeError = ZeroDivisionError \<or> RuntimeError \<in> library_errors broken_net) \<and>
   (load_cell (Inl OSError) (Inr [20, 21 :: nat]) = Inl OSError) \<and>
   (num_train (length [10, 11, 12, 13, 14 :: nat]) \<le> length [10, 11, 12, 13, 14 :: nat]) \<and>
   (load_cell (Inr [10, 11, 12, 13, 14 :: nat]) (Inl OSError) = Inl OSError)"
proof -
  have h1: "model_call broken_net [[0, 0]] (snd (zero_grad small_world)) = (Inl RuntimeError, snd (model_call broken_net [[0, 0]] (snd (zero_grad small_world))))"
    by (rule pair_fst) (rule broken_model_call)
  have c1: "train_batch broken_net ([[0, 0]], [0]) (0, 0) small_world = (Inl RuntimeError, snd (model_call broken_net [[0, 0]] (snd (zero_grad small_world))))"
    by (rule errors_propagate [where A = "broken_net" and data = "[[0, 0]]" and w = "small_world" and e = "RuntimeError" and w' = "snd (model_call broken_net [[0, 0]] (snd (zero_grad small_world)))" and target = "[0]" and acc = "(0, 0)", THEN conjunct1, THEN mp, OF h1])
  have h2a: "model_call identity_net [[0, 0]] (snd (zero_grad small_world)) = (Inr [[0, 0]], snd (model_call identity_net [[0, 0]] (snd (zero_grad small_world))))"
    by (rule pair_fst) (rule identity_model_call)
  have h2b: "cross_entropy [[0, 0]] [5] (snd (model_call identity_net [[0, 0]] (snd (zero_grad small_world)))) = (Inl IndexError, snd (cross_entropy [[0, 0]] [5] (snd (model_call identity_net [[0, 0]] (snd (zero_grad small_world))))))"
    by (rule pair_fst) (rule bad_label)
  have c2: "train_batch identity_net ([[0, 0]], [5]) (0, 0) small_world = (Inl IndexError, snd (cross_entropy [[0, 0]] [5] (snd (model_call identity_net [[0, 0]] (snd (zero_grad small_world))))))"
    by (rule errors_propagate [where A = "identity_net" and data = "[[0, 0]]" and w = "small_world" and e = "IndexError" and out = "[[0, 0]]" and ?w1.0 = "snd (model_call identity_net [[0, 0]] (snd (zero_grad small_world)))" and w' = "snd (cross_entropy [[0, 0]] [5] (snd (model_call identity_net [[0, 0]] (snd (zero_grad small_world)))))" and target = "[5]" and acc = "(0, 0)", THEN conjunct2, THEN conjunct1, THEN mp, OF conjI [OF h2a h2b]])
  have h3a: "model_call no_grad_net [[0, 0]] (snd (zero_grad small_world)) = (Inr [[0, 0]], snd (model_call no_grad_net [[0, 0]] (snd (zero_grad small_world))))"
    by (rule pair_fst) (rule no_grad_model_call)
  have h3b: "cross_entropy [[0, 0]] [0] (snd (model_call no_grad_net [[0, 0]] (snd (zero_grad small_world)))) = (Inr (ln 2), snd (cross_entropy [[0, 0]] [0] (snd (model_call no_grad_net [[0, 0]] (snd (zero_grad small_world))))))"
    by (rule pair_fst) (rule good_label)
  have h3c: "backward no_grad_net [[0, 0]] [0] (snd (cross_entropy [[0, 0]] [0] (snd (model_call no_grad_net [[0, 0]] (snd (zero_grad small_world)))))) = (Inl RuntimeError, snd (backward no_grad_net [[0, 0]] [0] (snd (cross_entropy [[0, 0]] [0] (snd (model_call no_grad_net [[0, 0]] (snd (zero_grad small_world))))))))"
    by (rule pair_fst) (rule no_grad_backward)
  have c3: "train_batch no_grad_net ([[0, 0]], [0]) (0, 0) small_world = (Inl RuntimeError, snd (backward no_grad_net [[0, 0]] [0] (snd (cross_entropy [[0, 0]] [0] (snd (model_call no_grad_net [[0, 0]] (snd (zero_grad small_world))))))))"
    by (rule errors_propagate [where A = "no_grad_net" and data = "[[0, 0]]" and w = "small_world" and e = "RuntimeError" and out = "[[0, 0]]" and ?w1.0 = "snd (model_call no_grad_net [[0, 0]] (snd (zero_grad small_world)))" and loss = "ln 2" and ?w2.0 = "snd (cross_entropy [[0, 0]] [0] (snd (model_call no_grad_net [[0, 0]] (snd (zero_grad small_world)))))" and w' = "snd (backward no_grad_net [[0, 0]] [0] (snd (cross_entropy [[0, 0]] [0] (snd (model_call no_grad_net [[0, 0]] (snd (zero_grad small_world)))))))" and target = "[0]" and acc = "(0, 0)", THEN conjunct2, THEN conjunct2, THEN conjunct1, THEN mp, OF conjI [OF h3a conjI [OF h3b h3c]]])
  have h4: "model_call broken_net [[0, 0]] small_world = (Inl RuntimeError, snd (model_call broken_net [[0, 0]] small_world))"
    by (rule pair_fst) (rule broken_model_call)
  have c4: "eval_batch broken_net ([[0, 0]], [0]) (0, 0) small_world = (Inl RuntimeError, snd (model_call broken_net [[0, 0]] small_world))"
    by (rule errors_propagate [where A = "broken_net" and data = "[[0, 0]]" and w = "small_world" and e = "RuntimeError" and w' = "snd (model_call broken_net [[0, 0]] small_world)" and target = "[0]" and acc = "(0, 0)", THEN conjunct2, THEN conjunct2, THEN conjunct2, THEN conjunct1, THEN mp, OF h4])
  have h5a: "model_call identity_net [[0, 0]] small_world = (Inr [[0, 0]], snd (model_call identity_net [[0, 0]] small_world))"
    by (rule pair_fst) (rule identity_model_call)
  have h5b: "cross_entropy [[0, 0]] [5] (snd (model_call identity_net [[0, 0]] small_world)) = (Inl IndexError, snd (cross_entropy [[0, 0]] [5] (snd (model_call identity_net [[0, 0]] small_world))))"
    by (rule pair_fst) (rule bad_label)
  have c5: "eval_batch identity_net ([[0, 0]], [5]) (0, 0) small_world = (Inl IndexError, snd (cross_entropy [[0, 0]] [5] (snd (model_call identity_net [[0, 0]] small_world))))"
    by (rule errors_propagate [where A = "identity_net" and data = "[[0, 0]]" and w = "small_world" and e = "IndexError" and out = "[[0, 0]]" and ?w1.0 = "snd (model_call identity_net [[0, 0]] small_world)" and w' = "snd (cross_entropy [[0, 0]] [5] (snd (model_call identity_net [[0, 0]] small_world)))" and target = "[5]" and acc = "(0, 0)", THEN conjunct2, THEN conjunct2, THEN conjunct2, THEN conjunct2, THEN conjunct1, THEN mp, OF conjI [OF h5a h5b]])
  have h6: "train_loop broken_net [] (0, 0) small_world = (Inr (0, 0), small_world)"
    by (simp add: returns_def)
  have c6: "train_loop broken_net ([] @ ([[0, 0]], [0]) # []) (0, 0) small_world = (Inl RuntimeError, snd (model_call broken_net [[0, 0]] (snd (zero_grad small_world))))"
    by (rule errors_propagate [where A = "broken_net" and pre = "[]" and acc = "(0, 0)" and w = "small_world" and ?acc1.0 = "(0, 0)" and ?w1.0 = "small_world" and b = "([[0, 0]], [0])" and e = "RuntimeError" and w' = "snd (model_call broken_net [[0, 0]] (snd (zero_grad small_world)))" and post = "[]", THEN conjunct2, THEN conjunct2, THEN conjunct2, THEN conjunct2, THEN conjunct2, THEN conjunct1, THEN mp, OF conjI [OF h6 c1]])
  have h7: "eval_loop identity_net [] (0, 0) small_world = (Inr (0, 0), small_world)"
    by (simp add: returns_def)
  have c7: "eval_loop identity_net ([] @ ([[0, 0]], [5]) # []) (0, 0) small_world = (Inl IndexError, snd (cross_entropy [[0, 0]] [5] (snd (model_call identity_net [[0, 0]] small_world))))"
    by (rule errors_propagate [where A = "identity_net" and pre = "[]" and acc = "(0, 0)" and w = "small_world" and ?acc1.0 = "(0, 0)" and ?w1.0 = "small_world" and b = "([[0, 0]], [5])" and e = "IndexError" and w' = "snd (cross_entropy [[0, 0]] [5] (snd (model_call identity_net [[0, 0]] small_world)))" and post = "[]", THEN conjunct2, THEN conjunct2, THEN conjunct2, THEN conjunct2, THEN conjunct2, THEN conjunct2, THEN conjunct1, THEN mp, OF conjI [OF h7 c5]])
  have h8a: "iterate \<lparr>part = Train, batch_size = 2\<rparr> (snd (model_train small_world)) = (Inr [([[2, 5], [1, 0]], [1, 0]), ([[0, 1]], [0])], snd (iterate \<lparr>part = Train, batch_size = 2\<rparr> (snd (model_train small_world))))"
    by (rule pair_fst, rule small_iterate)
      (simp_all add: dataset_def small_world_def model_train_def)
  have h8b: "train_loop broken_net [([[2, 5], [1, 0]], [1, 0]), ([[0, 1]], [0])] (0, 0) (snd (iterate \<lparr>part = Train, batch_size = 2\<rparr> (snd (model_train small_world)))) = (Inl RuntimeError, snd (train_loop broken_net [([[2, 5], [1, 0]], [1, 0]), ([[0, 1]], [0])] (0, 0) (snd (iterate \<lparr>part = Train, batch_size = 2\<rparr> (snd (model_train small_world))))))"
    by (rule pair_fst) (rule broken_train_loop)
  have c8: "train_epoch broken_net \<lparr>part = Train, batch_size = 2\<rparr> 1 small_world = (Inl RuntimeError, snd (train_loop broken_net [([[2, 5], [1, 0]], [1, 0]), ([[0, 1]], [0])] (0, 0) (snd (iterate \<lparr>part = Train, batch_size = 2\<rparr> (snd (model_train small_world))))))"
    by (rule errors_propagate [where A = "broken_net" and l = "\<lparr>part = Train, batch_size = 2\<rparr>" and w = "small_world" and batches = "[([[2, 5], [1, 0]], [1, 0]), ([[0, 1]], [0])]" and ?w1.0 = "snd (iterate \<lparr>part = Train, batch_size = 2\<rparr> (snd (model_train small_world)))" and e = "RuntimeError" and w' = "snd (train_loop broken_net [([[2, 5], [1, 0]], [1, 0]), ([[0, 1]], [0])] (0, 0) (snd (iterate \<lparr>part = Train, batch_size = 2\<rparr> (snd (model_train small_world)))))" and epoch = "1", THEN conjunct2, THEN conjunct2, THEN conjunct2, THEN conjunct2, THEN conjunct2, THEN conjunct2, THEN conjunct2, THEN conjunct1, THEN mp, OF conjI [OF h8a h8b]])
  have h9a: "iterate \<lparr>part = Dev, batch_size = 2\<rparr> (snd (model_eval small_world)) = (Inr [([[2, 5], [1, 0]], [1, 0]), ([[0, 1]], [0])], snd (iterate \<lparr>part = Dev, batch_size = 2\<rparr> (snd (model_eval small_world))))"
    by (rule pair_fst, rule small_iterate)
      (simp_all add: dataset_def small_world_def model_eval_def)
  have h9b: "eval_loop broken_net [([[2, 5], [1, 0]], [1, 0]), ([[0, 1]], [0])] (0, 0) (snd (iterate \<lparr>part = Dev, batch_size = 2\<rparr> (snd (model_eval small_world)))) = (Inl RuntimeError, snd (eval_loop broken_net [([[2, 5], [1, 0]], [1, 0]), ([[0, 1]], [0])] (0, 0) (snd (iterate \<lparr>part = Dev, batch_size = 2\<rparr> (snd (model_eval small_world))))))"
    by (rule pair_fst) (rule broken_eval_loop)
  have c9: "eval_epoch broken_net \<lparr>part = Dev, batch_size = 2\<rparr> ''Dev'' small_world = (Inl RuntimeError, snd (eval_loop broken_net [([[2, 5], [1, 0]], [1, 0]), ([[0, 1]], [0])] (0, 0) (snd (iterate \<lparr>part = Dev, batch_size = 2\<rparr> (snd (model_eval small_world))))))"
    by (rule errors_propagate [where A = "broken_net" and l = "\<lparr>part = Dev, batch_size = 2\<rparr>" and w = "small_world" and batches = "[([[2, 5], [1, 0]], [1, 0]), ([[0, 1]], [0])]" and ?w1.0 = "snd (iterate \<lparr>part = Dev, batch_size = 2\<rparr> (snd (model_eval small_world)))" and e = "RuntimeError" and w' = "snd (eval_loop broken_net [([[2, 5], [1, 0]], [1, 0]), ([[0, 1]], [0])] (0, 0) (snd (iterate \<lparr>part = Dev, batch_size = 2\<rparr> (snd (model_eval small_world)))))" and name = "''Dev''", THEN conjunct2, THEN conjunct2, THEN conjunct2, THEN conjunct2, THEN conjunct2, THEN conjunct2, THEN conjunct2, THEN conjunct2, THEN conjunct1, THEN mp, OF conjI [OF h9a h9b]])
  have h10: "driver_loop broken_net \<lparr>part = Train, batch_size = 2\<rparr> \<lparr>part = Dev, batch_size = 2\<rparr> [] small_world = (Inr (), small_world)"
    by (simp add: returns_def)
  have c10: "driver_loop broken_net \<lparr>part = Train, batch_size = 2\<rparr> \<lparr>part = Dev, batch_size = 2\<rparr> ([] @ 1 # [2]) small_world = (Inl RuntimeError, snd (train_loop broken_net [([[2, 5], [1, 0]], [1, 0]), ([[0, 1]], [0])] (0, 0) (snd (iterate \<lparr>part = Train, batch_size = 2\<rparr> (snd (model_train small_world))))))"
    by (rule errors_propagate [where A = "broken_net" and trl = "\<lparr>part = Train, batch_size = 2\<rparr>" and dvl = "\<lparr>part = Dev, batch_size = 2\<rparr>" and before = "[]" and w = "small_world" and ?w1.0 = "small_world" and epoch = "1" and e = "RuntimeError" and w' = "snd (train_loop broken_net [([[2, 5], [1, 0]], [1, 0]), ([[0, 1]], [0])] (0, 0) (snd (iterate \<lparr>part = Train, batch_size = 2\<rparr> (snd (model_train small_world)))))" and rest = "[2]", THEN conjunct2, THEN conjunct2, THEN conjunct2, THEN conjunct2, THEN conjunct2, THEN conjunct2, THEN conjunct2, THEN conjunct2, THEN conjunct2, THEN conjunct1, THEN mp, OF conjI [OF h10 c8]])
  have t: "trainable identity_net (dataset bad_dev_world \<lparr>part = Train, batch_size = 2\<rparr>)"
    by (simp add: trainable_def accepts_def identity_net_def dataset_def bad_dev_world_def
        small_world_def three_samples_def)
  have n: "dataset bad_dev_world \<lparr>part = Train, batch_size = 2\<rparr> \<noteq> []"
    by (simp add: dataset_def bad_dev_world_def small_world_def three_samples_def)
  from train_epoch_ok [OF t n, of 1]
  have T1: "fst (train_epoch identity_net \<lparr>part = Train, batch_size = 2\<rparr> 1 bad_dev_world) = Inr ()"
    "dev (snd (train_epoch identity_net \<lparr>part = Train, batch_size = 2\<rparr> 1 bad_dev_world)) = [([0, 0], 5)]" "rng (snd (train_epoch identity_net \<lparr>part = Train, batch_size = 2\<rparr> 1 bad_dev_world)) = []"
    by (auto simp add: bad_dev_world_def small_world_def dataset_def three_samples_def)
  have h11a: "driver_loop identity_net \<lparr>part = Train, batch_size = 2\<rparr> \<lparr>part = Dev, batch_size = 2\<rparr> [] bad_dev_world = (Inr (), bad_dev_world)"
    by (simp add: returns_def)
  have h11b: "train_epoch identity_net \<lparr>part = Train, batch_size = 2\<rparr> 1 bad_dev_world = (Inr (), snd (train_epoch identity_net \<lparr>part = Train, batch_size = 2\<rparr> 1 bad_dev_world))"
    by (rule pair_fst) (rule T1)
  have h11c: "eval_epoch identity_net \<lparr>part = Dev, batch_size = 2\<rparr> ''Dev'' (snd (train_epoch identity_net \<lparr>part = Train, batch_size = 2\<rparr> 1 bad_dev_world)) = (Inl IndexError, snd (eval_epoch identity_net \<lparr>part = Dev, batch_size = 2\<rparr> ''Dev'' (snd (train_epoch identity_net \<lparr>part = Train, batch_size = 2\<rparr> 1 bad_dev_world))))"
    by (rule pair_fst) (rule bad_dev_eval [OF T1(2,3)])
  have c11: "driver_loop identity_net \<lparr>part = Train, batch_size = 2\<rparr> \<lparr>part = Dev, batch_size = 2\<rparr> ([] @ 1 # [2]) bad_dev_world = (Inl IndexError, snd (eval_epoch identity_net \<lparr>part = Dev, batch_size = 2\<rparr> ''Dev'' (snd (train_epoch identity_net \<lparr>part = Train, batch_size = 2\<rparr> 1 bad_dev_world))))"
    by (rule errors_propagate [where A = "identity_net" and trl = "\<lparr>part = Train, batch_size = 2\<rparr>" and dvl = "\<lparr>part = Dev, batch_size = 2\<rparr>" and before = "[]" and w = "bad_dev_world" and ?w1.0 = "bad_dev_world" and epoch = "1" and ?w2.0 = "snd (train_epoch identity_net \<lparr>part = Train, batch_size = 2\<rparr> 1 bad_dev_world)" and e = "IndexError" and w' = "snd (eval_epoch identity_net \<lparr>part = Dev, batch_size = 2\<rparr> ''Dev'' (snd (train_epoch identity_net \<lparr>part = Train, batch_size = 2\<rparr> 1 bad_dev_world)))" and rest = "[2]", THEN conjunct2, THEN conjunct2, THEN conjunct2, THEN conjunct2, THEN conjunct2, THEN conjunct2, THEN conjunct2, THEN conjunct2, THEN conjunct2, THEN conjunct2, THEN conjunct1, THEN mp, OF conjI [OF h11a conjI [OF h11b h11c]]])
  have u: "[1..2] = [] @ 1 # [2 :: int]"
    by (simp add: upto_rec1)
  have h12: "fst (driver broken_net \<lparr>part = Train, batch_size = 2\<rparr> \<lparr>part = Dev, batch_size = 2\<rparr> 2 small_world) = Inl RuntimeError"
    unfolding driver_def u c10 by simp
  have c12: "RuntimeError = ZeroDivisionError \<or> RuntimeError \<in> library_errors broken_net"
    by (rule errors_propagate [where A = "broken_net" and trl = "\<lparr>part = Train, batch_size = 2\<rparr>" and dvl = "\<lparr>part = Dev, batch_size = 2\<rparr>" and epochs = "2" and w = "small_world" and e = "RuntimeError", THEN conjunct2, THEN conjunct2, THEN conjunct2, THEN conjunct2, THEN conjunct2, THEN conjunct2, THEN conjunct2, THEN conjunct2, THEN conjunct2, THEN conjunct2, THEN conjunct2, THEN conjunct1, THEN mp, OF h12])
  have c13: "load_cell (Inl OSError) (Inr [20, 21 :: nat]) = Inl OSError"
    by (rule errors_propagate [where e = "OSError" and mnist_test = "Inr [20, 21 :: nat]", THEN conjunct2, THEN conjunct2, THEN conjunct2, THEN conjunct2, THEN conjunct2, THEN conjunct2, THEN conjunct2, THEN conjunct2, THEN conjunct2, THEN conjunct2, THEN conjunct2, THEN conjunct2, THEN conjunct1])
  have h14: "num_train (length [10, 11, 12, 13, 14 :: nat]) \<le> length [10, 11, 12, 13, 14 :: nat]"
    by (simp add: num_train_exact)
  have c14: "load_cell (Inr [10, 11, 12, 13, 14 :: nat]) (Inl OSError) = Inl OSError"
    by (rule errors_propagate [where e = "OSError" and all_train = "[10, 11, 12, 13, 14 :: nat]", THEN conjunct2, THEN conjunct2, THEN conjunct2, THEN conjunct2, THEN conjunct2, THEN conjunct2, THEN conjunct2, THEN conjunct2, THEN conjunct2, THEN conjunct2, THEN conjunct2, THEN conjunct2, THEN conjunct2, THEN mp, OF h14])
  from h1 c1 h2a h2b c2 h3a h3b h3c c3 h4 c4 h5a h5b c5 h6 c6 h7 c7 h8a h8b c8 h9a h9b c9 h10 c10 h11a h11b h11c c11 h12 c12 c13 h14 c14 show ?thesis
    by (intro conjI)
qed

end
